(* ===== verification/Prelude.thy ===== *)
theory Prelude
  imports Main "HOL-Library.AList" "HOL-Library.List_Lexorder" "HOL-Library.Char_ord"
    "HOL-Library.Word" "HOL-Library.Multiset"
begin

text \<open>
  Shared vocabulary of the development: Go strings as byte strings, Go maps as association
  lists, the few functions of the packages \<open>strings\<close> and \<open>sort\<close> that the repository calls,
  state-passing results, and the collections of simplification rules the other theories fill.

  A Go \<open>map[K]V\<close> is an association list whose keys are distinct (\<open>go_map_ok\<close>). The order of
  the list stands for the iteration order, which Go leaves open; \<open>map_of\<close> is the lookup and
  \<open>AList.update\<close> the store. Two lists with the same \<open>map_of\<close> are the same Go map.
\<close>

named_theorems go_simps \<open>equations of the Go library functions that the model uses\<close>
named_theorems err_simps \<open>equations of the error model\<close>
named_theorems op_defs \<open>definitions of the modelled operations, for case analyses\<close>

type_synonym ('k, 'v) go_map = "('k \<times> 'v) list"

definition go_map_ok :: "('k, 'v) go_map \<Rightarrow> bool" where
  "go_map_ok m \<longleftrightarrow> distinct (map fst m)"

definition go_keys :: "('k, 'v) go_map \<Rightarrow> 'k list" where
  "go_keys m = map fst m"

text \<open>\<open>maps.Copy(dst, src)\<close>: every entry of \<open>src\<close> is stored into \<open>dst\<close>, in iteration order.\<close>

fun maps_Copy :: "('k, 'v) go_map \<Rightarrow> ('k, 'v) go_map \<Rightarrow> ('k, 'v) go_map" where
  "maps_Copy dst [] = dst"
| "maps_Copy dst ((k, v) # src) = maps_Copy (AList.update k v dst) src"

lemma go_keys_simps [simp]:
  "go_keys [] = []" "go_keys ((k, v) # m) = k # go_keys m"
  by (simp_all add: go_keys_def)

lemma set_go_keys [simp]: "set (go_keys m) = dom (map_of m)"
  by (simp add: go_keys_def dom_map_of_conv_image_fst)

lemma go_map_ok_simps [simp]:
  "go_map_ok []" "go_map_ok ((k, v) # m) \<longleftrightarrow> k \<notin> dom (map_of m) \<and> go_map_ok m"
  by (auto simp: go_map_ok_def dom_map_of_conv_image_fst)

lemma distinct_go_keys: "go_map_ok m \<Longrightarrow> distinct (go_keys m)"
  by (simp add: go_map_ok_def go_keys_def)

lemma go_map_ok_update [simp]: "go_map_ok m \<Longrightarrow> go_map_ok (AList.update k v m)"
  by (simp add: go_map_ok_def distinct_update)

lemma map_of_update [simp]: "map_of (AList.update k v m) = (map_of m)(k \<mapsto> v)"
  by (rule update_conv')

lemma go_map_ok_maps_Copy [simp]: "go_map_ok dst \<Longrightarrow> go_map_ok (maps_Copy dst src)"
  by (induction dst src rule: maps_Copy.induct) simp_all

lemma map_of_maps_Copy:
  "go_map_ok src \<Longrightarrow> map_of (maps_Copy dst src) = map_of dst ++ map_of src"
proof (induction dst src rule: maps_Copy.induct)
  case (1 dst)
  then show ?case by simp
next
  case (2 dst k v src)
  then have "k \<notin> dom (map_of src)" "go_map_ok src" by simp_all
  with "2.IH" show ?case
    by (auto simp: map_add_def fun_eq_iff domIff split: option.splits)
qed

text \<open>
  \<open>sort.Strings\<close>: bytewise lexicographic order, which is total, so the sorted list is unique
  whatever algorithm produces it.
\<close>

definition sort_Strings :: "string list \<Rightarrow> string list" where
  "sort_Strings xs = sort xs"

lemma sort_Strings_props [simp]:
  "sorted (sort_Strings xs)" "mset (sort_Strings xs) = mset xs"
  "set (sort_Strings xs) = set xs" "length (sort_Strings xs) = length xs"
  "distinct (sort_Strings xs) = distinct xs"
  by (simp_all add: sort_Strings_def)

lemma sort_Strings_unique:
  assumes "distinct xs" "distinct ys" "set xs = set ys"
  shows "sort_Strings xs = sort_Strings ys"
  unfolding sort_Strings_def
  using assms by (intro sorted_distinct_set_unique) auto

text \<open>\<open>strings.HasPrefix\<close>, \<open>strings.TrimPrefix\<close>, \<open>strings.ReplaceAll\<close> with a one-byte pattern.\<close>

definition strings_HasPrefix :: "string \<Rightarrow> string \<Rightarrow> bool" where
  "strings_HasPrefix s p \<longleftrightarrow> take (length p) s = p"

definition strings_TrimPrefix :: "string \<Rightarrow> string \<Rightarrow> string" where
  "strings_TrimPrefix s p = (if strings_HasPrefix s p then drop (length p) s else s)"

fun strings_ReplaceByte :: "string \<Rightarrow> char \<Rightarrow> string \<Rightarrow> string" where
  "strings_ReplaceByte [] old new = []"
| "strings_ReplaceByte (c # s) old new =
     (if c = old then new else [c]) @ strings_ReplaceByte s old new"

lemma HasPrefix_append [simp]: "strings_HasPrefix (p @ s) p"
  by (simp add: strings_HasPrefix_def)

lemma TrimPrefix_append [simp]: "strings_TrimPrefix (p @ s) p = s"
  by (simp add: strings_TrimPrefix_def)

lemma HasPrefix_iff: "strings_HasPrefix s p \<longleftrightarrow> (\<exists>t. s = p @ t)"
  by (metis HasPrefix_append append_take_drop_id strings_HasPrefix_def)

text \<open>
  A fallible call of a component with state: it returns an error or a value, and the next
  state. A call that returns only an \<open>error\<close> returns \<open>None\<close> for \<open>nil\<close>.
\<close>

type_synonym ('e, 'a, 's) result = "('e + 'a) \<times> 's"

definition res_map :: "('a \<Rightarrow> 'b) \<Rightarrow> 'e + 'a \<Rightarrow> 'e + 'b" where
  "res_map f r = (case r of Inl e \<Rightarrow> Inl e | Inr a \<Rightarrow> Inr (f a))"

lemma res_map_simps [simp]:
  "res_map f (Inl e) = Inl e" "res_map f (Inr a) = Inr (f a)"
  "res_map f r = Inl e \<longleftrightarrow> r = Inl e"
  by (auto simp: res_map_def split: sum.splits)

end
