(* ===== verification/GoErrors.thy ===== *)
theory GoErrors
  imports Prelude
begin

text \<open>
  Go errors. The sentinel values of \<open>client/kubernetes.go\<close> and \<open>provider/base.go\<close> are compared
  by identity, so each is a constructor; \<open>ErrOther\<close> is any error value made elsewhere (a
  library error, \<open>errors.New\<close> of a caller), \<open>ErrWrap pre e post\<close> is
  \<open>fmt.Errorf(pre + "%w" + post, e)\<close>, and \<open>ErrJoin\<close> is \<open>errors.Join\<close> of non-nil errors.
  A returned \<open>error\<close> that may be nil is a \<open>go_error option\<close>.
\<close>

datatype sentinel =
    ErrResourceNotFound | ErrResourceConflict | ErrResourceInvalid | ErrKubernetesRequestFailed
  | ErrServiceNotFound | ErrBackupNotFound | ErrInvalidArgument | ErrServiceNotHealthy
  | ErrNamespaceNotFound | ErrNotImplemented | ErrConflict | ErrServiceUnavailable

fun sentinel_text :: "sentinel \<Rightarrow> string" where
  "sentinel_text ErrResourceNotFound = ''resource not found''"
| "sentinel_text ErrResourceConflict = ''resource conflict''"
| "sentinel_text ErrResourceInvalid = ''resource invalid''"
| "sentinel_text ErrKubernetesRequestFailed = ''kubernetes request failed''"
| "sentinel_text ErrServiceNotFound = ''service not found''"
| "sentinel_text ErrBackupNotFound = ''backup not found''"
| "sentinel_text ErrInvalidArgument = ''invalid argument''"
| "sentinel_text ErrServiceNotHealthy = ''service not healthy''"
| "sentinel_text ErrNamespaceNotFound = ''namespace not found''"
| "sentinel_text ErrNotImplemented = ''not implemented''"
| "sentinel_text ErrConflict = ''conflict''"
| "sentinel_text ErrServiceUnavailable = ''service unavailable''"

datatype go_error =
    ErrSentinel sentinel
  | ErrOther string
  | ErrWrap string go_error string
  | ErrJoin "go_error list"

text \<open>\<open>errors.Is(err, target)\<close>: the target is somewhere in the tree of wrapped errors.\<close>

fun errors_Is :: "go_error \<Rightarrow> sentinel \<Rightarrow> bool" where
  "errors_Is (ErrSentinel t) s \<longleftrightarrow> t = s"
| "errors_Is (ErrOther m) s \<longleftrightarrow> False"
| "errors_Is (ErrWrap pre e post) s \<longleftrightarrow> errors_Is e s"
| "errors_Is (ErrJoin es) s \<longleftrightarrow> list_ex (\<lambda>e. errors_Is e s) es"

text \<open>\<open>err.Error()\<close>.\<close>

fun join_lines :: "string list \<Rightarrow> string" where
  "join_lines [] = ''''"
| "join_lines [m] = m"
| "join_lines (m # ms) = m @ [CHR 0x0A] @ join_lines ms"

fun err_Error :: "go_error \<Rightarrow> string" where
  "err_Error (ErrSentinel t) = sentinel_text t"
| "err_Error (ErrOther m) = m"
| "err_Error (ErrWrap pre e post) = pre @ err_Error e @ post"
| "err_Error (ErrJoin es) = join_lines (map err_Error es)"

text \<open>\<open>errors.Join(errs...)\<close>: nil errors are dropped; nil when nothing is left.\<close>

definition errors_Join :: "go_error option list \<Rightarrow> go_error option" where
  "errors_Join es =
     (case List.map_filter id es of [] \<Rightarrow> None | e # es' \<Rightarrow> Some (ErrJoin (e # es')))"

text \<open>
  The sentinels of the client package are infrastructure errors; the ones of the provider
  package are domain errors. An error is \<open>infra_error\<close> when no domain sentinel is in it.
\<close>

definition client_sentinels :: "sentinel list" where
  "client_sentinels =
     [ErrResourceNotFound, ErrResourceConflict, ErrResourceInvalid, ErrKubernetesRequestFailed]"

definition domain_sentinels :: "sentinel list" where
  "domain_sentinels =
     [ErrServiceNotFound, ErrBackupNotFound, ErrInvalidArgument, ErrServiceNotHealthy,
      ErrNamespaceNotFound, ErrConflict, ErrServiceUnavailable, ErrNotImplemented]"

definition infra_error :: "go_error \<Rightarrow> bool" where
  "infra_error e \<longleftrightarrow> list_all (\<lambda>t. \<not> errors_Is e t) domain_sentinels"

text \<open>An error that carries exactly one client sentinel and no domain sentinel.\<close>

definition classified_as :: "go_error \<Rightarrow> sentinel \<Rightarrow> bool" where
  "classified_as e t \<longleftrightarrow> t \<in> set client_sentinels \<and> (\<forall>u. errors_Is e u \<longleftrightarrow> u = t)"

lemma infra_error_ErrWrap [simp]: "infra_error (ErrWrap pre e post) \<longleftrightarrow> infra_error e"
  by (simp add: infra_error_def)

lemma infra_error_ErrOther [simp]: "infra_error (ErrOther m)"
  by (simp add: infra_error_def list_all_iff)

lemma classified_as_ErrWrap [simp]: "classified_as (ErrWrap pre e post) t \<longleftrightarrow> classified_as e t"
  by (simp add: classified_as_def)

lemma classified_as_infra: "classified_as e t \<Longrightarrow> infra_error e"
  by (auto simp: classified_as_def infra_error_def client_sentinels_def domain_sentinels_def)

lemma classified_ex_infra: "\<exists>t. classified_as e t \<Longrightarrow> infra_error e"
  by (blast intro: classified_as_infra)

lemma classified_as_ErrSentinel: "t \<in> set client_sentinels \<Longrightarrow> classified_as (ErrSentinel t) t"
  by (auto simp: classified_as_def)

lemma classified_as_unique: "classified_as e t \<Longrightarrow> classified_as e u \<Longrightarrow> t = u"
  by (auto simp: classified_as_def)

lemma sentinels_disjoint: "set client_sentinels \<inter> set domain_sentinels = {}"
  by (simp add: client_sentinels_def domain_sentinels_def)

lemma errors_Join_None [simp]: "errors_Join es = None \<longleftrightarrow> set es \<subseteq> {None}"
  by (induction es) (auto simp: errors_Join_def List.map_filter_def split: list.splits)

end
