(* ===== verification/GoStrconv.thy ===== *)
theory GoStrconv
  imports Prelude
begin

text \<open>
  \<open>strconv.Atoi\<close> and the decimal formatting of \<open>fmt.Sprintf("%d", n)\<close>, which the packages
  config and provider use. Go's \<open>int\<close> has 64 bits on the supported platforms: \<open>Atoi\<close> fails
  outside of that range. The model's value is an \<open>int\<close> together with the range check.
\<close>

definition in_int64 :: "int \<Rightarrow> bool" where
  "in_int64 n \<longleftrightarrow> - (2 ^ 63) \<le> n \<and> n < 2 ^ 63"

definition is_digit :: "char \<Rightarrow> bool" where
  "is_digit c \<longleftrightarrow> 48 \<le> (of_char c :: nat) \<and> (of_char c :: nat) \<le> 57"

definition digit_val :: "char \<Rightarrow> nat" where
  "digit_val c = of_char c - 48"

definition digit_char :: "nat \<Rightarrow> char" where
  "digit_char d = char_of (48 + d)"

fun digits_val :: "nat \<Rightarrow> string \<Rightarrow> nat" where
  "digits_val n [] = n"
| "digits_val n (c # cs) = digits_val (10 * n + digit_val c) cs"

definition strconv_Atoi :: "string \<Rightarrow> int option" where
  "strconv_Atoi s =
     (let neg = (case s of [] \<Rightarrow> False | c # _ \<Rightarrow> c = CHR ''-'');
          ds = (case s of [] \<Rightarrow> [] | c # cs \<Rightarrow> if c = CHR ''-'' \<or> c = CHR ''+'' then cs else s);
          v = (if neg then - int (digits_val 0 ds) else int (digits_val 0 ds))
      in if ds \<noteq> [] \<and> list_all is_digit ds \<and> in_int64 v then Some v else None)"

fun digits_of :: "nat \<Rightarrow> string" where
  "digits_of n = (if n < 10 then [digit_char n] else digits_of (n div 10) @ [digit_char (n mod 10)])"

declare digits_of.simps [simp del]

definition fmt_d :: "int \<Rightarrow> string" where
  "fmt_d n = (if n < 0 then CHR ''-'' # digits_of (nat (- n)) else digits_of (nat n))"

lemma of_char_digit_char: "d < 10 \<Longrightarrow> (of_char (digit_char d) :: nat) = 48 + d"
  by (simp add: digit_char_def)

lemma is_digit_digit_char [simp]: "d < 10 \<Longrightarrow> is_digit (digit_char d)"
  by (simp add: is_digit_def of_char_digit_char)

lemma digit_val_digit_char [simp]: "d < 10 \<Longrightarrow> digit_val (digit_char d) = d"
  by (simp add: digit_val_def of_char_digit_char)

lemma not_digit_signs [simp]: "\<not> is_digit CHR ''-''" "\<not> is_digit CHR ''+''"
  by (simp_all add: is_digit_def)

lemma digits_val_append [simp]: "digits_val n (xs @ ys) = digits_val (digits_val n xs) ys"
  by (induction n xs rule: digits_val.induct) auto

lemma digits_of_digits: "list_all is_digit (digits_of n)"
proof (induction n rule: digits_of.induct)
  case (1 n)
  then show ?case by (subst digits_of.simps) simp
qed

lemma digits_of_nonempty [simp]: "digits_of n \<noteq> []"
  by (subst digits_of.simps) simp

lemma digits_val_digits_of: "digits_val 0 (digits_of n) = n"
proof (induction n rule: digits_of.induct)
  case (1 n)
  show ?case
  proof (cases "n < 10")
    case True
    then show ?thesis by (subst digits_of.simps) simp
  next
    case False
    with "1" have "digits_val 0 (digits_of (n div 10)) = n div 10" by simp
    with False show ?thesis by (subst digits_of.simps) simp
  qed
qed

lemma digits_of_head:
  "\<exists>c cs. digits_of n = c # cs \<and> c \<noteq> CHR ''-'' \<and> c \<noteq> CHR ''+''"
  using digits_of_digits [of n] digits_of_nonempty [of n]
  by (cases "digits_of n") auto

lemma Atoi_fmt_d:
  assumes "in_int64 n"
  shows "strconv_Atoi (fmt_d n) = Some n"
proof (cases "n < 0")
  case True
  with assms show ?thesis
    by (simp add: strconv_Atoi_def fmt_d_def digits_val_digits_of digits_of_digits)
next
  case False
  obtain c cs where ds: "digits_of (nat n) = c # cs" "c \<noteq> CHR ''-''" "c \<noteq> CHR ''+''"
    using digits_of_head by blast
  have "digits_val 0 (c # cs) = nat n" "list_all is_digit (c # cs)"
    using digits_val_digits_of [of "nat n"] digits_of_digits [of "nat n"] by (simp_all add: ds)
  with False assms show ?thesis
    by (simp add: strconv_Atoi_def fmt_d_def ds del: digits_val.simps)
qed

lemma Atoi_range: "strconv_Atoi s = Some n \<Longrightarrow> in_int64 n"
  by (auto simp: strconv_Atoi_def Let_def split: if_splits)

lemma fmt_d_inj: "fmt_d m = fmt_d n \<Longrightarrow> m = n"
proof -
  have inj: "digits_of a = digits_of b \<Longrightarrow> a = b" for a b
    by (metis digits_val_digits_of)
  have sign: "digits_of a \<noteq> CHR ''-'' # ds" for a ds
    using digits_of_head [of a] by auto
  show "fmt_d m = fmt_d n \<Longrightarrow> m = n"
    using sign sign [symmetric] by (auto simp: fmt_d_def dest: inj split: if_splits)
qed

end
