(* ===== verification/GoTime.thy ===== *)
theory GoTime
  imports GoStrconv "HOL-Library.Signed_Division"
begin

text \<open>
  The parts of package \<open>time\<close> the repository uses. A \<open>time.Duration\<close> is a signed 64-bit count
  of nanoseconds (\<open>64 word\<close> read with \<open>sint\<close>). \<open>Duration.Seconds\<close> returns a float64, so its
  rounding is modelled: a non-negative double below \<open>2 ^ 53\<close> is a pair \<open>(m, k)\<close> for
  \<open>m / 2 ^ k\<close>, produced from an exact quotient by round-half-to-even at 53 bits.
  A \<open>time.Time\<close> is an instant, the number of nanoseconds since the Unix epoch (an \<open>int\<close>); its
  RFC 3339 text in UTC is computed with the proleptic Gregorian calendar.
\<close>

type_synonym int64 = "64 word"
type_synonym int32 = "32 word"
type_synonym duration = int64
type_synonym go_time = int

subsection \<open>Durations and float64\<close>

definition div_rne :: "nat \<Rightarrow> nat \<Rightarrow> nat" where
  "div_rne p q =
     (let d = p div q; r = p mod q
      in if 2 * r < q then d else if q < 2 * r then Suc d else if even d then d else Suc d)"

fun f64_exp :: "nat \<Rightarrow> nat \<Rightarrow> nat \<Rightarrow> nat" where
  "f64_exp 0 p q = 0"
| "f64_exp (Suc n) p q = (if 2 ^ 52 * q \<le> p then 0 else Suc (f64_exp n (2 * p) q))"

definition f64_round :: "nat \<Rightarrow> nat \<Rightarrow> nat \<times> nat" where
  "f64_round p q =
     (if p = 0 then (0, 0) else let k = f64_exp 1074 p q in (div_rne (p * 2 ^ k) q, k))"

text \<open>\<open>int64(d.Seconds())\<close> of a non-negative duration of \<open>t\<close> nanoseconds:
  \<open>float64(t / 1e9) + float64(t % 1e9) / 1e9\<close>, truncated.\<close>

definition trunc_seconds :: "nat \<Rightarrow> nat" where
  "trunc_seconds t =
     (let (m, k) = f64_round (t mod 10 ^ 9) (10 ^ 9);
          (m', k') = f64_round (t div 10 ^ 9 * 2 ^ k + m) (2 ^ k)
      in m' div 2 ^ k')"

definition int64_Seconds :: "duration \<Rightarrow> int" where
  "int64_Seconds d = sgn (sint d) * int (trunc_seconds (nat \<bar>sint d\<bar>))"

lemma div_rne_lower: "0 < q \<Longrightarrow> n * q \<le> p \<Longrightarrow> n \<le> div_rne p q"
proof -
  assume "0 < q" "n * q \<le> p"
  then have "n \<le> p div q" by (simp add: less_eq_div_iff_mult_less_eq)
  then show ?thesis by (auto simp: div_rne_def Let_def)
qed

lemma div_rne_upper:
  assumes "0 < q" "p \<le> n * q"
  shows "div_rne p q \<le> n"
proof (cases "p div q < n")
  case True
  then show ?thesis by (auto simp: div_rne_def Let_def)
next
  case False
  have "p div q \<le> n" using assms by (metis div_le_mono nonzero_mult_div_cancel_right not_gr0)
  with False have d: "p div q = n" by simp
  then have "n * q + p mod q = p" by (metis div_mult_mod_eq)
  with assms have "p mod q = 0" by linarith
  with d assms show ?thesis by (simp add: div_rne_def)
qed

lemma f64_round_lower:
  assumes "0 < q" "n * q \<le> p" "f64_round p q = (m, k)"
  shows "n * 2 ^ k \<le> m"
proof (cases "p = 0")
  case True
  with assms show ?thesis by (simp add: f64_round_def)
next
  case False
  with assms have m: "m = div_rne (p * 2 ^ k) q" by (auto simp: f64_round_def Let_def)
  have "n * 2 ^ k * q \<le> p * 2 ^ k" using assms(2) by (simp add: mult.assoc mult.commute)
  then show ?thesis unfolding m using assms(1) by (intro div_rne_lower)
qed

lemma f64_round_upper:
  assumes "0 < q" "p \<le> n * q" "f64_round p q = (m, k)"
  shows "m \<le> n * 2 ^ k"
proof (cases "p = 0")
  case True
  with assms show ?thesis by (simp add: f64_round_def)
next
  case False
  with assms have m: "m = div_rne (p * 2 ^ k) q" by (auto simp: f64_round_def Let_def)
  have "p * 2 ^ k \<le> n * 2 ^ k * q" using assms(2) by (simp add: mult.assoc mult.commute)
  then show ?thesis unfolding m using assms(1) by (intro div_rne_upper)
qed

text \<open>
  Truncating the rounded double never loses a second and gains at most one; a whole number of
  seconds is exact.
\<close>

lemma trunc_seconds_bounds:
  "t div 10 ^ 9 \<le> trunc_seconds t \<and> trunc_seconds t \<le> t div 10 ^ 9 + 1"
proof -
  let ?s = "t div 10 ^ 9"
  obtain m k where r: "f64_round (t mod 10 ^ 9) (10 ^ 9) = (m, k)" by force
  obtain m' k' where r': "f64_round (?s * 2 ^ k + m) (2 ^ k) = (m', k')" by force
  have "t mod 10 ^ 9 \<le> 1 * 10 ^ 9" by (simp add: less_imp_le)
  then have m: "m \<le> 1 * 2 ^ k" by (intro f64_round_upper [OF _ _ r]) simp_all
  have "?s * 2 ^ k' \<le> m'" by (rule f64_round_lower [OF _ _ r']) simp_all
  then have lo: "?s \<le> m' div 2 ^ k'" by (simp add: less_eq_div_iff_mult_less_eq)
  have "m' \<le> (?s + 1) * 2 ^ k'" by (rule f64_round_upper [OF _ _ r']) (use m in simp_all)
  then have "m' div 2 ^ k' \<le> ?s + 1"
    by (metis div_le_mono nonzero_mult_div_cancel_right power_not_zero zero_neq_numeral)
  with lo show ?thesis by (simp only: trunc_seconds_def Let_def r r' prod.case)
qed

lemma trunc_seconds_whole: "trunc_seconds (s * 10 ^ 9) = s"
proof -
  obtain m' k' where r': "f64_round (s * 2 ^ 0 + 0) (2 ^ 0) = (m', k')" by force
  have "s * 2 ^ k' \<le> m'" "m' \<le> s * 2 ^ k'"
    using f64_round_lower [OF _ _ r', of s] f64_round_upper [OF _ _ r', of s] by simp_all
  then have "m' = s * 2 ^ k'" by simp
  then have "m' div 2 ^ k' = s" by simp
  with r' show ?thesis by (simp add: trunc_seconds_def f64_round_def [of 0])
qed

subsection \<open>Instants and their RFC 3339 text\<close>

definition zero_time :: go_time where
  "zero_time = - 62135596800 * 10 ^ 9"

definition time_IsZero :: "go_time \<Rightarrow> bool" where
  "time_IsZero t \<longleftrightarrow> t = zero_time"

definition is_leap :: "int \<Rightarrow> bool" where
  "is_leap y \<longleftrightarrow> y mod 4 = 0 \<and> (y mod 100 \<noteq> 0 \<or> y mod 400 = 0)"

text \<open>Year and day of the year (from 0) of a day counted from 1 January of year 1.\<close>

definition year_yday :: "int \<Rightarrow> int \<times> int" where
  "year_yday d =
     (let n400 = d div 146097; d1 = d mod 146097;
          n100 = min 3 (d1 div 36524); d2 = d1 - 36524 * n100;
          n4 = d2 div 1461; d3 = d2 mod 1461;
          n1 = min 3 (d3 div 365)
      in (400 * n400 + 100 * n100 + 4 * n4 + n1 + 1, d3 - 365 * n1))"

definition days_before_year :: "int \<Rightarrow> int" where
  "days_before_year y = 365 * (y - 1) + (y - 1) div 4 - (y - 1) div 100 + (y - 1) div 400"

definition month_lengths :: "bool \<Rightarrow> int list" where
  "month_lengths leap = [31, if leap then 29 else 28, 31, 30, 31, 30, 31, 31, 30, 31, 30, 31]"

fun month_day :: "int list \<Rightarrow> nat \<Rightarrow> int \<Rightarrow> nat \<times> int" where
  "month_day [] m d = (m, d + 1)"
| "month_day (l # ls) m d = (if d < l then (m, d + 1) else month_day ls (Suc m) (d - l))"

definition pad_int :: "nat \<Rightarrow> int \<Rightarrow> string" where
  "pad_int w n = (let ds = digits_of (nat \<bar>n\<bar>)
     in (if n < 0 then ''-'' else '''') @ replicate (w - length ds) CHR ''0'' @ ds)"

definition Format_RFC3339 :: "go_time \<Rightarrow> string" where
  "Format_RFC3339 t =
     (let s = t div 10 ^ 9; sod = s mod 86400;
          (y, yd) = year_yday (s div 86400 + 719162);
          (mo, d) = month_day (month_lengths (is_leap y)) 1 yd
      in pad_int 4 y @ ''-'' @ pad_int 2 (int mo) @ ''-'' @ pad_int 2 d @ ''T'' @
         pad_int 2 (sod div 3600) @ '':'' @ pad_int 2 (sod div 60 mod 60) @ '':'' @
         pad_int 2 (sod mod 60) @ ''Z'')"

text \<open>The calendar arithmetic is inverted by counting days, so no two days share a date.\<close>

lemma year_yday_bounds:
  assumes "year_yday d = (y, yd)"
  shows "days_before_year y + yd = d \<and> 0 \<le> yd \<and> yd < (if is_leap y then 366 else 365)"
proof -
  define a d1 where "a = d div 146097" and "d1 = d mod 146097"
  define b d2 where "b = min 3 (d1 div 36524)" and "d2 = d1 - 36524 * b"
  define c d3 where "c = d2 div 1461" and "d3 = d2 mod 1461"
  define e where "e = min 3 (d3 div 365)"
  have y: "y = 400 * a + 100 * b + 4 * c + e + 1" and yd: "yd = d3 - 365 * e"
    using assms
    unfolding year_yday_def Let_def a_def d1_def b_def d2_def c_def d3_def e_def by (simp_all only: prod.inject)
  have d1: "d = 146097 * a + d1" "0 \<le> d1" "d1 < 146097" by (simp_all add: a_def d1_def)
  have b: "0 \<le> b" "b \<le> 3" "0 \<le> d2" "d2 \<le> 36524" "b < 3 \<Longrightarrow> d2 < 36524"
    using d1 unfolding b_def d2_def by linarith+
  have c: "d2 = 1461 * c + d3" "0 \<le> d3" "d3 < 1461" by (simp_all add: c_def d3_def)
  have c24: "0 \<le> c" "c \<le> 24" using b c by linarith+
  have e: "0 \<le> e" "e \<le> 3" "0 \<le> yd" "yd \<le> 365" "e < 3 \<Longrightarrow> yd < 365"
    using c unfolding e_def yd by linarith+
  have div4: "(y - 1) div 4 = 100 * a + 25 * b + c"
    by (rule int_div_pos_eq [where r = e]) (use e in \<open>simp_all add: y\<close>)
  have div100: "(y - 1) div 100 = 4 * a + b"
    by (rule int_div_pos_eq [where r = "4 * c + e"]) (use e c24 in \<open>simp_all add: y\<close>)
  have div400: "(y - 1) div 400 = a"
    by (rule int_div_pos_eq [where r = "100 * b + 4 * c + e"]) (use e c24 b in \<open>simp_all add: y\<close>)
  have sum: "days_before_year y + yd = d"
    unfolding days_before_year_def div4 div100 div400 using d1 c by (simp add: y yd d2_def)
  have "is_leap y" if "yd = 365"
  proof -
    have e3: "e = 3" using that e by fastforce
    have cent: "b = 3" if "c = 24"
    proof (rule ccontr)
      assume "b \<noteq> 3"
      with b have "d2 < 36524" by linarith
      with c that e3 yd \<open>yd = 365\<close> show False by linarith
    qed
    have y3: "y = 4 * (100 * a + 25 * b + c + 1)" using e3 by (simp add: y)
    then have "y mod 4 = 0" by simp
    moreover have "y mod 400 = 0" if "c = 24"
      using cent [OF that] that by (simp add: y3)
    moreover have "y mod 100 \<noteq> 0" if "c \<noteq> 24"
    proof -
      have "y = 100 * (4 * a + b) + (4 * c + 4)" by (simp add: y3)
      moreover have "0 < 4 * c + 4" "4 * c + 4 < 100" using c24 that by linarith+
      ultimately show ?thesis by (simp only: mod_mult_self4 mod_pos_pos_trivial)
    qed
    ultimately show ?thesis unfolding is_leap_def by (cases "c = 24") simp_all
  qed
  with sum e show ?thesis by fastforce
qed

lemma month_day_inverse:
  "month_day ls m d = (m', dd) \<Longrightarrow> m \<le> m' \<and> d = sum_list (take (m' - m) ls) + dd - 1"
proof (induction ls m d rule: month_day.induct)
  case (1 m d)
  then show ?case by simp
next
  case (2 l ls m d)
  show ?case
  proof (cases "d < l")
    case True
    with "2.prems" show ?thesis by auto
  next
    case False
    with 2 have IH: "Suc m \<le> m'" "d - l = sum_list (take (m' - Suc m) ls) + dd - 1" by auto
    then have "m' - m = Suc (m' - Suc m)" by simp
    with IH show ?thesis by simp
  qed
qed

lemma month_day_bounds:
  "month_day ls m d = (m', dd) \<Longrightarrow> 0 \<le> d \<Longrightarrow> d < sum_list ls \<Longrightarrow> \<forall>l \<in> set ls. l \<le> 31 \<Longrightarrow>
   1 \<le> dd \<and> dd \<le> 31 \<and> m' < m + length ls"
  by (induction ls m d rule: month_day.induct) (fastforce split: if_splits)+

lemma digits_val_zeros [simp]: "digits_val 0 (replicate k CHR ''0'') = 0"
  by (induction k) (simp_all add: digit_val_def)

lemma pad_int_inj: "pad_int w m = pad_int w n \<Longrightarrow> m = n"
proof -
  define pad where "pad x = replicate (w - length (digits_of x)) CHR ''0'' @ digits_of x" for x
  have val: "digits_val 0 (pad x) = x" for x by (simp add: pad_def digits_val_digits_of)
  have hd: "pad x \<noteq> CHR ''-'' # s" for x s
    using digits_of_head [of x] by (cases "w - length (digits_of x)") (auto simp: pad_def)
  have int: "pad_int w x = (if x < 0 then ''-'' else '''') @ pad (nat \<bar>x\<bar>)" for x
    by (simp add: pad_int_def pad_def Let_def)
  have inj: "pad x = pad y \<Longrightarrow> x = y" for x y using val by metis
  assume "pad_int w m = pad_int w n"
  then show "m = n"
    unfolding int using hd hd [symmetric] by (auto dest!: inj split: if_splits)
qed

lemma length_pad_int_2: "0 \<le> n \<Longrightarrow> n < 100 \<Longrightarrow> length (pad_int 2 n) = 2"
proof -
  have "length (digits_of k) \<le> 2" if "k < 100" for k
  proof -
    have "k div 10 < 10" using that by linarith
    then show ?thesis using digits_of.simps [of k] digits_of.simps [of "k div 10"] by simp
  qed
  then show "0 \<le> n \<Longrightarrow> n < 100 \<Longrightarrow> length (pad_int 2 n) = 2"
    by (simp add: pad_int_def Let_def nat_less_iff)
qed

lemma stamp_inj:
  assumes "Y @ ''-'' @ M @ ''-'' @ D @ ''T'' @ h @ '':'' @ m @ '':'' @ s @ ''Z'' =
      Y' @ ''-'' @ M' @ ''-'' @ D' @ ''T'' @ h' @ '':'' @ m' @ '':'' @ s' @ ''Z''"
    and "length M = 2" "length D = 2" "length h = 2" "length m = 2" "length s = 2"
    and "length M' = 2" "length D' = 2" "length h' = 2" "length m' = 2" "length s' = 2"
  shows "Y = Y'" "M = M'" "D = D'" "h = h'" "m = m'" "s = s'"
  using assms by simp_all

lemma Format_RFC3339_split:
  obtains y yd mo d where
    "year_yday (t div 10 ^ 9 div 86400 + 719162) = (y, yd)"
    "month_day (month_lengths (is_leap y)) 1 yd = (mo, d)"
    "Format_RFC3339 t = pad_int 4 y @ ''-'' @ pad_int 2 (int mo) @ ''-'' @ pad_int 2 d @ ''T'' @
       pad_int 2 (t div 10 ^ 9 mod 86400 div 3600) @ '':'' @
       pad_int 2 (t div 10 ^ 9 mod 86400 div 60 mod 60) @ '':'' @
       pad_int 2 (t div 10 ^ 9 mod 86400 mod 60) @ ''Z''"
    "1 \<le> d" "d \<le> 31" "mo \<le> 12"
proof -
  obtain y yd where y: "year_yday (t div 10 ^ 9 div 86400 + 719162) = (y, yd)" by force
  obtain mo d where md: "month_day (month_lengths (is_leap y)) 1 yd = (mo, d)" by force
  have "1 \<le> d \<and> d \<le> 31 \<and> mo < 1 + length (month_lengths (is_leap y))"
    using year_yday_bounds [OF y]
    by (intro month_day_bounds [OF md]) (auto simp: month_lengths_def split: if_splits)
  then have "1 \<le> d" "d \<le> 31" "mo \<le> 12" by (simp_all add: month_lengths_def)
  with y md show thesis
    by (intro that [of y yd mo d]) (simp_all add: Format_RFC3339_def Let_def)
qed

lemma sod_inj:
  fixes s s' :: int
  assumes "s mod 86400 div 3600 = s' mod 86400 div 3600"
    "s mod 86400 div 60 mod 60 = s' mod 86400 div 60 mod 60"
    "s mod 86400 mod 60 = s' mod 86400 mod 60" "s div 86400 = s' div 86400"
  shows "s = s'"
proof -
  have split: "x = x div 3600 * 3600 + x div 60 mod 60 * 60 + x mod 60" for x :: int
  proof -
    have "x div 3600 = x div 60 div 60" by (simp add: zdiv_zmult2_eq [symmetric])
    with div_mult_mod_eq [of x 60] div_mult_mod_eq [of "x div 60" 60] show ?thesis by linarith
  qed
  have "s mod 86400 = s' mod 86400"
    using split [of "s mod 86400"] split [of "s' mod 86400"] assms(1-3) by simp
  with assms(4) show ?thesis by (metis div_mult_mod_eq)
qed

lemma Format_RFC3339_inj:
  assumes "Format_RFC3339 t = Format_RFC3339 t'"
  shows "t div 10 ^ 9 = t' div 10 ^ 9"
proof -
  obtain y yd mo d where T: "year_yday (t div 10 ^ 9 div 86400 + 719162) = (y, yd)"
    "month_day (month_lengths (is_leap y)) 1 yd = (mo, d)"
    "Format_RFC3339 t = pad_int 4 y @ ''-'' @ pad_int 2 (int mo) @ ''-'' @ pad_int 2 d @ ''T'' @
       pad_int 2 (t div 10 ^ 9 mod 86400 div 3600) @ '':'' @
       pad_int 2 (t div 10 ^ 9 mod 86400 div 60 mod 60) @ '':'' @
       pad_int 2 (t div 10 ^ 9 mod 86400 mod 60) @ ''Z''" "1 \<le> d" "d \<le> 31" "mo \<le> 12"
    by (rule Format_RFC3339_split)
  obtain y' yd' mo' d' where T': "year_yday (t' div 10 ^ 9 div 86400 + 719162) = (y', yd')"
    "month_day (month_lengths (is_leap y')) 1 yd' = (mo', d')"
    "Format_RFC3339 t' = pad_int 4 y' @ ''-'' @ pad_int 2 (int mo') @ ''-'' @ pad_int 2 d' @ ''T'' @
       pad_int 2 (t' div 10 ^ 9 mod 86400 div 3600) @ '':'' @
       pad_int 2 (t' div 10 ^ 9 mod 86400 div 60 mod 60) @ '':'' @
       pad_int 2 (t' div 10 ^ 9 mod 86400 mod 60) @ ''Z''" "1 \<le> d'" "d' \<le> 31" "mo' \<le> 12"
    by (rule Format_RFC3339_split)
  have len: "length (pad_int 2 (int mo)) = 2" "length (pad_int 2 (int mo')) = 2"
    "length (pad_int 2 d) = 2" "length (pad_int 2 d') = 2"
    "length (pad_int 2 (x mod 86400 div 3600)) = 2" "length (pad_int 2 (x mod 60)) = 2" for x
    using T(4-6) T'(4-6) by (auto intro!: length_pad_int_2)
  note eq = stamp_inj [OF assms [unfolded T(3) T'(3)] len(1,3,5,6,6) len(2,4,5,6,6)]
  note date = eq(1-3) [THEN pad_int_inj] and time = eq(4-6) [THEN pad_int_inj]
  have "mo = mo'" using date(2) by simp
  then have "yd = yd'"
    using month_day_inverse [OF T(2)] month_day_inverse [OF T'(2)] date by simp
  then have "t div 10 ^ 9 div 86400 + 719162 = t' div 10 ^ 9 div 86400 + 719162"
    using year_yday_bounds [OF T(1), THEN conjunct1] year_yday_bounds [OF T'(1), THEN conjunct1]
      date(1) by metis
  then have "t div 10 ^ 9 div 86400 = t' div 10 ^ 9 div 86400" by (rule add_right_imp_eq)
  with time show ?thesis by (rule sod_inj)
qed

subsection \<open>What a stamp says\<close>

text \<open>
  The second since 1970 of a date and a time of day, by counting the days of the years and months
  before it, and the RFC 3339 text of a second in UTC.
\<close>

definition civil_seconds :: "int \<Rightarrow> nat \<Rightarrow> int \<Rightarrow> int \<Rightarrow> int \<Rightarrow> int \<Rightarrow> int" where
  "civil_seconds y mo d h mi s =
     (days_before_year y + sum_list (take (mo - 1) (month_lengths (is_leap y))) + d - 1 - 719162) * 86400 +
     h * 3600 + mi * 60 + s"

definition rfc3339 :: "string \<Rightarrow> int \<Rightarrow> bool" where
  "rfc3339 x n \<longleftrightarrow> (\<exists>y mo d h mi s.
     x = pad_int 4 y @ ''-'' @ pad_int 2 (int mo) @ ''-'' @ pad_int 2 d @ ''T'' @
       pad_int 2 h @ '':'' @ pad_int 2 mi @ '':'' @ pad_int 2 s @ ''Z'' \<and>
     1 \<le> mo \<and> mo \<le> 12 \<and> 1 \<le> d \<and> d \<le> month_lengths (is_leap y) ! (mo - 1) \<and>
     0 \<le> h \<and> h < 24 \<and> 0 \<le> mi \<and> mi < 60 \<and> 0 \<le> s \<and> s < 60 \<and> n = civil_seconds y mo d h mi s)"

lemma month_day_length:
  "month_day ls m d = (m', dd) \<Longrightarrow> 0 \<le> d \<Longrightarrow> d < sum_list ls \<Longrightarrow> dd \<le> ls ! (m' - m)"
proof (induction ls m d rule: month_day.induct)
  case (2 l ls m d)
  show ?case
  proof (cases "d < l")
    case False
    with 2 have IH: "dd \<le> ls ! (m' - Suc m)" by simp
    have "Suc m \<le> m'" using "2.prems" False month_day_inverse by (metis month_day.simps(2))
    then have "m' - m = Suc (m' - Suc m)" by simp
    with IH show ?thesis by simp
  qed (use 2 in auto)
qed simp

lemma second_of_day:
  fixes n :: int
  shows "n = n div 86400 * 86400 + n mod 86400 div 3600 * 3600 + n mod 86400 div 60 mod 60 * 60 + n mod 86400 mod 60"
proof -
  have split: "x = x div 3600 * 3600 + x div 60 mod 60 * 60 + x mod 60" for x :: int
  proof -
    have "x div 3600 = x div 60 div 60" by (simp add: zdiv_zmult2_eq [symmetric])
    with div_mult_mod_eq [of x 60] div_mult_mod_eq [of "x div 60" 60] show ?thesis by linarith
  qed
  from split [of "n mod 86400"] div_mult_mod_eq [of n 86400] show ?thesis by linarith
qed

lemma rfc3339_Format: "rfc3339 (Format_RFC3339 t) (t div 10 ^ 9)"
proof -
  define n where "n = t div 10 ^ 9"
  define h mi s where "h = n mod 86400 div 3600" and "mi = n mod 86400 div 60 mod 60" and "s = n mod 86400 mod 60"
  obtain y yd mo d where T: "year_yday (n div 86400 + 719162) = (y, yd)"
    "month_day (month_lengths (is_leap y)) 1 yd = (mo, d)"
    "Format_RFC3339 t = pad_int 4 y @ ''-'' @ pad_int 2 (int mo) @ ''-'' @ pad_int 2 d @ ''T'' @
       pad_int 2 h @ '':'' @ pad_int 2 mi @ '':'' @ pad_int 2 s @ ''Z''" "1 \<le> d" "d \<le> 31" "mo \<le> 12"
    unfolding n_def h_def mi_def s_def by (rule Format_RFC3339_split)
  note day = year_yday_bounds [OF T(1)] and month = month_day_inverse [OF T(2)]
  have "sum_list (month_lengths (is_leap y)) = (if is_leap y then 366 else 365)"
    by (simp add: month_lengths_def)
  with day have length: "d \<le> month_lengths (is_leap y) ! (mo - 1)"
    by (intro month_day_length [OF T(2)]) simp_all
  have "days_before_year y + sum_list (take (mo - 1) (month_lengths (is_leap y))) + d - 1 - 719162 = n div 86400"
    using day month by linarith
  then have n: "n = civil_seconds y mo d h mi s"
    unfolding civil_seconds_def h_def mi_def s_def by (simp only:) (rule second_of_day)
  have range: "0 \<le> h" "h < 24" "0 \<le> mi" "mi < 60" "0 \<le> s" "s < 60"
    unfolding h_def mi_def s_def using pos_mod_bound [of 86400 n] pos_mod_sign [of 86400 n] by simp_all
  have mo: "1 \<le> mo" using month by simp
  show ?thesis unfolding n_def [symmetric] rfc3339_def
    by (rule exI [of _ y], rule exI [of _ mo], rule exI [of _ d], rule exI [of _ h], rule exI [of _ mi],
        rule exI [of _ s], intro conjI) (fact T(3) mo T(6) T(4) length range n)+
qed

end
