(* ===== verification/Model.thy ===== *)
theory Model
  imports GoTime
begin

text \<open>
  The package model: the data of the REST contract (\<open>model/common.go\<close>) and the Kubernetes
  names shared by client and provider (\<open>model/kubernetes.go\<close>), with the JSON documents the
  struct tags produce. A pointer field is an \<open>option\<close>; \<open>nil\<close> and an empty slice differ only
  where the tag is \<open>omitzero\<close>, so \<open>Maintenance\<close> is an option of a list.
\<close>

type_synonym ServiceID = string
type_synonym BackupId = string

subsection \<open>JSON documents\<close>

text \<open>A float64 is carried by its IEEE bits; the library never computes with one.\<close>

type_synonym float64 = "64 word"

datatype json =
    JNull | JBool bool | JInt int | JFloat float64 | JStr string
  | JArr "json list" | JObj "(string \<times> json) list"

text \<open>A struct field with \<open>omitempty\<close> or \<open>omitzero\<close> is present or absent.\<close>

definition field_opt :: "string \<Rightarrow> ('a \<Rightarrow> json) \<Rightarrow> 'a option \<Rightarrow> (string \<times> json) list" where
  "field_opt k f v = (case v of None \<Rightarrow> [] | Some a \<Rightarrow> [(k, f a)])"

definition field_str_omitempty :: "string \<Rightarrow> string \<Rightarrow> (string \<times> json) list" where
  "field_str_omitempty k s = (if s = [] then [] else [(k, JStr s)])"

text \<open>A map is written with its keys sorted.\<close>

definition json_of_map :: "('a \<Rightarrow> json) \<Rightarrow> (string, 'a) go_map \<Rightarrow> json" where
  "json_of_map f m = JObj (map (\<lambda>k. (k, f (the (map_of m k)))) (sort_Strings (go_keys m)))"

fun json_field :: "json \<Rightarrow> string \<Rightarrow> json option" where
  "json_field (JObj fs) k = map_of fs k"
| "json_field _ k = None"

subsection \<open>The service status\<close>

type_synonym HealthStatus = string

definition HealthHealthy :: HealthStatus where "HealthHealthy = ''healthy''"
definition HealthDegraded :: HealthStatus where "HealthDegraded = ''degraded''"
definition HealthUnhealthy :: HealthStatus where "HealthUnhealthy = ''unhealthy''"
definition HealthUnknown :: HealthStatus where "HealthUnknown = ''unknown''"

definition HealthMessageMaxLen :: nat where "HealthMessageMaxLen = 500"

record Health =
  hStatus :: HealthStatus
  hMessage :: string

record Conditions =
  cHealth :: "Health option"

definition MaintenancePending :: string where "MaintenancePending = ''pending''"

record MaintenanceItem =
  miStatus :: string
  miDescription :: string

record ServiceBackups =
  sbEnabled :: "bool option"

record 'p PlanSpec =
  psParameters :: 'p

record ('p, 'c, 'd) ServiceStatus =
  ssPlan :: "'p PlanSpec"
  ssConfig :: 'c
  ssDetails :: 'd
  ssPause :: "bool option"
  ssError :: "string option"
  ssBackups :: "ServiceBackups option"
  ssConditions :: "Conditions option"
  ssUtilization :: "(string, float64) go_map"
  ssMaintenance :: "MaintenanceItem list option"

definition Health_json :: "Health \<Rightarrow> json" where
  "Health_json h =
     JObj ([(''status'', JStr (hStatus h))] @
       field_str_omitempty ''message'' (hMessage h))"

definition Conditions_json :: "Conditions \<Rightarrow> json" where
  "Conditions_json c = JObj (field_opt ''health'' Health_json (cHealth c))"

definition ServiceBackups_json :: "ServiceBackups \<Rightarrow> json" where
  "ServiceBackups_json b = JObj (field_opt ''enabled'' JBool (sbEnabled b))"

definition MaintenanceItem_json :: "MaintenanceItem \<Rightarrow> json" where
  "MaintenanceItem_json m =
     JObj [(''status'', JStr (miStatus m)), (''description'', JStr (miDescription m))]"

text \<open>The encoders of the provider's own types are parameters.\<close>

definition ServiceStatus_json ::
  "('p \<Rightarrow> json) \<Rightarrow> ('c \<Rightarrow> json) \<Rightarrow> ('d \<Rightarrow> json) \<Rightarrow> ('p, 'c, 'd) ServiceStatus \<Rightarrow> json" where
  "ServiceStatus_json encP encC encD s =
     JObj ([(''plan'', JObj [(''parameters'', encP (psParameters (ssPlan s)))]),
            (''config'', encC (ssConfig s)), (''details'', encD (ssDetails s))] @
           field_opt ''pause'' JBool (ssPause s) @
           field_opt ''error'' JStr (ssError s) @
           field_opt ''backups'' ServiceBackups_json (ssBackups s) @
           field_opt ''conditions'' Conditions_json (ssConditions s) @
           (if ssUtilization s = [] then []
            else [(''utilization'', json_of_map JFloat (ssUtilization s))]) @
           field_opt ''maintenance'' (\<lambda>l. JArr (map MaintenanceItem_json l)) (ssMaintenance s))"

subsection \<open>Backups and recovery\<close>

record BackupStoreConfig =
  bscType :: string
  bscEndpointURL :: string
  bscBucket :: string
  bscPrefix :: string
  bscAccessKeyID :: string

record BackupStoreSecrets =
  bssSecretKey :: string

record RecoverFrom =
  rfID :: BackupId
  rfMsID :: ServiceID
  rfTime :: "go_time option"
  rfConfig :: BackupStoreConfig
  rfSecrets :: BackupStoreSecrets

record BackupStatus =
  bsExists :: bool
  bsError :: string

definition BackupStatus_json :: "BackupStatus \<Rightarrow> json" where
  "BackupStatus_json b =
     JObj ([(''exists'', JBool (bsExists b))] @ field_str_omitempty ''error'' (bsError b))"

definition BackupStoreConfig_Path :: "BackupStoreConfig \<Rightarrow> string" where
  "BackupStoreConfig_Path s =
     (if bscPrefix s = '''' then bscBucket s else bscBucket s @ ''/'' @ bscPrefix s)"

subsection \<open>Kubernetes resources and labels\<close>

record APIResource =
  arGroup :: string
  arVersion :: string
  arPlural :: string

record ResourceRef =
  rrAPIResource :: APIResource
  rrName :: string
  rrNamespace :: string

record ListOptions =
  loAPIResource :: APIResource
  loNamespace :: string
  loLabelSelector :: string
  loFieldSelector :: string

record OwnerReference =
  orAPIVersion :: string
  orKind :: string
  orName :: string
  orUID :: string

text \<open>
  The \<open>interface{}\<close> value of a patch: absent (nil), a JSON-like value, owner references, or a
  value \<open>json.Marshal\<close> rejects (a function or channel; the text is the type it names).
\<close>

datatype patch_value = PVJson json | PVOwners "OwnerReference list" | PVUnsupported string

record K8sPatch =
  kpOp :: string
  kpPath :: string
  kpValue :: "patch_value option"

definition SecretAPI :: APIResource where
  "SecretAPI = \<lparr>arGroup = '''', arVersion = ''v1'', arPlural = ''secrets''\<rparr>"
definition PodAPI :: APIResource where
  "PodAPI = \<lparr>arGroup = '''', arVersion = ''v1'', arPlural = ''pods''\<rparr>"
definition ServiceAPI :: APIResource where
  "ServiceAPI = \<lparr>arGroup = '''', arVersion = ''v1'', arPlural = ''services''\<rparr>"
definition DeploymentAPI :: APIResource where
  "DeploymentAPI = \<lparr>arGroup = ''apps'', arVersion = ''v1'', arPlural = ''deployments''\<rparr>"
definition StatefulSetAPI :: APIResource where
  "StatefulSetAPI = \<lparr>arGroup = ''apps'', arVersion = ''v1'', arPlural = ''statefulsets''\<rparr>"
definition PersistentVolumeClaimAPI :: APIResource where
  "PersistentVolumeClaimAPI =
     \<lparr>arGroup = '''', arVersion = ''v1'', arPlural = ''persistentvolumeclaims''\<rparr>"
definition JobAPI :: APIResource where
  "JobAPI = \<lparr>arGroup = ''batch'', arVersion = ''v1'', arPlural = ''jobs''\<rparr>"

definition LabelPrefix :: string where
  "LabelPrefix = ''managed-services.codesphere.com''"
definition ServiceIDLabel :: string where "ServiceIDLabel = LabelPrefix @ ''/id''"
definition BackupIDLabel :: string where "BackupIDLabel = LabelPrefix @ ''/backup-id''"
definition ProviderLabel :: string where "ProviderLabel = LabelPrefix @ ''/provider''"
definition TeamIDLabel :: string where "TeamIDLabel = LabelPrefix @ ''/team-id''"

lemma labels_distinct: "distinct [ServiceIDLabel, BackupIDLabel, ProviderLabel, TeamIDLabel]"
  by (simp add: ServiceIDLabel_def BackupIDLabel_def ProviderLabel_def TeamIDLabel_def)

lemma resource_apis_distinct:
  "distinct [SecretAPI, PodAPI, ServiceAPI, DeploymentAPI, StatefulSetAPI,
     PersistentVolumeClaimAPI, JobAPI]"
  by (simp add: SecretAPI_def PodAPI_def ServiceAPI_def DeploymentAPI_def StatefulSetAPI_def
      PersistentVolumeClaimAPI_def JobAPI_def)

lemma JobAPI_neq_SecretAPI [simp]: "JobAPI \<noteq> SecretAPI" "SecretAPI \<noteq> JobAPI"
  using resource_apis_distinct by auto

lemma field_opt_simps [simp]:
  "field_opt k f None = []" "field_opt k f (Some a) = [(k, f a)]"
  by (simp_all add: field_opt_def)

lemma map_of_field_opt [simp]:
  "map_of (field_opt k f v @ fs) k' = (if k' = k \<and> v \<noteq> None then map_option f v else map_of fs k')"
  by (cases v) auto

end
