(* ===== verification/KubeTypes.thy ===== *)
theory KubeTypes
  imports Model
begin

text \<open>
  The Kubernetes objects the library builds and reads: the fields of \<open>batch/v1\<close> and \<open>core/v1\<close>
  types that its code names. \<open>corev1.ResourceRequirements\<close> is only passed through and stays a
  type variable \<open>'r\<close>. Condition types and statuses are strings, as in the API.
\<close>

record EnvVar =
  evName :: string
  evValue :: string
  evSecretKeyRef :: "(string \<times> string) option"

record 'r Container =
  ctName :: string
  ctImage :: string
  ctImagePullPolicy :: string
  ctCommand :: "string list"
  ctArgs :: "string list"
  ctEnv :: "EnvVar list"
  ctResources :: 'r

record 'r PodSpec =
  pspRestartPolicy :: string
  pspImagePullSecrets :: "string list option"
  pspContainers :: "'r Container list"

record 'r BatchJobSpec =
  bjTTLSecondsAfterFinished :: "int32 option"
  bjActiveDeadlineSeconds :: "int64 option"
  bjBackoffLimit :: "int32 option"
  bjTemplateLabels :: "(string, string) go_map"
  bjTemplateSpec :: "'r PodSpec"

record JobCondition =
  jcType :: string
  jcStatus :: string
  jcReason :: string
  jcMessage :: string
  jcLastTransitionTime :: go_time

record JobStatus =
  jsStartTime :: "go_time option"
  jsCompletionTime :: "go_time option"
  jsActive :: int32
  jsConditions :: "JobCondition list"

record 'r Job =
  jobAPIVersion :: string
  jobKind :: string
  jobName :: string
  jobNamespace :: string
  jobLabels :: "(string, string) go_map"
  jobSpec :: "'r BatchJobSpec"
  jobStatus :: JobStatus

record Pod =
  podName :: string
  podCreationTimestamp :: go_time

record Secret =
  secName :: string
  secNamespace :: string
  secLabels :: "(string, string) go_map"
  secType :: string
  secStringData :: "(string, string) go_map"
  secData :: "(string, string) go_map"

definition JobComplete :: string where "JobComplete = ''Complete''"
definition JobFailedCondition :: string where "JobFailedCondition = ''Failed''"
definition ConditionTrue :: string where "ConditionTrue = ''True''"

definition empty_status :: JobStatus where
  "empty_status = \<lparr>jsStartTime = None, jsCompletionTime = None, jsActive = 0, jsConditions = []\<rparr>"

lemma condition_types_distinct [simp]: "JobComplete \<noteq> JobFailedCondition" "JobFailedCondition \<noteq> JobComplete"
  by (simp_all add: JobComplete_def JobFailedCondition_def)

end
