(* ===== verification/KubeClient.thy ===== *)
theory KubeClient
  imports GoErrors KubeTypes
begin

text \<open>
  The package client, file \<open>client/kubernetes.go\<close>: the interface \<open>KubernetesClient\<close> as a record
  of operations on a state \<open>'s\<close> (the cluster and everything else a call can touch), and its
  implementation \<open>kubernetesClientImpl\<close>.

  The Kubernetes client libraries are not part of the repository. They are the parameter
  \<open>('s, 'u, 'r, 'e) client_libs\<close>: the calls of the dynamic client and of the typed clientset,
  the error type \<open>'e\<close> with the predicates of \<open>k8s.io/apimachinery/pkg/api/errors\<close>, and \<open>'u\<close> for
  unstructured objects. Contexts are passed through unchanged and are left out.
\<close>

record GroupVersionResource =
  gvrGroup :: string
  gvrVersion :: string
  gvrResource :: string

record ('s, 'u, 'r, 'e) client_libs =
  dynCreate :: "GroupVersionResource \<Rightarrow> string option \<Rightarrow> 'u \<Rightarrow> 's \<Rightarrow> ('e, 'u, 's) result"
  dynGet :: "GroupVersionResource \<Rightarrow> string option \<Rightarrow> string \<Rightarrow> 's \<Rightarrow> ('e, 'u, 's) result"
  dynList :: "GroupVersionResource \<Rightarrow> string option \<Rightarrow> string \<Rightarrow> string \<Rightarrow> 's \<Rightarrow> ('e, 'u list, 's) result"
  dynPatch :: "GroupVersionResource \<Rightarrow> string option \<Rightarrow> string \<Rightarrow> json \<Rightarrow> 's \<Rightarrow> 'e option \<times> 's"
  dynDelete :: "GroupVersionResource \<Rightarrow> string option \<Rightarrow> string \<Rightarrow> 's \<Rightarrow> 'e option \<times> 's"
  csGetJob :: "string \<Rightarrow> string \<Rightarrow> 's \<Rightarrow> ('e, 'r Job, 's) result"
  csListPods :: "string \<Rightarrow> string \<Rightarrow> 's \<Rightarrow> ('e, Pod list, 's) result"
  csGetLogs :: "string \<Rightarrow> string \<Rightarrow> string \<Rightarrow> int64 \<Rightarrow> 's \<Rightarrow> ('e, string, 's) result"
  csCreateSecret :: "string \<Rightarrow> Secret \<Rightarrow> 's \<Rightarrow> ('e, Secret, 's) result"
  csGetSecret :: "string \<Rightarrow> string \<Rightarrow> 's \<Rightarrow> ('e, Secret, 's) result"
  csDeleteSecret :: "string \<Rightarrow> string \<Rightarrow> 's \<Rightarrow> 'e option \<times> 's"
  IsNotFound :: "'e \<Rightarrow> bool"
  IsAlreadyExists :: "'e \<Rightarrow> bool"
  IsConflict :: "'e \<Rightarrow> bool"
  IsInvalid :: "'e \<Rightarrow> bool"
  api_Error :: "'e \<Rightarrow> string"

record ('s, 'u, 'r) KubernetesClient =
  kcCreate :: "APIResource \<Rightarrow> string \<Rightarrow> 'u \<Rightarrow> 's \<Rightarrow> (go_error, 'u, 's) result"
  kcGet :: "ResourceRef \<Rightarrow> 's \<Rightarrow> (go_error, 'u, 's) result"
  kcList :: "ListOptions \<Rightarrow> 's \<Rightarrow> (go_error, 'u list, 's) result"
  kcGetJob :: "string \<Rightarrow> string \<Rightarrow> 's \<Rightarrow> (go_error, 'r Job, 's) result"
  kcListPods :: "string \<Rightarrow> string \<Rightarrow> 's \<Rightarrow> (go_error, Pod list, 's) result"
  kcPatch :: "ResourceRef \<Rightarrow> K8sPatch list \<Rightarrow> 's \<Rightarrow> go_error option \<times> 's"
  kcDelete :: "ResourceRef \<Rightarrow> 's \<Rightarrow> go_error option \<times> 's"
  kcGetPodLogs :: "string \<Rightarrow> string \<Rightarrow> string \<Rightarrow> int64 \<Rightarrow> 's \<Rightarrow> (go_error, string, 's) result"
  kcCreateSecret :: "string \<Rightarrow> Secret \<Rightarrow> 's \<Rightarrow> (go_error, Secret, 's) result"
  kcGetSecret :: "string \<Rightarrow> string \<Rightarrow> 's \<Rightarrow> (go_error, Secret, 's) result"
  kcDeleteSecret :: "string \<Rightarrow> string \<Rightarrow> 's \<Rightarrow> go_error option \<times> 's"

subsection \<open>Errors of the API server\<close>

definition wrapK8sError :: "('s, 'u, 'r, 'e) client_libs \<Rightarrow> 'e \<Rightarrow> go_error" where
  "wrapK8sError L e =
     (let wrap = (\<lambda>t. ErrWrap '''' (ErrSentinel t) ('': '' @ api_Error L e))
      in if IsNotFound L e then wrap ErrResourceNotFound
         else if IsAlreadyExists L e \<or> IsConflict L e then wrap ErrResourceConflict
         else if IsInvalid L e then wrap ErrResourceInvalid
         else wrap ErrKubernetesRequestFailed)"

definition wrap_result ::
  "('s, 'u, 'r, 'e) client_libs \<Rightarrow> ('e, 'a, 's) result \<Rightarrow> (go_error, 'a, 's) result" where
  "wrap_result L r = (case r of (Inl e, s) \<Rightarrow> (Inl (wrapK8sError L e), s) | (Inr a, s) \<Rightarrow> (Inr a, s))"

definition wrap_error ::
  "('s, 'u, 'r, 'e) client_libs \<Rightarrow> 'e option \<times> 's \<Rightarrow> go_error option \<times> 's" where
  "wrap_error L r = (map_option (wrapK8sError L) (fst r), snd r)"

definition toGVR :: "APIResource \<Rightarrow> GroupVersionResource" where
  "toGVR a = \<lparr>gvrGroup = arGroup a, gvrVersion = arVersion a, gvrResource = arPlural a\<rparr>"

text \<open>\<open>Namespace(ns)\<close> is chained only for a non-empty namespace.\<close>

definition ns_scope :: "string \<Rightarrow> string option" where
  "ns_scope ns = (if ns \<noteq> '''' then Some ns else None)"

subsection \<open>JSON patches\<close>

definition OwnerReference_json :: "OwnerReference \<Rightarrow> json" where
  "OwnerReference_json r =
     JObj [(''apiVersion'', JStr (orAPIVersion r)), (''kind'', JStr (orKind r)),
           (''name'', JStr (orName r)), (''uid'', JStr (orUID r))]"

fun patch_value_json :: "patch_value \<Rightarrow> json option" where
  "patch_value_json (PVJson j) = Some j"
| "patch_value_json (PVOwners rs) = Some (JArr (map OwnerReference_json rs))"
| "patch_value_json (PVUnsupported t) = None"

fun patch_value_type :: "patch_value \<Rightarrow> string" where
  "patch_value_type (PVUnsupported t) = t"
| "patch_value_type _ = ''''"

definition K8sPatch_json :: "K8sPatch \<Rightarrow> go_error + json" where
  "K8sPatch_json p =
     (case kpValue p of
        None \<Rightarrow> Inr (JObj [(''op'', JStr (kpOp p)), (''path'', JStr (kpPath p))])
      | Some v \<Rightarrow> (case patch_value_json v of
            None \<Rightarrow> Inl (ErrOther (''json: unsupported type: '' @ patch_value_type v))
          | Some j \<Rightarrow> Inr (JObj [(''op'', JStr (kpOp p)), (''path'', JStr (kpPath p)), (''value'', j)])))"

text \<open>
  \<open>json.Marshal\<close> of the patches, as a document that is not yet text. Two things of the encoder are left
  to it: a nil slice (which no caller in the library passes) would be null rather than an empty
  list, and bytes of a string that are not UTF-8 would become replacement characters; keys, paths
  and values of patches are UTF-8.
\<close>

fun marshal_patches :: "K8sPatch list \<Rightarrow> go_error + json list" where
  "marshal_patches [] = Inr []"
| "marshal_patches (p # ps) =
     (case K8sPatch_json p of Inl e \<Rightarrow> Inl e
      | Inr j \<Rightarrow> res_map (\<lambda>js. j # js) (marshal_patches ps))"

subsection \<open>The operations\<close>

definition Impl_Create ::
  "('s, 'u, 'r, 'e) client_libs \<Rightarrow> APIResource \<Rightarrow> string \<Rightarrow> 'u \<Rightarrow> 's \<Rightarrow> (go_error, 'u, 's) result" where
  "Impl_Create L api ns obj s = wrap_result L (dynCreate L (toGVR api) (ns_scope ns) obj s)"

definition Impl_Get ::
  "('s, 'u, 'r, 'e) client_libs \<Rightarrow> ResourceRef \<Rightarrow> 's \<Rightarrow> (go_error, 'u, 's) result" where
  "Impl_Get L ref s =
     wrap_result L (dynGet L (toGVR (rrAPIResource ref)) (ns_scope (rrNamespace ref)) (rrName ref) s)"

definition Impl_List ::
  "('s, 'u, 'r, 'e) client_libs \<Rightarrow> ListOptions \<Rightarrow> 's \<Rightarrow> (go_error, 'u list, 's) result" where
  "Impl_List L opts s =
     wrap_result L (dynList L (toGVR (loAPIResource opts)) (ns_scope (loNamespace opts))
       (loLabelSelector opts) (loFieldSelector opts) s)"

definition Impl_GetJob ::
  "('s, 'u, 'r, 'e) client_libs \<Rightarrow> string \<Rightarrow> string \<Rightarrow> 's \<Rightarrow> (go_error, 'r Job, 's) result" where
  "Impl_GetJob L ns name s = wrap_result L (csGetJob L ns name s)"

definition Impl_ListPods ::
  "('s, 'u, 'r, 'e) client_libs \<Rightarrow> string \<Rightarrow> string \<Rightarrow> 's \<Rightarrow> (go_error, Pod list, 's) result" where
  "Impl_ListPods L ns sel s = wrap_result L (csListPods L ns sel s)"

definition Impl_Patch ::
  "('s, 'u, 'r, 'e) client_libs \<Rightarrow> ResourceRef \<Rightarrow> K8sPatch list \<Rightarrow> 's \<Rightarrow> go_error option \<times> 's" where
  "Impl_Patch L ref patches s =
     (case marshal_patches patches of
        Inl e \<Rightarrow> (Some (ErrWrap ''failed to marshal patches: '' e ''''), s)
      | Inr js \<Rightarrow> wrap_error L (dynPatch L (toGVR (rrAPIResource ref)) (ns_scope (rrNamespace ref))
                    (rrName ref) (JArr js) s))"

definition Impl_Delete ::
  "('s, 'u, 'r, 'e) client_libs \<Rightarrow> ResourceRef \<Rightarrow> 's \<Rightarrow> go_error option \<times> 's" where
  "Impl_Delete L ref s =
     wrap_error L (dynDelete L (toGVR (rrAPIResource ref)) (ns_scope (rrNamespace ref)) (rrName ref) s)"

definition Impl_GetPodLogs ::
  "('s, 'u, 'r, 'e) client_libs \<Rightarrow> string \<Rightarrow> string \<Rightarrow> string \<Rightarrow> int64 \<Rightarrow> 's \<Rightarrow> (go_error, string, 's) result" where
  "Impl_GetPodLogs L ns pod container tail s = wrap_result L (csGetLogs L ns pod container tail s)"

definition Impl_CreateSecret ::
  "('s, 'u, 'r, 'e) client_libs \<Rightarrow> string \<Rightarrow> Secret \<Rightarrow> 's \<Rightarrow> (go_error, Secret, 's) result" where
  "Impl_CreateSecret L ns sec s = wrap_result L (csCreateSecret L ns sec s)"

definition Impl_GetSecret ::
  "('s, 'u, 'r, 'e) client_libs \<Rightarrow> string \<Rightarrow> string \<Rightarrow> 's \<Rightarrow> (go_error, Secret, 's) result" where
  "Impl_GetSecret L ns name s = wrap_result L (csGetSecret L ns name s)"

definition Impl_DeleteSecret ::
  "('s, 'u, 'r, 'e) client_libs \<Rightarrow> string \<Rightarrow> string \<Rightarrow> 's \<Rightarrow> go_error option \<times> 's" where
  "Impl_DeleteSecret L ns name s = wrap_error L (csDeleteSecret L ns name s)"

definition kubernetesClientImpl :: "('s, 'u, 'r, 'e) client_libs \<Rightarrow> ('s, 'u, 'r) KubernetesClient" where
  "kubernetesClientImpl L =
     \<lparr>kcCreate = Impl_Create L, kcGet = Impl_Get L, kcList = Impl_List L, kcGetJob = Impl_GetJob L,
      kcListPods = Impl_ListPods L, kcPatch = Impl_Patch L, kcDelete = Impl_Delete L,
      kcGetPodLogs = Impl_GetPodLogs L, kcCreateSecret = Impl_CreateSecret L,
      kcGetSecret = Impl_GetSecret L, kcDeleteSecret = Impl_DeleteSecret L\<rparr>"

lemmas impl_op_defs [op_defs] =
  Impl_Create_def Impl_Get_def Impl_List_def Impl_GetJob_def Impl_ListPods_def Impl_Patch_def
  Impl_Delete_def Impl_GetPodLogs_def Impl_CreateSecret_def Impl_GetSecret_def Impl_DeleteSecret_def

subsection \<open>Constructing a client\<close>

text \<open>
  The loaders and constructors of client-go are parameters; \<open>DefaultClientConfig\<close> is the
  result of the default loading rules (the variable KUBECONFIG, then the file in the home
  directory) and \<open>otel_Wrap\<close> the instrumentation of the transport.
\<close>

record ('e, 'c, 'k, 'd) config_libs =
  BuildConfigFromFlags :: "string \<Rightarrow> string \<Rightarrow> 'e + 'c"
  DefaultClientConfig :: "'e + 'c"
  InClusterConfig :: "'e + 'c"
  otel_Wrap :: "'c \<Rightarrow> 'c"
  clientset_NewForConfig :: "'c \<Rightarrow> 'e + 'k"
  dynamic_NewForConfig :: "'c \<Rightarrow> 'e + 'd"
  config_Error :: "'e \<Rightarrow> string"

definition NewRESTConfig :: "('e, 'c, 'k, 'd) config_libs \<Rightarrow> string \<Rightarrow> go_error + 'c" where
  "NewRESTConfig L kubeconfig =
     (let r = (if kubeconfig \<noteq> '''' then BuildConfigFromFlags L '''' kubeconfig
               else (case DefaultClientConfig L of Inl _ \<Rightarrow> InClusterConfig L | Inr c \<Rightarrow> Inr c))
      in case r of
           Inl e \<Rightarrow> Inl (ErrWrap ''failed to create kubernetes config: '' (ErrOther (config_Error L e)) '''')
         | Inr c \<Rightarrow> Inr (otel_Wrap L c))"

definition NewKubernetesClientFromConfig ::
  "('e, 'c, 'k, 'd) config_libs \<Rightarrow> 'c \<Rightarrow> go_error + 'k \<times> 'd" where
  "NewKubernetesClientFromConfig L c =
     (case clientset_NewForConfig L c of
        Inl e \<Rightarrow> Inl (ErrWrap ''failed to create kubernetes clientset: '' (ErrOther (config_Error L e)) '''')
      | Inr k \<Rightarrow> (case dynamic_NewForConfig L c of
            Inl e \<Rightarrow> Inl (ErrWrap ''failed to create dynamic client: '' (ErrOther (config_Error L e)) '''')
          | Inr d \<Rightarrow> Inr (k, d)))"

definition NewKubernetesClient ::
  "('e, 'c, 'k, 'd) config_libs \<Rightarrow> string \<Rightarrow> go_error + 'k \<times> 'd" where
  "NewKubernetesClient L kubeconfig =
     (case NewRESTConfig L kubeconfig of
        Inl e \<Rightarrow> Inl e
      | Inr c \<Rightarrow> NewKubernetesClientFromConfig L c)"

subsection \<open>What the interface promises\<close>

text \<open>
  The law the rest of the library relies on: an error of a call carries exactly one of the
  four client sentinels, so that callers can branch with \<open>errors.Is\<close>; only \<open>Patch\<close> may also
  fail before the request, with an error that carries none.
\<close>

locale kube_client =
  fixes K :: "('s, 'u, 'r) KubernetesClient"
  assumes Create_error: "kcCreate K api ns obj s = (Inl e, s') \<Longrightarrow> \<exists>t. classified_as e t"
    and Get_error: "kcGet K ref s = (Inl e, s') \<Longrightarrow> \<exists>t. classified_as e t"
    and List_error: "kcList K opts s = (Inl e, s') \<Longrightarrow> \<exists>t. classified_as e t"
    and GetJob_error: "kcGetJob K ns name s = (Inl e, s') \<Longrightarrow> \<exists>t. classified_as e t"
    and ListPods_error: "kcListPods K ns sel s = (Inl e, s') \<Longrightarrow> \<exists>t. classified_as e t"
    and Patch_error: "kcPatch K ref ps s = (Some e, s') \<Longrightarrow> infra_error e"
    and Delete_error: "kcDelete K ref s = (Some e, s') \<Longrightarrow> \<exists>t. classified_as e t"
    and GetPodLogs_error: "kcGetPodLogs K ns pod c tail s = (Inl e, s') \<Longrightarrow> \<exists>t. classified_as e t"
    and CreateSecret_error: "kcCreateSecret K ns sec s = (Inl e, s') \<Longrightarrow> \<exists>t. classified_as e t"
    and GetSecret_error: "kcGetSecret K ns name s = (Inl e, s') \<Longrightarrow> \<exists>t. classified_as e t"
    and DeleteSecret_error: "kcDeleteSecret K ns name s = (Some e, s') \<Longrightarrow> \<exists>t. classified_as e t"
begin

lemmas client_errors =
  Create_error Get_error List_error GetJob_error ListPods_error Delete_error GetPodLogs_error
  CreateSecret_error GetSecret_error DeleteSecret_error

lemmas client_infra = client_errors [THEN classified_ex_infra] Patch_error

end

definition wrapped_sentinel :: "('s, 'u, 'r, 'e) client_libs \<Rightarrow> 'e \<Rightarrow> sentinel" where
  "wrapped_sentinel L e =
     (if IsNotFound L e then ErrResourceNotFound
      else if IsAlreadyExists L e \<or> IsConflict L e then ErrResourceConflict
      else if IsInvalid L e then ErrResourceInvalid else ErrKubernetesRequestFailed)"

lemma wrapK8sError_eq:
  "wrapK8sError L e = ErrWrap '''' (ErrSentinel (wrapped_sentinel L e)) ('': '' @ api_Error L e)"
  by (simp add: wrapK8sError_def wrapped_sentinel_def Let_def)

lemma classified_wrapK8sError: "classified_as (wrapK8sError L e) (wrapped_sentinel L e)"
  by (auto simp: wrapK8sError_eq classified_as_def client_sentinels_def wrapped_sentinel_def)

lemma errors_Is_wrapK8sError [simp]: "errors_Is (wrapK8sError L e) t \<longleftrightarrow> wrapped_sentinel L e = t"
  by (auto simp: wrapK8sError_eq)

lemma wrap_result_Inl:
  "wrap_result L r = (Inl e, s) \<longleftrightarrow> (\<exists>x. r = (Inl x, s) \<and> e = wrapK8sError L x)"
  by (auto simp: wrap_result_def split: prod.splits sum.splits)

lemma wrap_result_Inr: "wrap_result L r = (Inr a, s) \<longleftrightarrow> r = (Inr a, s)"
  by (auto simp: wrap_result_def split: prod.splits sum.splits)

lemma wrap_error_Some:
  "wrap_error L r = (Some e, s) \<longleftrightarrow> (\<exists>x. r = (Some x, s) \<and> e = wrapK8sError L x)"
  by (cases r) (auto simp: wrap_error_def)

lemma wrap_error_None: "wrap_error L r = (None, s) \<longleftrightarrow> r = (None, s)"
  by (cases r) (auto simp: wrap_error_def)

lemmas wrap_iffs [err_simps] = wrap_result_Inl wrap_result_Inr wrap_error_Some wrap_error_None

lemma marshal_patches_infra: "marshal_patches ps = Inl e \<Longrightarrow> infra_error e"
  by (induction ps)
     (auto simp: K8sPatch_json_def res_map_def split: option.splits sum.splits)

lemmas impl_sel = kubernetesClientImpl_def KubernetesClient.simps

interpretation impl: kube_client "kubernetesClientImpl L" for L
proof (unfold_locales, goal_cases)
  case (6 ref ps s e s')
  then show ?case
    by (auto simp: impl_sel Impl_Patch_def wrap_iffs marshal_patches_infra
        intro: classified_as_infra [OF classified_wrapK8sError] split: sum.splits)
qed (auto simp: impl_sel impl_op_defs wrap_iffs intro: classified_wrapK8sError)

end
