(* ===== verification/JobRunner.thy ===== *)
theory JobRunner
  imports KubeClient
begin

text \<open>
  The package client, file \<open>client/jobrunner.go\<close>: building one-shot Jobs, dispatching them
  (\<open>Run\<close>), reading their state (\<open>State\<close>) and removing them (\<open>Delete\<close>, \<open>Replace\<close>) through a
  \<open>KubernetesClient\<close>. Each method takes the client \<open>K\<close> the receiver holds and passes the
  state of the cluster on. The accessors and the converter of apimachinery are parameters
  (\<open>object_libs\<close>), as is \<open>sort.Slice\<close>, which does not promise a stable order.
\<close>

record ('u, 'r) object_libs =
  ToUnstructured :: "'r Job \<Rightarrow> string + 'u"
  obj_GetName :: "'u \<Rightarrow> string"
  obj_GetNamespace :: "'u \<Rightarrow> string"
  obj_GetUID :: "'u \<Rightarrow> string"
  obj_GetLabels :: "'u \<Rightarrow> (string, string) go_map option"
  obj_GetAnnotations :: "'u \<Rightarrow> (string, string) go_map"

subsection \<open>Constants and types\<close>

definition DefaultJobTimeout :: duration where "DefaultJobTimeout = 6 * 3600000000000"
definition DefaultJobTTL :: duration where "DefaultJobTTL = 1 * 3600000000000"
definition DefaultJobBackoffLimit :: int32 where "DefaultJobBackoffLimit = 3"
definition jobContainerName :: string where "jobContainerName = ''job''"
definition failureLogTailLines :: int64 where "failureLogTailLines = 20"

datatype JobPhase = JobNotFound | JobPending | JobRunning | JobSucceeded | JobFailed

fun JobPhase_text :: "JobPhase \<Rightarrow> string" where
  "JobPhase_text JobNotFound = ''not_found''"
| "JobPhase_text JobPending = ''pending''"
| "JobPhase_text JobRunning = ''running''"
| "JobPhase_text JobSucceeded = ''succeeded''"
| "JobPhase_text JobFailed = ''failed''"

record JobState =
  jstPhase :: JobPhase
  jstStartedAt :: "go_time option"
  jstFinishedAt :: "go_time option"
  jstReason :: string

record 'r JobSpec =
  jspName :: string
  jspImage :: string
  jspCommand :: "string list"
  jspArgs :: "string list"
  jspEnv :: "(string, string) go_map"
  jspSecrets :: "(string, string) go_map"
  jspLabels :: "(string, string) go_map"
  jspImagePullSecrets :: "string list"
  jspTimeout :: duration
  jspTTL :: duration
  jspBackoffLimit :: "int32 option"
  jspResources :: 'r
  jspCustomize :: "('r Job \<Rightarrow> 'r Job) option"

text \<open>A runner is its client; the methods below take the client.\<close>

record ('s, 'u, 'r) JobRunner =
  jrKube :: "('s, 'u, 'r) KubernetesClient"

definition NewJobRunner :: "('s, 'u, 'r) KubernetesClient \<Rightarrow> ('s, 'u, 'r) JobRunner" where
  "NewJobRunner kube = \<lparr>jrKube = kube\<rparr>"

subsection \<open>Building the Job and its Secret\<close>

definition sortedKeys :: "(string, string) go_map \<Rightarrow> string list" where
  "sortedKeys m = sort_Strings (go_keys m)"

definition durationSeconds :: "duration \<Rightarrow> duration \<Rightarrow> int64" where
  "durationSeconds d fallback =
     (let d' = (if sint d \<le> 0 then fallback else d) in word_of_int (int64_Seconds d'))"

definition imagePullSecrets :: "string list \<Rightarrow> string list option" where
  "imagePullSecrets names = (if length names = 0 then None else Some names)"

definition buildEnv :: "'r JobSpec \<Rightarrow> EnvVar list" where
  "buildEnv spec =
     map (\<lambda>k. \<lparr>evName = k, evValue = the (map_of (jspEnv spec) k), evSecretKeyRef = None\<rparr>)
       (sortedKeys (jspEnv spec)) @
     map (\<lambda>k. \<lparr>evName = k, evValue = '''', evSecretKeyRef = Some (jspName spec, k)\<rparr>)
       (sortedKeys (jspSecrets spec))"

definition buildJobObject :: "'r JobSpec \<Rightarrow> string \<Rightarrow> 'r Job" where
  "buildJobObject spec namespace =
     (let ttl = (ucast (durationSeconds (jspTTL spec) DefaultJobTTL) :: int32);
          deadline = durationSeconds (jspTimeout spec) DefaultJobTimeout;
          backoff = (case jspBackoffLimit spec of None \<Rightarrow> DefaultJobBackoffLimit | Some b \<Rightarrow> b);
          job = \<lparr>jobAPIVersion = ''batch/v1'', jobKind = ''Job'', jobName = jspName spec,
            jobNamespace = namespace, jobLabels = jspLabels spec,
            jobSpec = \<lparr>bjTTLSecondsAfterFinished = Some ttl, bjActiveDeadlineSeconds = Some deadline,
              bjBackoffLimit = Some backoff, bjTemplateLabels = jspLabels spec,
              bjTemplateSpec = \<lparr>pspRestartPolicy = ''Never'',
                pspImagePullSecrets = imagePullSecrets (jspImagePullSecrets spec),
                pspContainers = [\<lparr>ctName = jobContainerName, ctImage = jspImage spec,
                  ctImagePullPolicy = ''IfNotPresent'', ctCommand = jspCommand spec,
                  ctArgs = jspArgs spec, ctEnv = buildEnv spec, ctResources = jspResources spec\<rparr>]\<rparr>\<rparr>,
            jobStatus = empty_status\<rparr>
      in case jspCustomize spec of None \<Rightarrow> job | Some f \<Rightarrow> f job)"

definition buildJob ::
  "('u, 'r) object_libs \<Rightarrow> 'r JobSpec \<Rightarrow> string \<Rightarrow> go_error + 'u" where
  "buildJob A spec namespace =
     (case ToUnstructured A (buildJobObject spec namespace) of
        Inl m \<Rightarrow> Inl (ErrWrap ''converting job to unstructured: '' (ErrOther m) '''')
      | Inr u \<Rightarrow> Inr u)"

definition buildJobSecret :: "'r JobSpec \<Rightarrow> string \<Rightarrow> Secret" where
  "buildJobSecret spec namespace =
     \<lparr>secName = jspName spec, secNamespace = namespace, secLabels = jspLabels spec,
      secType = ''Opaque'', secStringData = jspSecrets spec, secData = []\<rparr>"

subsection \<open>Dispatch and removal\<close>

definition adoptSecret ::
  "('s, 'u, 'r) KubernetesClient \<Rightarrow> string \<Rightarrow> string \<Rightarrow> string \<Rightarrow> 's \<Rightarrow> 's" where
  "adoptSecret K namespace name jobUID s =
     (let owner = [\<lparr>orAPIVersion = ''batch/v1'', orKind = ''Job'', orName = name, orUID = jobUID\<rparr>]
      in snd (kcPatch K \<lparr>rrAPIResource = SecretAPI, rrName = name, rrNamespace = namespace\<rparr>
           [\<lparr>kpOp = ''add'', kpPath = ''/metadata/ownerReferences'', kpValue = Some (PVOwners owner)\<rparr>] s))"

definition Run_create ::
  "('s, 'u, 'r) KubernetesClient \<Rightarrow> ('u, 'r) object_libs \<Rightarrow> string \<Rightarrow> 'r JobSpec \<Rightarrow> 's \<Rightarrow>
   go_error option \<times> 's" where
  "Run_create K A namespace spec s =
     (case buildJob A spec namespace of
        Inl e \<Rightarrow> (Some (ErrWrap (''building job '' @ jspName spec @ '': '') e ''''), s)
      | Inr job \<Rightarrow>
          (case kcCreate K JobAPI namespace job s of
             (Inl e, s') \<Rightarrow>
               if errors_Is e ErrResourceConflict then (None, s')
               else (Some (ErrWrap (''creating job '' @ jspName spec @ '': '') e ''''), s')
           | (Inr created, s') \<Rightarrow>
               if jspSecrets spec \<noteq> []
               then (None, adoptSecret K namespace (jspName spec) (obj_GetUID A created) s')
               else (None, s')))"

definition JobRunner_Run ::
  "('s, 'u, 'r) KubernetesClient \<Rightarrow> ('u, 'r) object_libs \<Rightarrow> string \<Rightarrow> 'r JobSpec \<Rightarrow> 's \<Rightarrow>
   go_error option \<times> 's" where
  "JobRunner_Run K A namespace spec s =
     (if jspSecrets spec \<noteq> []
      then (case kcCreateSecret K namespace (buildJobSecret spec namespace) s of
              (Inl e, s') \<Rightarrow>
                if \<not> errors_Is e ErrResourceConflict
                then (Some (ErrWrap (''creating credentials secret for job '' @ jspName spec @ '': '') e ''''), s')
                else Run_create K A namespace spec s'
            | (Inr _, s') \<Rightarrow> Run_create K A namespace spec s')
      else Run_create K A namespace spec s)"

definition JobRunner_Delete ::
  "('s, 'u, 'r) KubernetesClient \<Rightarrow> string \<Rightarrow> string \<Rightarrow> 's \<Rightarrow> go_error option \<times> 's" where
  "JobRunner_Delete K namespace name s =
     (let secret = (\<lambda>s. case kcDeleteSecret K namespace name s of
            (Some e, s') \<Rightarrow>
              if \<not> errors_Is e ErrResourceNotFound
              then (Some (ErrWrap (''deleting credentials secret for job '' @ name @ '': '') e ''''), s')
              else (None, s')
          | (None, s') \<Rightarrow> (None, s'))
      in case kcDelete K \<lparr>rrAPIResource = JobAPI, rrName = name, rrNamespace = namespace\<rparr> s of
           (Some e, s') \<Rightarrow>
             if \<not> errors_Is e ErrResourceNotFound
             then (Some (ErrWrap (''deleting job '' @ name @ '': '') e ''''), s')
             else secret s'
         | (None, s') \<Rightarrow> secret s')"

definition JobRunner_Replace ::
  "('s, 'u, 'r) KubernetesClient \<Rightarrow> ('u, 'r) object_libs \<Rightarrow> string \<Rightarrow> 'r JobSpec \<Rightarrow> 's \<Rightarrow>
   go_error option \<times> 's" where
  "JobRunner_Replace K A namespace spec s =
     (case JobRunner_Delete K namespace (jspName spec) s of
        (Some e, s') \<Rightarrow> (Some e, s')
      | (None, s') \<Rightarrow> JobRunner_Run K A namespace spec s')"

subsection \<open>Reading the state of a Job\<close>

definition timePtr :: "go_time option \<Rightarrow> go_time option" where
  "timePtr t = (case t of None \<Rightarrow> None | Some t' \<Rightarrow> if time_IsZero t' then None else Some t')"

definition jobConditionTrue :: "'r Job \<Rightarrow> string \<Rightarrow> bool" where
  "jobConditionTrue job t =
     (case find (\<lambda>c. jcType c = t) (jsConditions (jobStatus job)) of
        None \<Rightarrow> False | Some c \<Rightarrow> jcStatus c = ConditionTrue)"

fun message_of :: "string \<Rightarrow> JobCondition list \<Rightarrow> string" where
  "message_of t [] = ''unknown reason''"
| "message_of t (c # cs) =
     (if jcType c \<noteq> t then message_of t cs
      else if jcMessage c \<noteq> '''' then jcMessage c
      else if jcReason c \<noteq> '''' then jcReason c
      else message_of t cs)"

definition conditionMessage :: "'r Job \<Rightarrow> string \<Rightarrow> string" where
  "conditionMessage job t = message_of t (jsConditions (jobStatus job))"

definition conditionTime :: "'r Job \<Rightarrow> string \<Rightarrow> go_time option" where
  "conditionTime job t =
     (case find (\<lambda>c. jcType c = t \<and> \<not> time_IsZero (jcLastTransitionTime c))
        (jsConditions (jobStatus job)) of
        None \<Rightarrow> None | Some c \<Rightarrow> timePtr (Some (jcLastTransitionTime c)))"

type_synonym slice_sorter = "(Pod \<Rightarrow> Pod \<Rightarrow> bool) \<Rightarrow> Pod list \<Rightarrow> Pod list"

definition newer :: "Pod \<Rightarrow> Pod \<Rightarrow> bool" where
  "newer p q \<longleftrightarrow> podCreationTimestamp q < podCreationTimestamp p"

fun first_logs ::
  "('s, 'u, 'r) KubernetesClient \<Rightarrow> string \<Rightarrow> Pod list \<Rightarrow> 's \<Rightarrow> string \<times> 's" where
  "first_logs K namespace [] s = ('''', s)"
| "first_logs K namespace (pod # pods) s =
     (case kcGetPodLogs K namespace (podName pod) jobContainerName failureLogTailLines s of
        (Inr logs, s') \<Rightarrow> if logs \<noteq> '''' then (logs, s') else first_logs K namespace pods s'
      | (Inl _, s') \<Rightarrow> first_logs K namespace pods s')"

definition failedPodLogs ::
  "('s, 'u, 'r) KubernetesClient \<Rightarrow> slice_sorter \<Rightarrow> string \<Rightarrow> string \<Rightarrow> 's \<Rightarrow> string \<times> 's" where
  "failedPodLogs K sort_Slice namespace name s =
     (case kcListPods K namespace (''job-name='' @ name) s of
        (Inl _, s') \<Rightarrow> ('''', s')
      | (Inr pods, s') \<Rightarrow> first_logs K namespace (sort_Slice newer pods) s')"

definition failureReason ::
  "('s, 'u, 'r) KubernetesClient \<Rightarrow> slice_sorter \<Rightarrow> 'r Job \<Rightarrow> 's \<Rightarrow> string \<times> 's" where
  "failureReason K sort_Slice job s =
     (let reason = conditionMessage job JobFailedCondition;
          (logs, s') = failedPodLogs K sort_Slice (jobNamespace job) (jobName job) s
      in if logs = '''' then (reason, s')
         else if reason = '''' then (logs, s')
         else (reason @ '': '' @ logs, s'))"

definition JobRunner_State ::
  "('s, 'u, 'r) KubernetesClient \<Rightarrow> slice_sorter \<Rightarrow> string \<Rightarrow> string \<Rightarrow> 's \<Rightarrow>
   (go_error, JobState, 's) result" where
  "JobRunner_State K sort_Slice namespace name s =
     (case kcGetJob K namespace name s of
        (Inl e, s') \<Rightarrow>
          if errors_Is e ErrResourceNotFound
          then (Inr \<lparr>jstPhase = JobNotFound, jstStartedAt = None, jstFinishedAt = None, jstReason = ''''\<rparr>, s')
          else (Inl (ErrWrap (''getting job '' @ name @ '': '') e ''''), s')
      | (Inr job, s') \<Rightarrow>
          (let state = \<lparr>jstPhase = JobPending, jstStartedAt = timePtr (jsStartTime (jobStatus job)),
                 jstFinishedAt = timePtr (jsCompletionTime (jobStatus job)), jstReason = ''''\<rparr>
           in if jobConditionTrue job JobComplete then (Inr (state\<lparr>jstPhase := JobSucceeded\<rparr>), s')
              else if jobConditionTrue job JobFailedCondition
              then (let (reason, s'') = failureReason K sort_Slice job s';
                        state' = state\<lparr>jstPhase := JobFailed, jstReason := reason\<rparr>
                    in (Inr (if jstFinishedAt state' = None
                             then state'\<lparr>jstFinishedAt := conditionTime job JobFailedCondition\<rparr>
                             else state'), s''))
              else if 0 < sint (jsActive (jobStatus job)) then (Inr (state\<lparr>jstPhase := JobRunning\<rparr>), s')
              else (Inr state, s')))"

end
