(* ===== verification/Formats.thy ===== *)
theory Formats
  imports JobRunner
begin

text \<open>
  Text formats of the Kubernetes API and of HTTP that the code writes and never reads, as reference
  definitions: paths of segments, JSON pointers (RFC 6901), label selectors. The properties of
  \<open>EscapeJSONPointer\<close>, of \<open>FindServiceNamespace\<close> and of the route table are stated against them.
\<close>

subsection \<open>Separators\<close>

fun split_on :: "char \<Rightarrow> string \<Rightarrow> string list" where
  "split_on a [] = [[]]"
| "split_on a (c # s) =
     (if c = a then [] # split_on a s
      else (case split_on a s of [] \<Rightarrow> [[c]] | t # ts \<Rightarrow> (c # t) # ts))"

abbreviation split_slash :: "string \<Rightarrow> string list" where
  "split_slash \<equiv> split_on CHR ''/''"

lemma split_on_plain: "a \<notin> set t \<Longrightarrow> split_on a t = [t]"
  by (induction t) (auto split: list.splits)

lemmas split_slash_plain = split_on_plain [of "CHR ''/''"]

lemma split_on_nonempty [simp]: "split_on a p \<noteq> []"
  by (induction p) (auto split: list.splits)

lemma split_on_append: "split_on a (p @ a # q) = split_on a p @ split_on a q"
proof (induction p)
  case (Cons c p)
  then show ?case by (cases "split_on a p") (auto split: list.splits)
qed simp

lemmas split_slash_append = split_on_append [of "CHR ''/''"]

subsection \<open>JSON pointers\<close>

text \<open>
  RFC 6901: a pointer is a sequence of tokens, each after a slash; in a token \<open>~1\<close> stands for a
  slash and \<open>~0\<close> for a tilde.
\<close>

fun unescape_token :: "string \<Rightarrow> string" where
  "unescape_token [] = []"
| "unescape_token [c] = [c]"
| "unescape_token (c # d # s) =
     (if c = CHR ''~'' \<and> d = CHR ''0'' then CHR ''~'' # unescape_token s
      else if c = CHR ''~'' \<and> d = CHR ''1'' then CHR ''/'' # unescape_token s
      else c # unescape_token (d # s))"

definition pointer_tokens :: "string \<Rightarrow> string list" where
  "pointer_tokens p = map unescape_token (tl (split_slash p))"

lemma unescape_plain: "c \<noteq> CHR ''~'' \<Longrightarrow> unescape_token (c # s) = c # unescape_token s"
  by (cases s) simp_all

lemma pointer_tokens_append:
  "CHR ''/'' \<notin> set t \<Longrightarrow> pointer_tokens (p @ CHR ''/'' # t) = pointer_tokens p @ [unescape_token t]"
  by (simp add: pointer_tokens_def split_slash_append split_slash_plain)

subsection \<open>Label selectors\<close>

text \<open>
  A selector of equality requirements is a list \<open>key=value\<close> with commas in between; a set of labels
  matches when it has all of them. \<open>selector_text\<close> writes one. \<open>plain_label\<close> holds for texts made of
  the characters that label values may have.
\<close>

definition selector_text :: "(string \<times> string) list \<Rightarrow> string" where
  "selector_text rs = tl (concat (map (\<lambda>(k, v). '','' @ k @ ''='' @ v) rs))"

definition plain_label :: "string \<Rightarrow> bool" where
  "plain_label v \<longleftrightarrow> (\<forall>c \<in> set v. CHR ''0'' \<le> c \<and> c \<le> CHR ''9'' \<or> CHR ''A'' \<le> c \<and> c \<le> CHR ''Z'' \<or>
     CHR ''a'' \<le> c \<and> c \<le> CHR ''z'' \<or> c \<in> {CHR ''-'', CHR ''_'', CHR ''.''})"

definition has_labels :: "(string \<times> string) list \<Rightarrow> (string \<Rightarrow> string option) \<Rightarrow> bool" where
  "has_labels rs labels \<longleftrightarrow> (\<forall>(k, v) \<in> set rs. labels k = Some v)"

definition reads_selector :: "string \<Rightarrow> (string \<Rightarrow> string option) \<Rightarrow> bool" where
  "reads_selector sel labels \<longleftrightarrow>
     (\<forall>r \<in> set (split_on CHR '','' sel). case split_on CHR ''='' r of [k, v] \<Rightarrow> labels k = Some v | _ \<Rightarrow> False)"

lemma split_requirement:
  "CHR '','' \<notin> set k \<Longrightarrow> CHR '','' \<notin> set v \<Longrightarrow> CHR ''='' \<notin> set k \<Longrightarrow> CHR ''='' \<notin> set v \<Longrightarrow>
   split_on CHR '','' (k @ ''='' @ v) = [k @ ''='' @ v] \<and> split_on CHR ''='' (k @ ''='' @ v) = [k, v]"
  by (simp add: split_on_plain split_on_append)

lemma reads_selector_text:
  assumes "rs \<noteq> []" "\<forall>(k, v) \<in> set rs. {CHR '','', CHR ''=''} \<inter> (set k \<union> set v) = {}"
  shows "reads_selector (selector_text rs) labels \<longleftrightarrow> has_labels rs labels"
  using assms
proof (induction rs rule: list_nonempty_induct)
  case (single r)
  then show ?case
    by (cases r) (auto simp: reads_selector_def selector_text_def has_labels_def
        split_requirement [simplified])
next
  case (cons r rs)
  obtain k v where r: "r = (k, v)" by force
  obtain t where t: "concat (map (\<lambda>(k, v). '','' @ k @ ''='' @ v) rs) = CHR '','' # t"
    using cons(1) by (cases rs) (auto split: prod.splits)
  have "selector_text (r # rs) = (k @ ''='' @ v) @ CHR '','' # selector_text rs"
    using t by (simp add: selector_text_def r)
  then have "split_on CHR '','' (selector_text (r # rs)) = (k @ ''='' @ v) # split_on CHR '','' (selector_text rs)"
    unfolding \<open>selector_text (r # rs) = _\<close> split_on_append
    using cons.prems split_requirement [of k v] by (simp add: r)
  with cons.IH cons.prems split_requirement [of k v] show ?case
    by (auto simp: reads_selector_def has_labels_def r)
qed

end
