(* ===== verification/MemCluster.thy ===== *)
theory MemCluster
  imports Formats
begin

text \<open>
  A concrete, executable API server kept in memory: the instance of the library parameters with
  which the hypotheses of the development are discharged and its witnesses evaluated. Jobs and
  Secrets are stored by namespace and name, a new Job with an empty status; pods and logs are fixed tables; \<open>mTerminating\<close> lists
  Jobs whose deletion is accepted but not finished, and \<open>mClock\<close> is the time in nanoseconds, which no call
  advances. It models nothing of the repository.
\<close>

datatype mem_error = MemNotFound | MemAlreadyExists | MemConflict | MemInvalid | MemInternal

fun mem_error_text :: "mem_error \<Rightarrow> string" where
  "mem_error_text MemNotFound = ''not found''"
| "mem_error_text MemAlreadyExists = ''already exists''"
| "mem_error_text MemConflict = ''conflict''"
| "mem_error_text MemInvalid = ''invalid''"
| "mem_error_text MemInternal = ''internal''"

record mem =
  mJobs :: "(string \<times> string) \<Rightarrow> unit Job option"
  mSecrets :: "(string \<times> string) \<Rightarrow> (Secret \<times> OwnerReference list) option"
  mTerminating :: "(string \<times> string) list"
  mObjects :: "unit Job list"
  mPods :: "Pod list"
  mLogs :: "(string, string) go_map"
  mClock :: int

definition mem_init :: mem where
  "mem_init = \<lparr>mJobs = Map.empty, mSecrets = Map.empty, mTerminating = [], mObjects = [],
     mPods = [], mLogs = [], mClock = 0\<rparr>"

definition mem_create :: "GroupVersionResource \<Rightarrow> string option \<Rightarrow> unit Job \<Rightarrow> mem \<Rightarrow> (mem_error, unit Job, mem) result" where
  "mem_create gvr scope j s =
     (case scope of None \<Rightarrow> (Inl MemInvalid, s)
      | Some ns \<Rightarrow>
          if gvr \<noteq> toGVR JobAPI then (Inl MemInternal, s)
          else if mJobs s (ns, jobName j) \<noteq> None then (Inl MemAlreadyExists, s)
          else (Inr (j\<lparr>jobStatus := empty_status\<rparr>),
            s\<lparr>mJobs := (mJobs s)((ns, jobName j) := Some (j\<lparr>jobStatus := empty_status\<rparr>))\<rparr>))"

definition mem_delete :: "GroupVersionResource \<Rightarrow> string option \<Rightarrow> string \<Rightarrow> mem \<Rightarrow> mem_error option \<times> mem" where
  "mem_delete gvr scope name s =
     (case scope of None \<Rightarrow> (Some MemInvalid, s)
      | Some ns \<Rightarrow>
          if gvr \<noteq> toGVR JobAPI then (Some MemInternal, s)
          else if mJobs s (ns, name) = None then (Some MemNotFound, s)
          else if (ns, name) \<in> set (mTerminating s) then (None, s)
          else (None, s\<lparr>mJobs := (mJobs s)((ns, name) := None)\<rparr>))"

fun json_owner :: "json \<Rightarrow> OwnerReference" where
  "json_owner (JObj [(_, JStr a), (_, JStr k), (_, JStr n), (_, JStr u)]) =
     \<lparr>orAPIVersion = a, orKind = k, orName = n, orUID = u\<rparr>"
| "json_owner _ = \<lparr>orAPIVersion = '''', orKind = '''', orName = '''', orUID = ''''\<rparr>"

definition mem_adopt :: "string \<times> string \<Rightarrow> json \<Rightarrow> mem \<Rightarrow> mem_error option \<times> mem" where
  "mem_adopt k p s =
     (case mSecrets s k of None \<Rightarrow> (Some MemNotFound, s)
      | Some (sec, owners) \<Rightarrow>
          (case p of
             JArr [JObj [(_, JStr op), (_, JStr path), (_, JArr os)]] \<Rightarrow>
               if op = ''add'' \<and> path = ''/metadata/ownerReferences''
               then (None, s\<lparr>mSecrets := (mSecrets s)(k := Some (sec, map json_owner os))\<rparr>)
               else (Some MemInvalid, s)
           | _ \<Rightarrow> (Some MemInvalid, s)))"

text \<open>The labels of a Job here stand for its annotations too.\<close>

definition mem_annotate :: "string \<times> string \<Rightarrow> json \<Rightarrow> mem \<Rightarrow> mem_error option \<times> mem" where
  "mem_annotate k p s =
     (case mJobs s k of None \<Rightarrow> (Some MemNotFound, s)
      | Some j \<Rightarrow>
          (case p of
             JArr [JObj [(o', JStr op), (p', JStr path), (v', JStr v)]] \<Rightarrow>
               (case pointer_tokens path of
                  [m, a, key] \<Rightarrow>
                    if [o', p', v', op, m, a] = [''op'', ''path'', ''value'', ''add'', ''metadata'', ''annotations'']
                    then (None, s\<lparr>mJobs := (mJobs s)(k := Some (j\<lparr>jobLabels := AList.update key v (jobLabels j)\<rparr>))\<rparr>)
                    else (Some MemInvalid, s)
                | _ \<Rightarrow> (Some MemInvalid, s))
           | _ \<Rightarrow> (Some MemInvalid, s)))"

definition mem_patch :: "GroupVersionResource \<Rightarrow> string option \<Rightarrow> string \<Rightarrow> json \<Rightarrow> mem \<Rightarrow> mem_error option \<times> mem" where
  "mem_patch gvr scope name p s =
     (case scope of None \<Rightarrow> (Some MemInvalid, s)
      | Some ns \<Rightarrow>
          if gvr = toGVR SecretAPI then mem_adopt (ns, name) p s
          else if gvr = toGVR JobAPI then mem_annotate (ns, name) p s
          else (Some MemInternal, s))"

definition mem_get_job :: "string \<Rightarrow> string \<Rightarrow> mem \<Rightarrow> (mem_error, unit Job, mem) result" where
  "mem_get_job ns name s =
     (case mJobs s (ns, name) of None \<Rightarrow> (Inl MemNotFound, s) | Some j \<Rightarrow> (Inr j, s))"

definition mem_create_secret :: "string \<Rightarrow> Secret \<Rightarrow> mem \<Rightarrow> (mem_error, Secret, mem) result" where
  "mem_create_secret ns sec s =
     (if mSecrets s (ns, secName sec) \<noteq> None then (Inl MemAlreadyExists, s)
      else (Inr sec, s\<lparr>mSecrets := (mSecrets s)((ns, secName sec) := Some (sec, []))\<rparr>))"

definition mem_delete_secret :: "string \<Rightarrow> string \<Rightarrow> mem \<Rightarrow> mem_error option \<times> mem" where
  "mem_delete_secret ns name s =
     (if mSecrets s (ns, name) = None then (Some MemNotFound, s)
      else (None, s\<lparr>mSecrets := (mSecrets s)((ns, name) := None)\<rparr>))"

definition mem_libs :: "(mem, unit Job, unit, mem_error) client_libs" where
  "mem_libs =
     \<lparr>dynCreate = mem_create,
      dynGet = (\<lambda>gvr scope name s. case scope of None \<Rightarrow> (Inl MemInvalid, s)
        | Some ns \<Rightarrow> if gvr \<noteq> toGVR JobAPI then (Inl MemInternal, s) else mem_get_job ns name s),
      dynList = (\<lambda>gvr scope label field s.
         (Inr (filter (\<lambda>j. reads_selector label (map_of (jobLabels j))) (mObjects s)), s)),
      dynPatch = mem_patch, dynDelete = mem_delete, csGetJob = mem_get_job,
      csListPods = (\<lambda>ns sel s. (Inr (mPods s), s)),
      csGetLogs = (\<lambda>ns pod container tail s. (case map_of (mLogs s) pod of
         None \<Rightarrow> Inl MemNotFound | Some l \<Rightarrow> Inr l, s)),
      csCreateSecret = mem_create_secret,
      csGetSecret = (\<lambda>ns name s. (case mSecrets s (ns, name) of
         None \<Rightarrow> Inl MemNotFound | Some (sec, _) \<Rightarrow> Inr sec, s)),
      csDeleteSecret = mem_delete_secret,
      IsNotFound = (\<lambda>e. e = MemNotFound), IsAlreadyExists = (\<lambda>e. e = MemAlreadyExists),
      IsConflict = (\<lambda>e. e = MemConflict), IsInvalid = (\<lambda>e. e = MemInvalid),
      api_Error = mem_error_text\<rparr>"

definition mem_objects :: "(unit Job, unit) object_libs" where
  "mem_objects = \<lparr>ToUnstructured = Inr, obj_GetName = jobName, obj_GetNamespace = jobNamespace,
     obj_GetUID = (\<lambda>j. ''uid-'' @ jobName j), obj_GetLabels = (\<lambda>j. Some (jobLabels j)),
     obj_GetAnnotations = jobLabels\<rparr>"

abbreviation mem_client :: "(mem, unit Job, unit) KubernetesClient" where
  "mem_client \<equiv> kubernetesClientImpl mem_libs"

lemmas mem_defs = mem_libs_def mem_objects_def mem_create_def mem_delete_def mem_patch_def mem_adopt_def
  mem_get_job_def mem_create_secret_def mem_delete_secret_def
  impl_sel impl_op_defs ns_scope_def wrap_result_def wrap_error_def
  client_libs.simps object_libs.simps

end
