(* ===== verification/JobBuild.thy ===== *)
theory JobBuild
  imports MemCluster
begin

text \<open>
  What \<open>buildJob\<close> produces: the environment does not depend on map iteration order, secret
  values never enter the Job, every secret reference resolves in the Secret that is created
  beside it, so that the container sees the plain variables overridden by the secret ones, and the
  numeric limits are the requested ones (with the rounding of \<open>Duration.Seconds\<close>, and the TTL modulo
  \<open>2 ^ 32\<close>).
\<close>

subsection \<open>Environment\<close>

lemma sortedKeys_props [simp]:
  "sorted (sortedKeys m)" "set (sortedKeys m) = dom (map_of m)"
  "go_map_ok m \<Longrightarrow> distinct (sortedKeys m)"
  by (simp_all add: sortedKeys_def distinct_go_keys)

lemma sortedKeys_cong:
  "go_map_ok m \<Longrightarrow> go_map_ok m' \<Longrightarrow> dom (map_of m) = dom (map_of m') \<Longrightarrow> sortedKeys m = sortedKeys m'"
  unfolding sortedKeys_def by (intro sort_Strings_unique) (simp_all add: distinct_go_keys)

lemma buildEnv_cong:
  assumes "go_map_ok (jspEnv a)" "go_map_ok (jspEnv b)" "map_of (jspEnv a) = map_of (jspEnv b)"
    "go_map_ok (jspSecrets a)" "go_map_ok (jspSecrets b)"
    "dom (map_of (jspSecrets a)) = dom (map_of (jspSecrets b))" "jspName a = jspName b"
  shows "buildEnv a = buildEnv b"
proof -
  have "sortedKeys (jspEnv a) = sortedKeys (jspEnv b)"
    "sortedKeys (jspSecrets a) = sortedKeys (jspSecrets b)"
    using assms by (auto intro!: sortedKeys_cong)
  then show ?thesis using assms(3,7) by (simp add: buildEnv_def)
qed

lemma buildEnv_refs:
  "ev \<in> set (buildEnv spec) \<Longrightarrow> evSecretKeyRef ev = Some (n, k) \<Longrightarrow>
   n = jspName spec \<and> k = evName ev \<and> k \<in> dom (map_of (jspSecrets spec)) \<and> evValue ev = ''''"
  by (auto simp: buildEnv_def)

lemma buildEnv_plain:
  "ev \<in> set (buildEnv spec) \<Longrightarrow> evSecretKeyRef ev = None \<Longrightarrow>
   map_of (jspEnv spec) (evName ev) = Some (evValue ev)"
  by (auto simp: buildEnv_def)

subsection \<open>Limits\<close>

lemma sint_word_of_int: "in_int64 n \<Longrightarrow> sint (word_of_int n :: int64) = n"
  by (simp add: in_int64_def sint_sbintrunc' signed_take_bit_int_eq_self)

lemma sint_int64_bounds: "- (2 ^ 63) \<le> sint (w :: int64)" "sint (w :: int64) < 2 ^ 63"
  using sint_ge [of w] sint_lt [of w] by simp_all

lemma int64_Seconds_pos:
  assumes "0 < sint d"
  shows "sint d div 10 ^ 9 \<le> int64_Seconds d \<and> int64_Seconds d \<le> sint d div 10 ^ 9 + 1"
proof -
  have "int (nat (sint d)) = sint d" using assms by simp
  then have "int (nat (sint d) div 10 ^ 9) = sint d div 10 ^ 9"
    by (simp add: zdiv_int)
  with trunc_seconds_bounds [of "nat (sint d)"] assms show ?thesis
    by (simp add: int64_Seconds_def)
qed

lemma int64_Seconds_whole:
  assumes "sint d = s * 10 ^ 9" "0 \<le> s"
  shows "int64_Seconds d = s"
proof (cases "s = 0")
  case True
  with assms show ?thesis by (simp add: int64_Seconds_def)
next
  case False
  have "nat \<bar>sint d\<bar> = nat s * 10 ^ 9" using assms by (simp add: nat_mult_distrib abs_mult)
  then show ?thesis using assms False
    by (simp add: int64_Seconds_def trunc_seconds_whole del: power_numeral)
qed

lemma sint_durationSeconds:
  assumes "0 < sint d"
  shows "sint (durationSeconds d f) = int64_Seconds d"
proof -
  have "in_int64 (int64_Seconds d)"
    using int64_Seconds_pos [OF assms] sint_int64_bounds [of d] assms
    by (simp add: in_int64_def) linarith
  with assms show ?thesis by (simp add: durationSeconds_def sint_word_of_int)
qed

lemma durationSeconds_fallback: "sint d \<le> 0 \<Longrightarrow> 0 < sint f \<Longrightarrow> durationSeconds d f = durationSeconds f f"
  by (simp add: durationSeconds_def)

lemma durationSeconds_bounds:
  assumes "0 < sint f"
  shows "sint d \<le> 0 \<Longrightarrow> sint (durationSeconds d f) = int64_Seconds f"
    and "0 < sint d \<Longrightarrow> sint d div 10 ^ 9 \<le> sint (durationSeconds d f) \<and>
           sint (durationSeconds d f) \<le> sint d div 10 ^ 9 + 1"
    and "0 < sint d \<Longrightarrow> 10 ^ 9 dvd sint d \<Longrightarrow> sint (durationSeconds d f) = sint d div 10 ^ 9"
proof -
  show "sint d \<le> 0 \<Longrightarrow> sint (durationSeconds d f) = int64_Seconds f"
    using assms by (subst durationSeconds_fallback) (simp_all add: sint_durationSeconds)
  show "0 < sint d \<Longrightarrow> sint d div 10 ^ 9 \<le> sint (durationSeconds d f) \<and>
          sint (durationSeconds d f) \<le> sint d div 10 ^ 9 + 1"
    by (simp only: sint_durationSeconds int64_Seconds_pos)
  assume "0 < sint d" "10 ^ 9 dvd sint d"
  moreover from this obtain s where "sint d = s * 10 ^ 9" by (metis dvd_def mult.commute)
  ultimately show "sint (durationSeconds d f) = sint d div 10 ^ 9"
    by (simp add: sint_durationSeconds int64_Seconds_whole)
qed

lemma default_durations:
  "sint DefaultJobTimeout = 21600 * 10 ^ 9" "sint DefaultJobTTL = 3600 * 10 ^ 9"
  by (simp_all add: DefaultJobTimeout_def DefaultJobTTL_def)

lemma default_seconds:
  "int64_Seconds DefaultJobTimeout = 21600" "int64_Seconds DefaultJobTTL = 3600"
  using int64_Seconds_whole [OF default_durations(1)] int64_Seconds_whole [OF default_durations(2)]
  by linarith+

lemma sint_ucast_32: "sint (ucast (w :: int64) :: int32) = signed_take_bit 31 (sint w)"
  by (simp add: sint_uint unsigned_ucast_eq signed_take_bit_take_bit)

lemma jobSpec_buildJobObject:
  "jspCustomize spec = None \<Longrightarrow>
   bjActiveDeadlineSeconds (jobSpec (buildJobObject spec ns)) =
     Some (durationSeconds (jspTimeout spec) DefaultJobTimeout) \<and>
   bjTTLSecondsAfterFinished (jobSpec (buildJobObject spec ns)) =
     Some (ucast (durationSeconds (jspTTL spec) DefaultJobTTL))"
  by (simp add: buildJobObject_def)

subsection \<open>Properties\<close>

text \<open>
  C19: The Job manifest is a function of the plain variables and of the names of the secret
  variables alone: changing any secret value, or the iteration order of either Go map, gives
  the same unstructured Job (or the same conversion error). So no secret value can appear in it
  and the produced Job is deterministic.
\<close>
theorem buildJob_hides_secrets:
  assumes "go_map_ok (jspEnv spec)" "go_map_ok env" "map_of env = map_of (jspEnv spec)"
    and "go_map_ok (jspSecrets spec)" "go_map_ok secs"
    and "dom (map_of secs) = dom (map_of (jspSecrets spec))"
  shows "buildJob A (spec\<lparr>jspEnv := env, jspSecrets := secs\<rparr>) ns = buildJob A spec ns"
proof -
  have "buildEnv (spec\<lparr>jspEnv := env, jspSecrets := secs\<rparr>) = buildEnv spec"
    using assms by (intro buildEnv_cong) simp_all
  then show ?thesis by (simp add: buildJob_def buildJobObject_def)
qed

definition demo_spec :: "unit JobSpec" where
  "demo_spec = \<lparr>jspName = ''backup-b7'', jspImage = ''img:1'', jspCommand = [''/backup''], jspArgs = [],
     jspEnv = [(''B'', ''2''), (''A'', ''1'')], jspSecrets = [(''KEY'', ''s3cr3t'')], jspLabels = [],
     jspImagePullSecrets = [], jspTimeout = 0, jspTTL = 0, jspBackoffLimit = None, jspResources = (),
     jspCustomize = None\<rparr>"

theorem buildJob_hides_secrets_witness:
  "buildJob mem_objects (demo_spec\<lparr>jspEnv := [(''A'', ''1''), (''B'', ''2'')],
     jspSecrets := [(''KEY'', ''other'')]\<rparr>) ''rg-1'' = buildJob mem_objects demo_spec ''rg-1''"
  by (rule buildJob_hides_secrets) (auto simp: demo_spec_def fun_eq_iff)

text \<open>
  What a container sees of an environment (before the kubelet expands references in the values):
  of two entries of a name the later one counts, and a secret reference has the value of that key
  of the Secret, if the Secret has that name.
\<close>

definition env_entry :: "EnvVar list \<Rightarrow> string \<Rightarrow> EnvVar option" where
  "env_entry evs x = map_of (rev (map (\<lambda>ev. (evName ev, ev)) evs)) x"

definition env_value :: "Secret \<Rightarrow> EnvVar \<Rightarrow> string option" where
  "env_value sec ev = (case evSecretKeyRef ev of
      None \<Rightarrow> Some (evValue ev)
    | Some (n, k) \<Rightarrow> if n = secName sec then map_of (secStringData sec) k else None)"

definition container_env :: "Secret \<Rightarrow> EnvVar list \<Rightarrow> string \<Rightarrow> string option" where
  "container_env sec evs x = Option.bind (env_entry evs x) (env_value sec)"

lemma env_entry_keys:
  assumes "\<And>k. evName (f k) = k"
  shows "map_of (rev (map (\<lambda>ev. (evName ev, ev)) (map f ks))) x = (if x \<in> set ks then Some (f x) else None)"
  by (induction ks) (auto simp: assms map_add_def split: option.splits)

lemma env_entry_buildEnv:
  "env_entry (buildEnv spec) x =
     (if x \<in> dom (map_of (jspSecrets spec))
      then Some \<lparr>evName = x, evValue = '''', evSecretKeyRef = Some (jspName spec, x)\<rparr>
      else if x \<in> dom (map_of (jspEnv spec))
      then Some \<lparr>evName = x, evValue = the (map_of (jspEnv spec) x), evSecretKeyRef = None\<rparr>
      else None)"
  unfolding env_entry_def buildEnv_def map_append rev_append map_of_append map_add_def
  by (subst (1 2) env_entry_keys) auto

abbreviation plain_var :: "'r JobSpec \<Rightarrow> string \<Rightarrow> EnvVar" where
  "plain_var spec k \<equiv> \<lparr>evName = k, evValue = the (map_of (jspEnv spec) k), evSecretKeyRef = None\<rparr>"

abbreviation secret_var :: "'r JobSpec \<Rightarrow> string \<Rightarrow> EnvVar" where
  "secret_var spec k \<equiv> \<lparr>evName = k, evValue = '''', evSecretKeyRef = Some (jspName spec, k)\<rparr>"

text \<open>
  C28: The container's environment is a block of plain variables followed by a block of secret
  variables. Each block is strictly ascending by name, so it lists a name once and does not depend
  on the order of the Go map; the first has exactly the names and values of \<open>Env\<close>, the second
  exactly the names of \<open>Secrets\<close>, without a value but with a reference to that name and that key in
  the Secret that \<open>buildJobSecret\<close> makes, which holds the value. A name in both maps is listed in
  both blocks, and the secret one counts: what the container sees is \<open>Env\<close> overridden by \<open>Secrets\<close>.
\<close>
theorem buildEnv_complete:
  assumes "go_map_ok (jspEnv spec)" "go_map_ok (jspSecrets spec)"
  shows "\<exists>plain secret. buildEnv spec = plain @ secret \<and>
    sorted_wrt (<) (map evName plain) \<and> sorted_wrt (<) (map evName secret) \<and>
    evName ` set plain = dom (map_of (jspEnv spec)) \<and>
    evName ` set secret = dom (map_of (jspSecrets spec)) \<and>
    (\<forall>ev \<in> set plain. evSecretKeyRef ev = None \<and> map_of (jspEnv spec) (evName ev) = Some (evValue ev)) \<and>
    (\<forall>ev \<in> set secret. evValue ev = '''' \<and>
       evSecretKeyRef ev = Some (secName (buildJobSecret spec ns), evName ev)) \<and>
    container_env (buildJobSecret spec ns) (buildEnv spec) =
      map_of (jspEnv spec) ++ map_of (jspSecrets spec)"
proof -
  have "container_env (buildJobSecret spec ns) (buildEnv spec) =
      map_of (jspEnv spec) ++ map_of (jspSecrets spec)"
    by (auto simp: container_env_def env_entry_buildEnv env_value_def buildJobSecret_def map_add_def
        dom_def fun_eq_iff split: option.splits)
  moreover have "sorted_wrt (<) (sortedKeys (jspEnv spec))" "sorted_wrt (<) (sortedKeys (jspSecrets spec))"
    using assms by (simp_all add: strict_sorted_iff)
  ultimately show ?thesis
    by (intro exI [of _ "map (plain_var spec) (sortedKeys (jspEnv spec))"]
        exI [of _ "map (secret_var spec) (sortedKeys (jspSecrets spec))"] conjI)
      (auto simp: buildEnv_def comp_def image_image buildJobSecret_def)
qed

theorem buildEnv_complete_witness:
  "container_env (buildJobSecret (demo_spec\<lparr>jspEnv := [(''KEY'', ''plain'')]\<rparr>) ''rg-1'')
     (buildEnv (demo_spec\<lparr>jspEnv := [(''KEY'', ''plain'')]\<rparr>)) = Map.empty(''KEY'' \<mapsto> ''s3cr3t'')"
proof -
  let ?spec = "demo_spec\<lparr>jspEnv := [(''KEY'', ''plain'')]\<rparr>"
  have "go_map_ok (jspEnv ?spec)" "go_map_ok (jspSecrets ?spec)" by (simp_all add: demo_spec_def)
  from buildEnv_complete [OF this, of "''rg-1''"]
  have "container_env (buildJobSecret ?spec ''rg-1'') (buildEnv ?spec) =
      map_of (jspEnv ?spec) ++ map_of (jspSecrets ?spec)" by blast
  then show ?thesis by (simp add: demo_spec_def)
qed

text \<open>
  A Job always gets a deadline, and it is not negative: six hours when the spec asks for none
  (or a negative one), otherwise the requested time in seconds, exact for whole seconds and at
  most one second above the whole seconds of the request when the double rounds up.
\<close>
lemma job_deadline_bounded:
  assumes "jspCustomize spec = None"
  shows "\<exists>dl. bjActiveDeadlineSeconds (jobSpec (buildJobObject spec ns)) = Some dl \<and> 0 \<le> sint dl \<and>
    (if sint (jspTimeout spec) \<le> 0 then sint dl = 21600
     else sint (jspTimeout spec) div 10 ^ 9 \<le> sint dl \<and> sint dl \<le> sint (jspTimeout spec) div 10 ^ 9 + 1 \<and>
       (10 ^ 9 dvd sint (jspTimeout spec) \<longrightarrow> sint dl = sint (jspTimeout spec) div 10 ^ 9))"
proof (intro exI conjI)
  let ?t = "sint (jspTimeout spec)"
  let ?dl = "durationSeconds (jspTimeout spec) DefaultJobTimeout"
  note b = durationSeconds_bounds [of DefaultJobTimeout "jspTimeout spec"]
  show "bjActiveDeadlineSeconds (jobSpec (buildJobObject spec ns)) = Some ?dl"
    using assms by (simp add: jobSpec_buildJobObject)
  have pos: "0 < sint DefaultJobTimeout" by (simp add: default_durations)
  show "if ?t \<le> 0 then sint ?dl = 21600
     else ?t div 10 ^ 9 \<le> sint ?dl \<and> sint ?dl \<le> ?t div 10 ^ 9 + 1 \<and>
       (10 ^ 9 dvd ?t \<longrightarrow> sint ?dl = ?t div 10 ^ 9)"
    using b [OF pos] default_seconds(1) by auto
  then show "0 \<le> sint ?dl" by (auto split: if_splits intro: order_trans [rotated])
qed

text \<open>
  The TTL of a finished Job is set to the requested seconds (one hour by default) whenever the
  request stays below \<open>2 ^ 31 - 1\<close> seconds.
\<close>
lemma job_ttl_exact:
  assumes "jspCustomize spec = None" "sint (jspTTL spec) < 2147483647 * 10 ^ 9"
  shows "\<exists>ttl. bjTTLSecondsAfterFinished (jobSpec (buildJobObject spec ns)) = Some ttl \<and>
    sint ttl = sint (durationSeconds (jspTTL spec) DefaultJobTTL) \<and> 0 \<le> sint ttl"
proof (intro exI conjI)
  let ?d = "durationSeconds (jspTTL spec) DefaultJobTTL"
  show "bjTTLSecondsAfterFinished (jobSpec (buildJobObject spec ns)) = Some (ucast ?d)"
    using assms by (simp add: jobSpec_buildJobObject)
  have pos: "0 < sint DefaultJobTTL" by (simp add: default_durations)
  have "0 \<le> sint ?d \<and> sint ?d < 2 ^ 31"
  proof (cases "sint (jspTTL spec) \<le> 0")
    case True
    then show ?thesis using durationSeconds_bounds(1) [OF pos True] default_seconds(2) by simp
  next
    case False
    then have "0 \<le> sint (jspTTL spec) div 10 ^ 9" "sint (jspTTL spec) div 10 ^ 9 < 2147483647"
      using assms(2) by simp_all
    with durationSeconds_bounds(2) [OF pos, of "jspTTL spec"] False show ?thesis by simp
  qed
  then show eq: "sint (ucast ?d :: int32) = sint ?d" and "0 \<le> sint (ucast ?d :: int32)"
    by (simp_all add: sint_ucast_32 signed_take_bit_int_eq_self)
qed

text \<open>The TTL is the number of seconds of the request, truncated to 32 bits whatever its size.\<close>

lemma signed_take_bit_31: "signed_take_bit 31 n = (n + 2 ^ 31) mod 2 ^ 32 - (2 ^ 31 :: int)"
  by (simp add: signed_take_bit_eq_take_bit_shift take_bit_eq_mod)

lemma job_ttl_modulo:
  assumes "jspCustomize spec = None"
  shows "\<exists>ttl. bjTTLSecondsAfterFinished (jobSpec (buildJobObject spec ns)) = Some ttl \<and>
    sint ttl = (sint (durationSeconds (jspTTL spec) DefaultJobTTL) + 2 ^ 31) mod 2 ^ 32 - 2 ^ 31"
  using assms by (simp add: jobSpec_buildJobObject sint_ucast_32 signed_take_bit_31)

text \<open>
  Every Job has a TTL. Below \<open>2 ^ 31 - 1\<close> seconds it is one hour when none was asked for, else
  the requested seconds up to the rounding of \<open>Duration.Seconds\<close>, and never negative.
\<close>
lemma job_ttl_bounds:
  assumes "jspCustomize spec = None"
  shows "\<exists>ttl. bjTTLSecondsAfterFinished (jobSpec (buildJobObject spec ns)) = Some ttl \<and>
    (sint (jspTTL spec) \<le> 0 \<longrightarrow> sint ttl = 3600) \<and>
    (0 < sint (jspTTL spec) \<and> sint (jspTTL spec) < 2147483647 * 10 ^ 9 \<longrightarrow>
       sint (jspTTL spec) div 10 ^ 9 \<le> sint ttl \<and> sint ttl \<le> sint (jspTTL spec) div 10 ^ 9 + 1 \<and>
       (10 ^ 9 dvd sint (jspTTL spec) \<longrightarrow> sint ttl = sint (jspTTL spec) div 10 ^ 9) \<and> 0 \<le> sint ttl)"
proof -
  let ?t = "sint (jspTTL spec)"
  obtain ttl where ttl: "bjTTLSecondsAfterFinished (jobSpec (buildJobObject spec ns)) = Some ttl"
    using assms by (simp add: jobSpec_buildJobObject)
  have pos: "0 < sint DefaultJobTTL" by (simp add: default_durations)
  note b = durationSeconds_bounds [OF pos, of "jspTTL spec"]
  have small: "sint ttl = sint (durationSeconds (jspTTL spec) DefaultJobTTL) \<and> 0 \<le> sint ttl"
    if "?t < 2147483647 * 10 ^ 9"
    using job_ttl_exact [OF assms that, of ns] ttl by auto
  have "sint ttl = 3600" if "?t \<le> 0" using small b(1) default_seconds(2) that by simp
  with ttl small b(2,3) show ?thesis by (intro exI [of _ ttl]) auto
qed

text \<open>How a number of seconds answers a requested duration in nanoseconds.\<close>

definition answers_request :: "int \<Rightarrow> int \<Rightarrow> int \<Rightarrow> bool" where
  "answers_request d d0 n \<longleftrightarrow>
     (if d \<le> 0 then n = d0
      else d div 10 ^ 9 \<le> n \<and> n \<le> d div 10 ^ 9 + 1 \<and> (10 ^ 9 dvd d \<longrightarrow> n = d div 10 ^ 9))"

text \<open>
  C29: The limits of a Job that \<open>Customize\<close> does not change. Its deadline is six hours when none
  was asked for, else the requested seconds, exact for whole seconds and at most one above when
  the double rounds up, and never negative. Its TTL is computed in the same way, with one hour for
  none, but kept modulo \<open>2 ^ 32\<close> in the range of an \<open>int32\<close>: it is the number of seconds asked for
  as long as the request is below \<open>2 ^ 31 - 1\<close> seconds, and a wrapped one beyond (a request of
  \<open>2 ^ 31\<close> seconds, a legal \<open>time.Duration\<close>, gives a negative TTL, which the API server rejects,
  and one of \<open>2 ^ 32\<close> seconds the TTL 0: the Job is removed as soon as it has finished).
\<close>
theorem job_limits:
  assumes "jspCustomize spec = None"
  shows "\<exists>dl ttl secs. bjActiveDeadlineSeconds (jobSpec (buildJobObject spec ns)) = Some dl \<and>
    bjTTLSecondsAfterFinished (jobSpec (buildJobObject spec ns)) = Some ttl \<and>
    answers_request (sint (jspTimeout spec)) 21600 (sint dl) \<and> 0 \<le> sint dl \<and>
    answers_request (sint (jspTTL spec)) 3600 secs \<and> 0 \<le> secs \<and>
    sint ttl = (secs + 2 ^ 31) mod 2 ^ 32 - 2 ^ 31 \<and>
    (sint (jspTTL spec) < 2147483647 * 10 ^ 9 \<longrightarrow> sint ttl = secs)"
proof -
  let ?secs = "sint (durationSeconds (jspTTL spec) DefaultJobTTL)"
  have pos: "0 < sint DefaultJobTTL" by (simp add: default_durations)
  note b = durationSeconds_bounds [OF pos, of "jspTTL spec"]
  obtain dl where dl: "bjActiveDeadlineSeconds (jobSpec (buildJobObject spec ns)) = Some dl"
    "answers_request (sint (jspTimeout spec)) 21600 (sint dl)" "0 \<le> sint dl"
    using job_deadline_bounded [OF assms, of ns] by (auto simp: answers_request_def)
  obtain ttl where ttl: "bjTTLSecondsAfterFinished (jobSpec (buildJobObject spec ns)) = Some ttl"
    and wrap: "sint ttl = (?secs + 2 ^ 31) mod 2 ^ 32 - 2 ^ 31"
    using job_ttl_modulo [OF assms, of ns] by blast
  have secs: "answers_request (sint (jspTTL spec)) 3600 ?secs"
    using b default_seconds(2) by (auto simp: answers_request_def)
  then have "0 \<le> ?secs" by (auto simp: answers_request_def split: if_splits intro: order_trans [rotated])
  moreover have "sint (jspTTL spec) < 2147483647 * 10 ^ 9 \<longrightarrow> sint ttl = ?secs"
    using job_ttl_exact [OF assms, of ns] ttl by auto
  ultimately show ?thesis using dl ttl wrap secs
    by (intro exI [of _ dl] exI [of _ ttl] exI [of _ ?secs] conjI)
qed

definition demo_ttl :: "int \<Rightarrow> unit JobSpec" where
  "demo_ttl n = demo_spec\<lparr>jspTTL := word_of_int (n * 10 ^ 9)\<rparr>"

theorem job_limits_witness:
  "map_option sint (bjActiveDeadlineSeconds (jobSpec (buildJobObject (demo_ttl 60) ''rg-1''))) = Some 21600 \<and>
   map_option sint (bjTTLSecondsAfterFinished (jobSpec (buildJobObject (demo_ttl 60) ''rg-1''))) = Some 60 \<and>
   map_option sint (bjTTLSecondsAfterFinished (jobSpec (buildJobObject (demo_ttl (2 ^ 31)) ''rg-1''))) =
     Some (- (2 ^ 31)) \<and>
   map_option sint (bjTTLSecondsAfterFinished (jobSpec (buildJobObject (demo_ttl (2 ^ 32)) ''rg-1''))) = Some 0"
proof -
  have none: "jspCustomize (demo_ttl n) = None" for n by (simp add: demo_ttl_def demo_spec_def)
  obtain dl ttl where
    "bjActiveDeadlineSeconds (jobSpec (buildJobObject (demo_ttl 60) ''rg-1'')) = Some dl" "sint dl = 21600"
    "bjTTLSecondsAfterFinished (jobSpec (buildJobObject (demo_ttl 60) ''rg-1'')) = Some ttl" "sint ttl = 60"
    using job_limits [OF none, of 60 "''rg-1''"]
    by (auto simp: answers_request_def demo_ttl_def demo_spec_def)
  moreover obtain ttl1 where
    "bjTTLSecondsAfterFinished (jobSpec (buildJobObject (demo_ttl (2 ^ 31)) ''rg-1'')) = Some ttl1"
    "sint ttl1 = - (2 ^ 31)"
    using job_limits [OF none, of "2 ^ 31" "''rg-1''"]
    by (auto simp: answers_request_def demo_ttl_def demo_spec_def)
  moreover obtain ttl2 where
    "bjTTLSecondsAfterFinished (jobSpec (buildJobObject (demo_ttl (2 ^ 32)) ''rg-1'')) = Some ttl2"
    "sint ttl2 = 0"
    using job_limits [OF none, of "2 ^ 32" "''rg-1''"]
    by (auto simp: answers_request_def demo_ttl_def demo_spec_def)
  ultimately show ?thesis by simp
qed

end
