(* ===== verification/JobState.thy ===== *)
theory JobState
  imports JobBuild
begin

text \<open>
  Reading the state of a Job (\<open>JobRunner.State\<close>): which phase is reported when, what the reason
  of a failed Job contains, and whose logs it quotes. The contract of \<open>sort.Slice\<close> is the locale
  \<open>slice_sort\<close>; Go's insertion sort, which \<open>sort.Slice\<close> uses for up to twelve elements, is an
  instance.
\<close>

subsection \<open>The contract of sort.Slice\<close>

text \<open>
  For a strict weak order the result is a permutation without inversions; the order of elements
  that compare equal is open.
\<close>

definition strict_weak :: "('a \<Rightarrow> 'a \<Rightarrow> bool) \<Rightarrow> bool" where
  "strict_weak lt \<longleftrightarrow>
     (\<forall>x y. lt x y \<longrightarrow> \<not> lt y x) \<and> (\<forall>x y z. lt x z \<longrightarrow> lt x y \<or> lt y z)"

locale slice_sort =
  fixes sort_Slice :: "(Pod \<Rightarrow> Pod \<Rightarrow> bool) \<Rightarrow> Pod list \<Rightarrow> Pod list"
  assumes sort_Slice_perm: "mset (sort_Slice lt pods) = mset pods"
    and sort_Slice_sorted: "strict_weak lt \<Longrightarrow> sorted_wrt (\<lambda>p q. \<not> lt q p) (sort_Slice lt pods)"

fun go_insert :: "('a \<Rightarrow> 'a \<Rightarrow> bool) \<Rightarrow> 'a \<Rightarrow> 'a list \<Rightarrow> 'a list" where
  "go_insert lt x [] = [x]"
| "go_insert lt x (y # ys) = (if lt x y then y # go_insert lt x ys else x # y # ys)"

text \<open>The accumulator is the sorted prefix, last element first.\<close>

fun go_insertion_sort :: "('a \<Rightarrow> 'a \<Rightarrow> bool) \<Rightarrow> 'a list \<Rightarrow> 'a list \<Rightarrow> 'a list" where
  "go_insertion_sort lt acc [] = rev acc"
| "go_insertion_sort lt acc (x # xs) = go_insertion_sort lt (go_insert lt x acc) xs"

definition insertionSort :: "('a \<Rightarrow> 'a \<Rightarrow> bool) \<Rightarrow> 'a list \<Rightarrow> 'a list" where
  "insertionSort lt xs = go_insertion_sort lt [] xs"

lemma mset_go_insert [simp]: "mset (go_insert lt x ys) = add_mset x (mset ys)"
  by (induction ys) auto

lemma set_go_insert [simp]: "set (go_insert lt x ys) = insert x (set ys)"
  by (metis mset_go_insert set_mset_add_mset_insert set_mset_mset)

lemma sorted_go_insert:
  "strict_weak lt \<Longrightarrow> sorted_wrt (\<lambda>p q. \<not> lt p q) ys \<Longrightarrow>
   sorted_wrt (\<lambda>p q. \<not> lt p q) (go_insert lt x ys)"
  by (induction ys) (auto simp: strict_weak_def, blast)

lemma mset_go_insertion_sort: "mset (go_insertion_sort lt acc xs) = mset acc + mset xs"
  by (induction lt acc xs rule: go_insertion_sort.induct) simp_all

lemma sorted_go_insertion_sort:
  "strict_weak lt \<Longrightarrow> sorted_wrt (\<lambda>p q. \<not> lt p q) acc \<Longrightarrow>
   sorted_wrt (\<lambda>p q. \<not> lt q p) (go_insertion_sort lt acc xs)"
  by (induction lt acc xs rule: go_insertion_sort.induct)
     (simp_all add: sorted_wrt_rev sorted_go_insert)

interpretation go_sort: slice_sort insertionSort
  by unfold_locales
     (simp_all add: insertionSort_def mset_go_insertion_sort sorted_go_insertion_sort)

subsection \<open>Whose logs are quoted\<close>

lemma strict_weak_newer: "strict_weak newer"
  by (auto simp: strict_weak_def newer_def)

text \<open>The logs a pod gives, when reading logs does not change them.\<close>

definition reads_logs :: "('s, 'u, 'r) KubernetesClient \<Rightarrow> string \<Rightarrow> (string \<Rightarrow> go_error + string) \<Rightarrow> bool" where
  "reads_logs K ns lg \<longleftrightarrow>
     (\<forall>p s. fst (kcGetPodLogs K ns p jobContainerName failureLogTailLines s) = lg p)"

definition has_logs :: "(string \<Rightarrow> go_error + string) \<Rightarrow> Pod \<Rightarrow> bool" where
  "has_logs lg p \<longleftrightarrow> (case lg (podName p) of Inl _ \<Rightarrow> False | Inr l \<Rightarrow> l \<noteq> '''')"

lemma first_logs_find:
  "reads_logs K ns lg \<Longrightarrow> fst (first_logs K ns pods s) =
     (case find (has_logs lg) pods of None \<Rightarrow> ''''
      | Some p \<Rightarrow> (case lg (podName p) of Inl _ \<Rightarrow> '''' | Inr l \<Rightarrow> l))"
proof (induction pods arbitrary: s)
  case Nil
  then show ?case by simp
next
  case (Cons p pods)
  obtain r s' where r: "kcGetPodLogs K ns (podName p) jobContainerName failureLogTailLines s = (r, s')"
    by force
  with Cons.prems have "lg (podName p) = r" by (metis fst_conv reads_logs_def)
  with r Cons show ?case by (auto simp: has_logs_def split: sum.splits)
qed

lemma find_sorted_wrt:
  "find P xs = Some x \<Longrightarrow> sorted_wrt (\<lambda>p q. \<not> R q p) xs \<Longrightarrow> y \<in> set xs \<Longrightarrow> R y x \<Longrightarrow> \<not> R x x \<Longrightarrow> \<not> P y"
  by (induction xs) (auto split: if_splits dest: find_Some_iff [THEN iffD1] nth_mem)

context slice_sort
begin

lemma set_sort_Slice: "set (sort_Slice lt pods) = set pods"
  by (metis sort_Slice_perm set_mset_mset)

lemma newest_logs_first:
  assumes "reads_logs K ns lg" "p \<in> set pods" "has_logs lg p"
  shows "\<exists>q \<in> set pods. \<exists>l. lg (podName q) = Inr l \<and> l \<noteq> '''' \<and>
     fst (first_logs K ns (sort_Slice newer pods) s) = l \<and>
     (\<forall>q' \<in> set pods. newer q' q \<longrightarrow> \<not> has_logs lg q')"
proof -
  let ?sorted = "sort_Slice newer pods"
  obtain q where q: "find (has_logs lg) ?sorted = Some q"
    using assms(2,3) by (cases "find (has_logs lg) ?sorted") (auto simp: find_None_iff set_sort_Slice)
  then have "q \<in> set pods" "has_logs lg q"
    by (metis find_Some_iff nth_mem set_sort_Slice, metis find_Some_iff)
  moreover from q have "\<not> has_logs lg q'" if "q' \<in> set pods" "newer q' q" for q'
    using find_sorted_wrt [OF q sort_Slice_sorted [OF strict_weak_newer], of q'] that
    by (simp add: set_sort_Slice newer_def)
  ultimately show ?thesis using first_logs_find [OF assms(1), of ?sorted s] q
    by (intro bexI [of _ q]) (auto simp: has_logs_def split: sum.splits)
qed

end

subsection \<open>Reasons and times\<close>

lemma message_of_nonempty: "message_of t cs \<noteq> ''''"
  by (induction cs) auto

lemma conditionMessage_nonempty [simp]: "conditionMessage job t \<noteq> ''''"
  by (simp add: conditionMessage_def message_of_nonempty)

lemma failureReason_eq:
  "failureReason K sort_Slice job s =
     (case failedPodLogs K sort_Slice (jobNamespace job) (jobName job) s of (logs, s') \<Rightarrow>
        (if logs = '''' then conditionMessage job JobFailedCondition
         else conditionMessage job JobFailedCondition @ '': '' @ logs, s'))"
  by (auto simp: failureReason_def Let_def split: prod.splits)

lemma timePtr_nonzero: "timePtr t = Some t' \<Longrightarrow> \<not> time_IsZero t'"
  by (auto simp: timePtr_def split: option.splits if_splits)

lemma conditionTime_nonzero: "conditionTime job t = Some t' \<Longrightarrow> \<not> time_IsZero t'"
  by (auto simp: conditionTime_def dest: timePtr_nonzero split: option.splits)

subsection \<open>The phase of a Job\<close>

text \<open>
  The phase as the Job API documents it, read off the conditions: a condition holds when the status
  listed for its type, the first one if there are several, is \<open>True\<close>; and the time a Job has failed.
\<close>

definition condition_status :: "'r Job \<Rightarrow> string \<Rightarrow> string option" where
  "condition_status job = map_of (map (\<lambda>c. (jcType c, jcStatus c)) (jsConditions (jobStatus job)))"

definition phase_of :: "'r Job \<Rightarrow> JobPhase" where
  "phase_of job =
     (if condition_status job ''Complete'' = Some ''True'' then JobSucceeded
      else if condition_status job ''Failed'' = Some ''True'' then JobFailed
      else if 0 < sint (jsActive (jobStatus job)) then JobRunning
      else JobPending)"

definition failed_at :: "'r Job \<Rightarrow> go_time option" where
  "failed_at job =
     (case [jcLastTransitionTime c. c \<leftarrow> jsConditions (jobStatus job),
              jcType c = ''Failed'' \<and> jcLastTransitionTime c \<noteq> zero_time] of
        [] \<Rightarrow> None | t # _ \<Rightarrow> Some t)"

lemma jobConditionTrue_eq: "jobConditionTrue job t \<longleftrightarrow> condition_status job t = Some ''True''"
proof -
  have "(case find (\<lambda>c. jcType c = t) cs of None \<Rightarrow> False | Some c \<Rightarrow> jcStatus c = ConditionTrue) \<longleftrightarrow>
      map_of (map (\<lambda>c. (jcType c, jcStatus c)) cs) t = Some ''True''" for cs
    by (induction cs) (auto simp: ConditionTrue_def)
  then show ?thesis by (simp add: jobConditionTrue_def condition_status_def)
qed

lemma phase_of_eq:
  "phase_of job =
     (if jobConditionTrue job JobComplete then JobSucceeded
      else if jobConditionTrue job JobFailedCondition then JobFailed
      else if 0 < sint (jsActive (jobStatus job)) then JobRunning
      else JobPending)"
  by (simp add: phase_of_def jobConditionTrue_eq JobComplete_def JobFailedCondition_def)

lemma conditionTime_eq: "conditionTime job JobFailedCondition = failed_at job"
proof -
  have "(case find (\<lambda>c. jcType c = t \<and> \<not> time_IsZero (jcLastTransitionTime c)) cs of
        None \<Rightarrow> None | Some c \<Rightarrow> timePtr (Some (jcLastTransitionTime c))) =
      (case [jcLastTransitionTime c. c \<leftarrow> cs, jcType c = t \<and> jcLastTransitionTime c \<noteq> zero_time] of
        [] \<Rightarrow> None | x # _ \<Rightarrow> Some x)" for cs t
    by (induction cs) (auto simp: timePtr_def time_IsZero_def)
  then show ?thesis by (simp add: conditionTime_def failed_at_def JobFailedCondition_def)
qed

lemma phase_of_found [simp]: "phase_of job \<noteq> JobNotFound"
  by (simp add: phase_of_eq)

lemma State_found:
  assumes "kcGetJob K ns name s = (Inr job, s1)"
  shows "JobRunner_State K sort_Slice ns name s =
    (if jobConditionTrue job JobComplete
     then (Inr \<lparr>jstPhase = JobSucceeded, jstStartedAt = timePtr (jsStartTime (jobStatus job)),
            jstFinishedAt = timePtr (jsCompletionTime (jobStatus job)), jstReason = ''''\<rparr>, s1)
     else if jobConditionTrue job JobFailedCondition
     then (Inr \<lparr>jstPhase = JobFailed, jstStartedAt = timePtr (jsStartTime (jobStatus job)),
            jstFinishedAt = (case timePtr (jsCompletionTime (jobStatus job)) of
               None \<Rightarrow> conditionTime job JobFailedCondition | Some t \<Rightarrow> Some t),
            jstReason = fst (failureReason K sort_Slice job s1)\<rparr>,
           snd (failureReason K sort_Slice job s1))
     else (Inr \<lparr>jstPhase = (if 0 < sint (jsActive (jobStatus job)) then JobRunning else JobPending),
            jstStartedAt = timePtr (jsStartTime (jobStatus job)),
            jstFinishedAt = timePtr (jsCompletionTime (jobStatus job)), jstReason = ''''\<rparr>, s1))"
  using assms
  by (simp add: JobRunner_State_def Let_def split: prod.splits option.splits)

lemma State_missing:
  "kcGetJob K ns name s = (Inl e, s1) \<Longrightarrow> JobRunner_State K sort_Slice ns name s =
    (if errors_Is e ErrResourceNotFound
     then (Inr \<lparr>jstPhase = JobNotFound, jstStartedAt = None, jstFinishedAt = None, jstReason = ''''\<rparr>, s1)
     else (Inl (ErrWrap (''getting job '' @ name @ '': '') e ''''), s1))"
  by (simp add: JobRunner_State_def)

lemma State_cases:
  assumes "JobRunner_State K sort_Slice ns name s = (Inr st, s')"
  obtains (missing) e where "kcGetJob K ns name s = (Inl e, s')" "errors_Is e ErrResourceNotFound"
      "jstPhase st = JobNotFound"
    | (found) job s1 where "kcGetJob K ns name s = (Inr job, s1)" "jstPhase st \<noteq> JobNotFound"
proof (cases "kcGetJob K ns name s")
  case (Pair r s1)
  then show ?thesis
    using assms missing found by (cases r) (auto simp: State_missing State_found split: if_splits)
qed

subsection \<open>A poll only reads\<close>

text \<open>
  Whatever the three reads of the client keep, \<open>State\<close> keeps: \<open>obs\<close> is what is observed of the state,
  the Jobs and Secrets of the cluster or its clock.
\<close>

locale quiet_reads =
  fixes K :: "('s, 'u, 'r) KubernetesClient" and obs :: "'s \<Rightarrow> 'o"
  assumes get_job_quiet: "kcGetJob K ns name s = (r1, s') \<Longrightarrow> obs s' = obs s"
    and list_pods_quiet: "kcListPods K ns sel s = (r2, s') \<Longrightarrow> obs s' = obs s"
    and get_logs_quiet: "kcGetPodLogs K ns pod c tail s = (r3, s') \<Longrightarrow> obs s' = obs s"
begin

lemma first_logs_quiet: "first_logs K ns pods s = (l, s') \<Longrightarrow> obs s' = obs s"
proof (induction pods arbitrary: s)
  case (Cons pod pods)
  obtain r s1 where "kcGetPodLogs K ns (podName pod) jobContainerName failureLogTailLines s = (r, s1)"
    by force
  with Cons get_logs_quiet [OF this] show ?case by (auto split: sum.splits if_splits)
qed simp

lemma failureReason_quiet:
  assumes "failureReason K sort_Slice job s = (m, s')"
  shows "obs s' = obs s"
proof -
  obtain r s1 where pods: "kcListPods K (jobNamespace job) (''job-name='' @ jobName job) s = (r, s1)"
    by force
  with assms list_pods_quiet [OF pods] show ?thesis
    by (auto simp: failureReason_eq failedPodLogs_def dest: first_logs_quiet split: sum.splits prod.splits)
qed

lemma failureReason_quiet_snd [simp]: "obs (snd (failureReason K sort_Slice job s)) = obs s"
  by (rule failureReason_quiet [OF surjective_pairing])

lemma State_quiet:
  assumes "JobRunner_State K sort_Slice ns name s = (r, s')"
  shows "obs s' = obs s"
proof -
  obtain g s1 where get: "kcGetJob K ns name s = (g, s1)" by force
  with assms get_job_quiet [OF get] show ?thesis
    by (cases g) (auto simp: State_missing State_found split: if_splits)
qed

end

subsection \<open>Properties\<close>

text \<open>
  A poll reports a phase by the first condition of each type: succeeded when the Complete
  condition is true, else failed when the Failed condition is true, else running when a pod is
  active, else pending; not found exactly when the API says the Job does not exist; any other
  API error is returned, still carrying its classification. Only a failed Job reads pods and logs.
\<close>
lemma State_phase:
  "JobRunner_State (kubernetesClientImpl L) sort_Slice ns name s =
    (case csGetJob L ns name s of
       (Inl e, s1) \<Rightarrow>
         if IsNotFound L e
         then (Inr \<lparr>jstPhase = JobNotFound, jstStartedAt = None, jstFinishedAt = None, jstReason = ''''\<rparr>, s1)
         else (Inl (ErrWrap (''getting job '' @ name @ '': '') (wrapK8sError L e) ''''), s1)
     | (Inr job, s1) \<Rightarrow>
         let phase = (if jobConditionTrue job JobComplete then JobSucceeded
                else if jobConditionTrue job JobFailedCondition then JobFailed
                else if 0 < sint (jsActive (jobStatus job)) then JobRunning else JobPending);
             (reason, s2) = (if phase = JobFailed then failureReason (kubernetesClientImpl L) sort_Slice job s1
                else ('''', s1))
         in (Inr \<lparr>jstPhase = phase, jstStartedAt = timePtr (jsStartTime (jobStatus job)),
                 jstFinishedAt = (case timePtr (jsCompletionTime (jobStatus job)) of
                   None \<Rightarrow> if phase = JobFailed then conditionTime job JobFailedCondition else None
                 | Some t \<Rightarrow> Some t),
                 jstReason = reason\<rparr>, s2))"
proof (cases "csGetJob L ns name s")
  case (Pair r s1)
  show ?thesis
  proof (cases r)
    case (Inl e)
    with Pair have "kcGetJob (kubernetesClientImpl L) ns name s = (Inl (wrapK8sError L e), s1)"
      by (simp add: impl_sel Impl_GetJob_def wrap_result_def)
    from State_missing [OF this, of sort_Slice] Pair Inl show ?thesis
      by (simp add: wrapped_sentinel_def)
  next
    case (Inr job)
    with Pair have "kcGetJob (kubernetesClientImpl L) ns name s = (Inr job, s1)"
      by (simp add: impl_sel Impl_GetJob_def wrap_result_def)
    from State_found [OF this, of sort_Slice] Pair Inr show ?thesis
      by (cases "timePtr (jsCompletionTime (jobStatus job))")
         (simp_all add: Let_def case_prod_beta)
  qed
qed

lemma State_reason:
  assumes "JobRunner_State K sort_Slice ns name s = (Inr st, s')"
  shows "jstReason st \<noteq> '''' \<longleftrightarrow> jstPhase st = JobFailed"
    and "jstStartedAt st = Some t \<Longrightarrow> \<not> time_IsZero t"
    and "jstFinishedAt st = Some t \<Longrightarrow> \<not> time_IsZero t"
proof -
  obtain r s1 where get: "kcGetJob K ns name s = (r, s1)" by force
  have "fst (failureReason K sort_Slice job s1) \<noteq> ''''" for job
    by (simp add: failureReason_eq split: prod.splits)
  then show "jstReason st \<noteq> '''' \<longleftrightarrow> jstPhase st = JobFailed"
    and "jstStartedAt st = Some t \<Longrightarrow> \<not> time_IsZero t"
    and "jstFinishedAt st = Some t \<Longrightarrow> \<not> time_IsZero t"
    using assms get by (cases r;
      auto simp: State_missing State_found dest: timePtr_nonzero conditionTime_nonzero
        split: if_splits option.splits)+
qed

definition demo_failed_job :: "unit Job" where
  "demo_failed_job = (buildJobObject demo_spec ''rg-1'')\<lparr>jobStatus :=
     \<lparr>jsStartTime = Some 5, jsCompletionTime = None, jsActive = 0, jsConditions =
       [\<lparr>jcType = ''Failed'', jcStatus = ''True'', jcReason = ''BackoffLimitExceeded'', jcMessage = '''',
         jcLastTransitionTime = 9\<rparr>]\<rparr>\<rparr>"

definition demo_failed :: mem where
  "demo_failed = mem_init\<lparr>mJobs := [(''rg-1'', ''backup-b7'') \<mapsto> demo_failed_job],
     mPods := [\<lparr>podName = ''p1'', podCreationTimestamp = 1\<rparr>, \<lparr>podName = ''p3'', podCreationTimestamp = 3\<rparr>,
       \<lparr>podName = ''p2'', podCreationTimestamp = 2\<rparr>],
     mLogs := [(''p1'', ''old''), (''p2'', ''denied'')]\<rparr>"

lemma demo_failed_State:
  "JobRunner_State mem_client insertionSort ''rg-1'' ''backup-b7'' demo_failed =
    (Inr \<lparr>jstPhase = JobFailed, jstStartedAt = Some 5, jstFinishedAt = Some 9,
       jstReason = ''BackoffLimitExceeded: denied''\<rparr>, demo_failed)"
  by (simp add: JobRunner_State_def mem_defs demo_failed_def demo_failed_job_def
      jobConditionTrue_def JobComplete_def JobFailedCondition_def ConditionTrue_def
      timePtr_def time_IsZero_def zero_time_def conditionTime_def conditionMessage_def
      failureReason_eq failedPodLogs_def insertionSort_def newer_def Let_def buildJobObject_def)

text \<open>
  C20: When some pod of a failed Job has logs, the reason is the condition's message, a colon and
  the logs of a pod such that no newer pod has any, whatever order the API lists the pods in and
  whatever order \<open>sort.Slice\<close> gives to pods created at the same time.
\<close>
theorem failureReason_newest:
  assumes "slice_sort sort_Slice" "reads_logs K (jobNamespace job) lg"
    and "kcListPods K (jobNamespace job) (''job-name='' @ jobName job) s = (Inr pods, s1)"
    and "p \<in> set pods" "has_logs lg p"
  shows "\<exists>q \<in> set pods. \<exists>l. lg (podName q) = Inr l \<and> l \<noteq> '''' \<and>
    fst (failureReason K sort_Slice job s) = conditionMessage job JobFailedCondition @ '': '' @ l \<and>
    (\<forall>q' \<in> set pods. podCreationTimestamp q < podCreationTimestamp q' \<longrightarrow> \<not> has_logs lg q')"
proof -
  have logs: "failedPodLogs K sort_Slice (jobNamespace job) (jobName job) s =
      first_logs K (jobNamespace job) (sort_Slice newer pods) s1"
    using assms(3) by (simp add: failedPodLogs_def)
  from slice_sort.newest_logs_first [OF assms(1,2,4,5), of s1] obtain q l
    where "q \<in> set pods" "lg (podName q) = Inr l" "l \<noteq> ''''"
      "fst (first_logs K (jobNamespace job) (sort_Slice newer pods) s1) = l"
      "\<forall>q' \<in> set pods. newer q' q \<longrightarrow> \<not> has_logs lg q'" by auto
  then show ?thesis
    by (intro bexI [of _ q] exI [of _ l]) (auto simp: failureReason_eq logs newer_def split: prod.splits)
qed

theorem failureReason_newest_witness:
  "\<exists>l. fst (failureReason mem_client insertionSort demo_failed_job demo_failed) =
     ''BackoffLimitExceeded'' @ '': '' @ l"
proof -
  let ?lg = "\<lambda>p. case map_of (mLogs demo_failed) p of
     None \<Rightarrow> Inl (wrapK8sError mem_libs MemNotFound) | Some l \<Rightarrow> Inr l"
  let ?K = "mem_client\<lparr>kcGetPodLogs := \<lambda>ns p c n s. (?lg p, s)\<rparr>"
  have ns: "jobNamespace demo_failed_job = ''rg-1''" "jobName demo_failed_job = ''backup-b7''"
    by (simp_all add: demo_failed_job_def buildJobObject_def demo_spec_def)
  have "\<exists>q \<in> set (mPods demo_failed). \<exists>l. ?lg (podName q) = Inr l \<and> l \<noteq> '''' \<and>
    fst (failureReason ?K insertionSort demo_failed_job demo_failed) =
      conditionMessage demo_failed_job JobFailedCondition @ '': '' @ l \<and>
    (\<forall>q' \<in> set (mPods demo_failed). podCreationTimestamp q < podCreationTimestamp q' \<longrightarrow> \<not> has_logs ?lg q')"
    by (rule failureReason_newest [OF go_sort.slice_sort_axioms,
          where p = "\<lparr>podName = ''p1'', podCreationTimestamp = 1\<rparr>" and ?s1.0 = demo_failed])
       (simp_all add: reads_logs_def mem_defs demo_failed_def has_logs_def mem_init_def)
  then show ?thesis
    by (simp add: failureReason_eq failedPodLogs_def mem_defs demo_failed_def insertionSort_def newer_def
        conditionMessage_def demo_failed_job_def JobFailedCondition_def)
qed

end
