(* ===== verification/Cluster.thy ===== *)
theory Cluster
  imports MemCluster
begin

text \<open>
  What a Kubernetes API server documents about Jobs and Secrets, as far as the library relies on
  it. \<open>view\<close> reads from the state the Jobs and the Secrets (data and owner references) by
  namespace and name. \<open>api_server\<close> states it of the client libraries; \<open>job_store\<close> states it of a
  \<open>KubernetesClient\<close>, and the first gives the second for \<open>kubernetesClientImpl\<close>.
  Calls are atomic, as on the server; what other clients do between two calls is not part of it.
  A failed call may still have had its effect (a lost answer); a deletion may be accepted and
  leave the Job terminating.
\<close>

record 'u cluster_view =
  cvJobs :: "(string \<times> string) \<Rightarrow> 'u option"
  cvSecrets :: "(string \<times> string) \<Rightarrow> ((string \<Rightarrow> string option) \<times> OwnerReference list) option"

definition secret_content :: "Secret \<Rightarrow> string \<Rightarrow> string option" where
  "secret_content sec = map_of (secData sec) ++ map_of (secStringData sec)"

text \<open>Only the entry \<open>k\<close> may differ, and only when it was absent.\<close>

definition only_adds :: "'k \<Rightarrow> ('k \<Rightarrow> 'v option) \<Rightarrow> ('k \<Rightarrow> 'v option) \<Rightarrow> bool" where
  "only_adds k m m' \<longleftrightarrow> (\<forall>k'. k' \<noteq> k \<or> m k' \<noteq> None \<longrightarrow> m' k' = m k')"

text \<open>Only the entry \<open>k\<close> may differ, and only by being removed.\<close>

definition only_removes :: "'k \<Rightarrow> ('k \<Rightarrow> 'v option) \<Rightarrow> ('k \<Rightarrow> 'v option) \<Rightarrow> bool" where
  "only_removes k m m' \<longleftrightarrow> m' = m \<or> m' = m(k := None)"

lemma only_adds_refl [simp]: "only_adds k m m"
  by (simp add: only_adds_def)

lemma only_adds_trans: "only_adds k m m' \<Longrightarrow> only_adds k m' m'' \<Longrightarrow> only_adds k m m''"
  by (auto simp: only_adds_def)

lemma only_adds_present: "only_adds k m m' \<Longrightarrow> m k \<noteq> None \<Longrightarrow> m' = m"
  by (auto simp: only_adds_def fun_eq_iff)

lemma only_adds_insert: "m k = None \<Longrightarrow> only_adds k m (m(k := v))"
  by (simp add: only_adds_def)

lemma only_addsD: "only_adds k m m' \<Longrightarrow> k' \<noteq> k \<or> m k' \<noteq> None \<Longrightarrow> m' k' = m k'"
  unfolding only_adds_def by blast

lemma only_removesD: "only_removes k m m' \<Longrightarrow> k' \<noteq> k \<Longrightarrow> m' k' = m k'"
  by (auto simp: only_removes_def)

lemma only_removes_refl [simp]: "only_removes k m m"
  by (simp add: only_removes_def)

text \<open>The patch \<open>adoptSecret\<close> sends.\<close>

definition owner_patch :: "OwnerReference list \<Rightarrow> K8sPatch list" where
  "owner_patch owners =
     [\<lparr>kpOp = ''add'', kpPath = ''/metadata/ownerReferences'', kpValue = Some (PVOwners owners)\<rparr>]"

definition set_owners ::
  "string \<times> string \<Rightarrow> OwnerReference list \<Rightarrow> 'u cluster_view \<Rightarrow> 'u cluster_view" where
  "set_owners k owners v =
     (case cvSecrets v k of None \<Rightarrow> v
      | Some (d, _) \<Rightarrow> v\<lparr>cvSecrets := (cvSecrets v)(k := Some (d, owners))\<rparr>)"

locale job_store = kube_client K
  for K :: "('s, 'u, 'r) KubernetesClient" +
  fixes A :: "('u, 'r) object_libs" and view :: "'s \<Rightarrow> 'u cluster_view"
  assumes create_ok: "ns \<noteq> '''' \<Longrightarrow> kcCreate K JobAPI ns u s = (Inr u', s') \<Longrightarrow>
      cvJobs (view s) (ns, obj_GetName A u) = None \<and> obj_GetName A u' = obj_GetName A u \<and>
      view s' = (view s)\<lparr>cvJobs := (cvJobs (view s))((ns, obj_GetName A u) := Some u')\<rparr>"
    and create_conflict: "ns \<noteq> '''' \<Longrightarrow> kcCreate K JobAPI ns u s = (Inl e, s') \<Longrightarrow>
      errors_Is e ErrResourceConflict \<Longrightarrow>
      cvJobs (view s) (ns, obj_GetName A u) \<noteq> None \<and> view s' = view s"
    and create_fail: "ns \<noteq> '''' \<Longrightarrow> kcCreate K JobAPI ns u s = (Inl e, s') \<Longrightarrow>
      cvSecrets (view s') = cvSecrets (view s) \<and>
      only_adds (ns, obj_GetName A u) (cvJobs (view s)) (cvJobs (view s'))"
    and create_secret_ok: "ns \<noteq> '''' \<Longrightarrow> kcCreateSecret K ns sec s = (Inr sec', s') \<Longrightarrow>
      cvSecrets (view s) (ns, secName sec) = None \<and>
      view s' = (view s)\<lparr>cvSecrets :=
        (cvSecrets (view s))((ns, secName sec) := Some (secret_content sec, []))\<rparr>"
    and create_secret_conflict: "ns \<noteq> '''' \<Longrightarrow> kcCreateSecret K ns sec s = (Inl e, s') \<Longrightarrow>
      errors_Is e ErrResourceConflict \<Longrightarrow>
      cvSecrets (view s) (ns, secName sec) \<noteq> None \<and> view s' = view s"
    and create_secret_lost: "ns \<noteq> '''' \<Longrightarrow> kcCreateSecret K ns sec s = (Inl e, s') \<Longrightarrow>
      view s' = view s \<or> cvSecrets (view s) (ns, secName sec) = None \<and>
      view s' = (view s)\<lparr>cvSecrets :=
        (cvSecrets (view s))((ns, secName sec) := Some (secret_content sec, []))\<rparr>"
    and delete_ok: "ns \<noteq> '''' \<Longrightarrow>
      kcDelete K \<lparr>rrAPIResource = JobAPI, rrName = name, rrNamespace = ns\<rparr> s = (None, s') \<Longrightarrow>
      cvJobs (view s) (ns, name) \<noteq> None"
    and delete_missing: "ns \<noteq> '''' \<Longrightarrow>
      kcDelete K \<lparr>rrAPIResource = JobAPI, rrName = name, rrNamespace = ns\<rparr> s = (Some e, s') \<Longrightarrow>
      errors_Is e ErrResourceNotFound \<Longrightarrow> cvJobs (view s) (ns, name) = None \<and> view s' = view s"
    and delete_frame: "ns \<noteq> '''' \<Longrightarrow>
      kcDelete K \<lparr>rrAPIResource = JobAPI, rrName = name, rrNamespace = ns\<rparr> s = (r, s') \<Longrightarrow>
      cvSecrets (view s') = cvSecrets (view s) \<and>
      only_removes (ns, name) (cvJobs (view s)) (cvJobs (view s'))"
    and delete_secret_ok: "ns \<noteq> '''' \<Longrightarrow> kcDeleteSecret K ns name s = (None, s') \<Longrightarrow>
      cvSecrets (view s') (ns, name) = None"
    and delete_secret_missing: "ns \<noteq> '''' \<Longrightarrow> kcDeleteSecret K ns name s = (Some e, s') \<Longrightarrow>
      errors_Is e ErrResourceNotFound \<Longrightarrow> cvSecrets (view s) (ns, name) = None \<and> view s' = view s"
    and delete_secret_frame: "ns \<noteq> '''' \<Longrightarrow> kcDeleteSecret K ns name s = (r, s') \<Longrightarrow>
      cvJobs (view s') = cvJobs (view s) \<and>
      only_removes (ns, name) (cvSecrets (view s)) (cvSecrets (view s'))"
    and patch_owners: "ns \<noteq> '''' \<Longrightarrow>
      kcPatch K \<lparr>rrAPIResource = SecretAPI, rrName = name, rrNamespace = ns\<rparr> (owner_patch owners) s = (r, s') \<Longrightarrow>
      view s' = set_owners (ns, name) owners (view s) \<or> r \<noteq> None \<and> view s' = view s"
    and get_job_missing: "kcGetJob K ns name s = (Inl e, s') \<Longrightarrow> errors_Is e ErrResourceNotFound \<Longrightarrow>
      cvJobs (view s) (ns, name) = None"
    and get_job_frame: "kcGetJob K ns name s = (r1, s') \<Longrightarrow> view s' = view s"
    and list_pods_frame: "kcListPods K ns sel s = (r2, s') \<Longrightarrow> view s' = view s"
    and get_logs_frame: "kcGetPodLogs K ns pod c tail s = (r3, s') \<Longrightarrow> view s' = view s"

text \<open>
  The same of the client libraries. The only condition that is not in the API reference of a
  single call is the one on creations: a creation that the server answers with the reason
  Conflict rather than AlreadyExists (for example a contended resource quota) is excluded by
  \<open>create_conflict\<close> here; \<open>JobRunner.Run\<close> takes both answers for an existing Job.
\<close>

locale api_server =
  fixes L :: "('s, 'u, 'r, 'e) client_libs"
    and A :: "('u, 'r) object_libs" and view :: "'s \<Rightarrow> 'u cluster_view"
  assumes create_ok: "dynCreate L (toGVR JobAPI) (Some ns) u s = (Inr u', s') \<Longrightarrow>
      cvJobs (view s) (ns, obj_GetName A u) = None \<and> obj_GetName A u' = obj_GetName A u \<and>
      view s' = (view s)\<lparr>cvJobs := (cvJobs (view s))((ns, obj_GetName A u) := Some u')\<rparr>"
    and create_conflict: "dynCreate L (toGVR JobAPI) (Some ns) u s = (Inl e, s') \<Longrightarrow>
      IsAlreadyExists L e \<or> IsConflict L e \<Longrightarrow>
      cvJobs (view s) (ns, obj_GetName A u) \<noteq> None \<and> view s' = view s"
    and create_fail: "dynCreate L (toGVR JobAPI) (Some ns) u s = (Inl e, s') \<Longrightarrow>
      cvSecrets (view s') = cvSecrets (view s) \<and>
      only_adds (ns, obj_GetName A u) (cvJobs (view s)) (cvJobs (view s'))"
    and create_secret_ok: "csCreateSecret L ns sec s = (Inr sec', s') \<Longrightarrow>
      cvSecrets (view s) (ns, secName sec) = None \<and>
      view s' = (view s)\<lparr>cvSecrets :=
        (cvSecrets (view s))((ns, secName sec) := Some (secret_content sec, []))\<rparr>"
    and create_secret_conflict: "csCreateSecret L ns sec s = (Inl e, s') \<Longrightarrow>
      IsAlreadyExists L e \<or> IsConflict L e \<Longrightarrow>
      cvSecrets (view s) (ns, secName sec) \<noteq> None \<and> view s' = view s"
    and create_secret_lost: "csCreateSecret L ns sec s = (Inl e, s') \<Longrightarrow>
      view s' = view s \<or> cvSecrets (view s) (ns, secName sec) = None \<and>
      view s' = (view s)\<lparr>cvSecrets :=
        (cvSecrets (view s))((ns, secName sec) := Some (secret_content sec, []))\<rparr>"
    and delete_ok: "dynDelete L (toGVR JobAPI) (Some ns) name s = (None, s') \<Longrightarrow>
      cvJobs (view s) (ns, name) \<noteq> None"
    and delete_missing: "dynDelete L (toGVR JobAPI) (Some ns) name s = (Some e, s') \<Longrightarrow>
      IsNotFound L e \<Longrightarrow> cvJobs (view s) (ns, name) = None \<and> view s' = view s"
    and delete_frame: "dynDelete L (toGVR JobAPI) (Some ns) name s = (r, s') \<Longrightarrow>
      cvSecrets (view s') = cvSecrets (view s) \<and>
      only_removes (ns, name) (cvJobs (view s)) (cvJobs (view s'))"
    and delete_secret_ok: "csDeleteSecret L ns name s = (None, s') \<Longrightarrow>
      cvSecrets (view s') (ns, name) = None"
    and delete_secret_missing: "csDeleteSecret L ns name s = (Some e, s') \<Longrightarrow>
      IsNotFound L e \<Longrightarrow> cvSecrets (view s) (ns, name) = None \<and> view s' = view s"
    and delete_secret_frame: "csDeleteSecret L ns name s = (r, s') \<Longrightarrow>
      cvJobs (view s') = cvJobs (view s) \<and>
      only_removes (ns, name) (cvSecrets (view s)) (cvSecrets (view s'))"
    and patch_owners: "marshal_patches (owner_patch owners) = Inr js \<Longrightarrow>
      dynPatch L (toGVR SecretAPI) (Some ns) name (JArr js) s = (r, s') \<Longrightarrow>
      view s' = set_owners (ns, name) owners (view s) \<or> r \<noteq> None \<and> view s' = view s"
    and get_job_missing: "csGetJob L ns name s = (Inl e, s') \<Longrightarrow> IsNotFound L e \<Longrightarrow>
      cvJobs (view s) (ns, name) = None"
    and get_job_frame: "csGetJob L ns name s = (r1, s') \<Longrightarrow> view s' = view s"
    and list_pods_frame: "csListPods L ns sel s = (r2, s') \<Longrightarrow> view s' = view s"
    and get_logs_frame: "csGetLogs L ns pod c tail s = (r3, s') \<Longrightarrow> view s' = view s"

lemma wrapped_conflict:
  "wrapped_sentinel L e = ErrResourceConflict \<longleftrightarrow>
     \<not> IsNotFound L e \<and> (IsAlreadyExists L e \<or> IsConflict L e)"
  by (simp add: wrapped_sentinel_def)

lemma wrapped_not_found: "wrapped_sentinel L e = ErrResourceNotFound \<longleftrightarrow> IsNotFound L e"
  by (simp add: wrapped_sentinel_def)

lemma marshal_owner_patch: "\<exists>js. marshal_patches (owner_patch owners) = Inr js"
  by (simp add: owner_patch_def K8sPatch_json_def)

sublocale api_server \<subseteq> store: job_store "kubernetesClientImpl L" A view
proof (unfold_locales, goal_cases)
  case (1 ns u s u' s')
  then show ?case using create_ok by (simp add: impl_sel impl_op_defs wrap_iffs ns_scope_def)
next
  case (2 ns u s e s')
  then show ?case using create_conflict
    by (auto simp: impl_sel impl_op_defs wrap_iffs ns_scope_def wrapped_conflict)
next
  case (3 ns u s e s')
  then show ?case using create_fail by (auto simp: impl_sel impl_op_defs wrap_iffs ns_scope_def)
next
  case (4 ns sec s sec' s')
  then show ?case using create_secret_ok by (simp add: impl_sel impl_op_defs wrap_iffs)
next
  case (5 ns sec s e s')
  then show ?case using create_secret_conflict
    by (auto simp: impl_sel impl_op_defs wrap_iffs wrapped_conflict)
next
  case (6 ns sec s e s')
  then obtain x where "csCreateSecret L ns sec s = (Inl x, s')"
    by (auto simp: impl_sel impl_op_defs wrap_iffs)
  then show ?case by (rule create_secret_lost)
next
  case (7 ns name s s')
  then show ?case using delete_ok by (simp add: impl_sel impl_op_defs wrap_iffs ns_scope_def)
next
  case (8 ns name s e s')
  then show ?case using delete_missing
    by (auto simp: impl_sel impl_op_defs wrap_iffs ns_scope_def wrapped_not_found)
next
  case (9 ns name s r s')
  obtain r0 s0 where d: "dynDelete L (toGVR JobAPI) (Some ns) name s = (r0, s0)" by force
  from 9 delete_frame [OF d] show ?case
    by (auto simp: impl_sel impl_op_defs ns_scope_def wrap_error_def d)
next
  case (10 ns name s s')
  then show ?case using delete_secret_ok by (simp add: impl_sel impl_op_defs wrap_iffs)
next
  case (11 ns name s e s')
  then show ?case using delete_secret_missing
    by (auto simp: impl_sel impl_op_defs wrap_iffs wrapped_not_found)
next
  case (12 ns name s r s')
  obtain r0 s0 where d: "csDeleteSecret L ns name s = (r0, s0)" by force
  from 12 delete_secret_frame [OF d] show ?case
    by (auto simp: impl_sel impl_op_defs wrap_error_def d)
next
  case (13 ns name owners s r s')
  obtain js where js: "marshal_patches (owner_patch owners) = Inr js"
    using marshal_owner_patch by blast
  obtain r0 s0 where "dynPatch L (toGVR SecretAPI) (Some ns) name (JArr js) s = (r0, s0)" by force
  with 13 js patch_owners [OF js this] show ?case
    by (auto simp: impl_sel Impl_Patch_def ns_scope_def wrap_error_def)
next
  case (14 ns name s e s')
  then show ?case using get_job_missing
    by (auto simp: impl_sel impl_op_defs wrap_iffs wrapped_not_found)
next
  case (15 ns name s r s')
  then show ?case using get_job_frame
    by (cases r) (auto simp: impl_sel impl_op_defs wrap_iffs)
next
  case (16 ns sel s r s')
  then show ?case using list_pods_frame
    by (cases r) (auto simp: impl_sel impl_op_defs wrap_iffs)
next
  case (17 ns pod c tail s r s')
  then show ?case using get_logs_frame
    by (cases r) (auto simp: impl_sel impl_op_defs wrap_iffs)
qed

context job_store
begin

lemma create_secret_fail:
  assumes "ns \<noteq> ''''" "kcCreateSecret K ns sec s = (Inl e, s')"
  shows "cvJobs (view s') = cvJobs (view s) \<and>
    only_adds (ns, secName sec) (cvSecrets (view s)) (cvSecrets (view s'))"
  using create_secret_lost [OF assms] by (auto simp: only_adds_insert)

end

definition mem_view :: "mem \<Rightarrow> unit Job cluster_view" where
  "mem_view s = \<lparr>cvJobs = mJobs s,
     cvSecrets = (\<lambda>k. map_option (\<lambda>(sec, owners). (secret_content sec, owners)) (mSecrets s k))\<rparr>"

lemma not_Some_pair: "\<forall>a b. x \<noteq> Some (a, b) \<Longrightarrow> x = None"
  by (cases x) auto

interpretation mem: api_server mem_libs mem_objects mem_view
proof (unfold_locales, goal_cases)
  case (13 owners js ns name s r s')
  have "map json_owner (map OwnerReference_json owners) = owners"
    by (induction owners) (simp_all add: OwnerReference_json_def)
  with 13 show ?case
    by (auto simp: mem_defs mem_view_def owner_patch_def K8sPatch_json_def set_owners_def fun_eq_iff
        comp_def split: option.splits)
next
  case (14 ns name s e s')
  then show ?case by (auto simp: mem_defs mem_view_def split: option.splits)
next
  case (15 ns name s r s')
  then show ?case by (auto simp: mem_defs split: option.splits)
qed (auto simp: mem_defs mem_view_def only_adds_def only_removes_def secret_content_def fun_eq_iff
    split: if_splits dest: not_Some_pair)

end
