(* ===== verification/JobDispatch.thy ===== *)
theory JobDispatch
  imports Cluster JobState "HOL-Library.Sublist"
begin

text \<open>
  Dispatching and removing Jobs (\<open>Run\<close>, \<open>Delete\<close>, \<open>Replace\<close>): the effect on the cluster, stated
  with the contract of Cluster, the order of the calls, and the errors. \<open>names_job\<close> says that the
  object built for a spec has the spec's name, which holds unless \<open>Customize\<close> renames the Job.
\<close>

definition names_job :: "('u, 'r) object_libs \<Rightarrow> 'r JobSpec \<Rightarrow> string \<Rightarrow> bool" where
  "names_job A spec ns \<longleftrightarrow>
     (case buildJob A spec ns of Inl e \<Rightarrow> True | Inr u \<Rightarrow> obj_GetName A u = jspName spec)"

lemma names_jobD: "names_job A spec ns \<Longrightarrow> buildJob A spec ns = Inr u \<Longrightarrow> obj_GetName A u = jspName spec"
  by (simp add: names_job_def)

subsection \<open>Owner references\<close>

lemma set_owners_simps [simp]:
  "cvJobs (set_owners k os v) = cvJobs v"
  "map_option fst (cvSecrets (set_owners k os v) k') = map_option fst (cvSecrets v k')"
  "k' \<noteq> k \<Longrightarrow> cvSecrets (set_owners k os v) k' = cvSecrets v k'"
  "cvSecrets (set_owners k os v) k' = None \<longleftrightarrow> cvSecrets v k' = None"
  by (auto simp: set_owners_def split: option.splits)

lemma cluster_view_eqI: "cvJobs v = cvJobs w \<Longrightarrow> cvSecrets v = cvSecrets w \<Longrightarrow> v = (w :: 'u cluster_view)"
  by simp

text \<open>Two secret maps with the same keys and the same data.\<close>

definition same_data :: "('k \<Rightarrow> ('d \<times> 'o) option) \<Rightarrow> ('k \<Rightarrow> ('d \<times> 'o) option) \<Rightarrow> bool" where
  "same_data m m' \<longleftrightarrow> (\<forall>k. map_option fst (m' k) = map_option fst (m k))"

lemma same_data_refl [simp]: "same_data m m"
  by (simp add: same_data_def)

lemma adoptSecret_eq:
  "adoptSecret K ns name uid s = snd (kcPatch K \<lparr>rrAPIResource = SecretAPI, rrName = name, rrNamespace = ns\<rparr>
     (owner_patch [\<lparr>orAPIVersion = ''batch/v1'', orKind = ''Job'', orName = name, orUID = uid\<rparr>]) s)"
  by (simp add: adoptSecret_def owner_patch_def Let_def)

context job_store
begin

lemma adoptSecret_view:
  assumes "ns \<noteq> ''''"
  shows "view (adoptSecret K ns name uid s) = view s \<or>
    view (adoptSecret K ns name uid s) = set_owners (ns, name)
      [\<lparr>orAPIVersion = ''batch/v1'', orKind = ''Job'', orName = name, orUID = uid\<rparr>] (view s)"
  unfolding adoptSecret_eq
  by (rule patch_owners [OF assms surjective_pairing, THEN disjE]) auto

lemma Run_create_effect:
  assumes ns: "ns \<noteq> ''''" and named: "names_job A spec ns"
    and run: "Run_create K A ns spec s = (r, s')"
  shows "only_adds (ns, jspName spec) (cvJobs (view s)) (cvJobs (view s'))"
    and "r = None \<Longrightarrow> cvJobs (view s') (ns, jspName spec) \<noteq> None"
    and "same_data (cvSecrets (view s)) (cvSecrets (view s'))"
    and "k \<noteq> (ns, jspName spec) \<Longrightarrow> cvSecrets (view s') k = cvSecrets (view s) k"
    and "cvJobs (view s) (ns, jspName spec) \<noteq> None \<Longrightarrow> view s' = view s"
proof -
  let ?P = "(ns, jspName spec)"
  have "only_adds ?P (cvJobs (view s)) (cvJobs (view s')) \<and>
    (r = None \<longrightarrow> cvJobs (view s') ?P \<noteq> None) \<and>
    same_data (cvSecrets (view s)) (cvSecrets (view s')) \<and>
    (\<forall>k. k \<noteq> ?P \<longrightarrow> cvSecrets (view s') k = cvSecrets (view s) k) \<and>
    (cvJobs (view s) ?P \<noteq> None \<longrightarrow> view s' = view s)"
  proof (cases "buildJob A spec ns")
    case (Inl e)
    with run show ?thesis by (auto simp: Run_create_def)
  next
    case (Inr u)
    note name = names_jobD [OF named Inr]
    obtain c s1 where c: "kcCreate K JobAPI ns u s = (c, s1)" by force
    show ?thesis
    proof (cases c)
      case (Inl e)
      note c' = c [unfolded Inl]
      have "s' = s1" using run \<open>buildJob A spec ns = Inr u\<close> c' by (auto simp: Run_create_def split: if_splits)
      moreover have "r = None \<Longrightarrow> errors_Is e ErrResourceConflict"
        using run \<open>buildJob A spec ns = Inr u\<close> c' by (auto simp: Run_create_def split: if_splits)
      ultimately show ?thesis
        using create_fail [OF ns c'] create_conflict [OF ns c'] name
        by (auto dest: only_adds_present intro!: cluster_view_eqI)
    next
      case (Inr u')
      note ok = create_ok [OF ns c [unfolded Inr]]
      have s': "s' = (if jspSecrets spec \<noteq> [] then adoptSecret K ns (jspName spec) (obj_GetUID A u') s1 else s1)"
        and "r = None"
        using run \<open>buildJob A spec ns = Inr u\<close> c Inr by (auto simp: Run_create_def split: if_splits)
      show ?thesis using ok name
          adoptSecret_view [OF ns, of "jspName spec" "obj_GetUID A u'" s1]
        unfolding s' by (auto simp: only_adds_insert same_data_def)
    qed
  qed
  then show "only_adds ?P (cvJobs (view s)) (cvJobs (view s'))"
    and "r = None \<Longrightarrow> cvJobs (view s') ?P \<noteq> None"
    and "same_data (cvSecrets (view s)) (cvSecrets (view s'))"
    and "k \<noteq> ?P \<Longrightarrow> cvSecrets (view s') k = cvSecrets (view s) k"
    and "cvJobs (view s) ?P \<noteq> None \<Longrightarrow> view s' = view s"
    by blast+
qed

text \<open>The first half of \<open>Run\<close>: the Secret. It stops the dispatch only on a real failure.\<close>

lemma Run_cases:
  assumes ns: "ns \<noteq> ''''" and run: "JobRunner_Run K A ns spec s = (r, s')"
  obtains (no_secret) "jspSecrets spec = []" "Run_create K A ns spec s = (r, s')"
    | (created) s1 where "jspSecrets spec \<noteq> []" "cvSecrets (view s) (ns, jspName spec) = None"
        "view s1 = (view s)\<lparr>cvSecrets := (cvSecrets (view s))
           ((ns, jspName spec) := Some (map_of (jspSecrets spec), []))\<rparr>"
        "Run_create K A ns spec s1 = (r, s')"
    | (present) s1 where "jspSecrets spec \<noteq> []" "cvSecrets (view s) (ns, jspName spec) \<noteq> None"
        "view s1 = view s" "Run_create K A ns spec s1 = (r, s')"
    | (failed) "jspSecrets spec \<noteq> []" "r \<noteq> None" "cvJobs (view s') = cvJobs (view s)"
        "only_adds (ns, jspName spec) (cvSecrets (view s)) (cvSecrets (view s'))"
proof (cases "jspSecrets spec = []")
  case True
  with run no_secret show ?thesis by (simp add: JobRunner_Run_def)
next
  case False
  let ?sec = "buildJobSecret spec ns"
  obtain c s1 where c: "kcCreateSecret K ns ?sec s = (c, s1)" by force
  have name: "secName ?sec = jspName spec" and data: "secret_content ?sec = map_of (jspSecrets spec)"
    by (simp_all add: buildJobSecret_def secret_content_def)
  show ?thesis
  proof (cases c)
    case (Inl e)
    show ?thesis
    proof (cases "errors_Is e ErrResourceConflict")
      case True
      with c Inl run False create_secret_conflict [OF ns c [unfolded Inl] True] present show ?thesis
        by (auto simp: JobRunner_Run_def name)
    next
      case nc: False
      with c Inl run False create_secret_fail [OF ns c [unfolded Inl]] failed show ?thesis
        by (auto simp: JobRunner_Run_def name)
    qed
  next
    case (Inr x)
    have "Run_create K A ns spec s1 = (r, s')" using c run False Inr by (simp add: JobRunner_Run_def)
    with create_secret_ok [OF ns c [unfolded Inr]] show ?thesis
      unfolding name data by (intro created False) simp_all
  qed
qed

lemma same_data_at: "same_data m m' \<Longrightarrow> map_option fst (m' k) = map_option fst (m k)"
  by (simp add: same_data_def)

text \<open>A Job that was not there and is there after \<open>Run\<close> comes from its one creation.\<close>

lemma Run_create_creates:
  assumes ns: "ns \<noteq> ''''" and run: "Run_create K A ns spec s = (r, s')"
    and new: "cvJobs (view s') \<noteq> cvJobs (view s)"
  obtains u c s2 where "buildJob A spec ns = Inr u" "kcCreate K JobAPI ns u s = (c, s2)"
    "cvJobs (view s') = cvJobs (view s2)"
proof (cases "buildJob A spec ns")
  case (Inl e)
  with run new show ?thesis by (auto simp: Run_create_def)
next
  case (Inr u)
  obtain c s2 where c: "kcCreate K JobAPI ns u s = (c, s2)" by force
  have "cvJobs (view s') = cvJobs (view s2)"
    using run Inr c adoptSecret_view [OF ns, of "jspName spec" _ s2]
    by (auto simp: Run_create_def split: sum.splits if_splits) (metis set_owners_simps(1))
  with Inr c show ?thesis by (rule that)
qed

lemma Run_creates:
  assumes ns: "ns \<noteq> ''''" and run: "JobRunner_Run K A ns spec s = (r, s')"
    and new: "cvJobs (view s') \<noteq> cvJobs (view s)"
  obtains u c s1 s2 where "buildJob A spec ns = Inr u" "kcCreate K JobAPI ns u s1 = (c, s2)"
    "cvJobs (view s1) = cvJobs (view s)" "cvJobs (view s') = cvJobs (view s2)"
proof -
  have "\<exists>s1. cvJobs (view s1) = cvJobs (view s) \<and> Run_create K A ns spec s1 = (r, s')"
    using ns run
  proof (cases rule: Run_cases)
    case (created s1)
    then show ?thesis by (intro exI [of _ s1]) simp
  next
    case (present s1)
    then show ?thesis by (intro exI [of _ s1]) simp
  qed (use new in auto)
  then obtain s1 where s1: "cvJobs (view s1) = cvJobs (view s)" "Run_create K A ns spec s1 = (r, s')" by blast
  show ?thesis by (rule Run_create_creates [OF ns s1(2)]) (use new s1(1) that in auto)
qed

lemma Run_effect:
  assumes ns: "ns \<noteq> ''''" and named: "names_job A spec ns"
    and run: "JobRunner_Run K A ns spec s = (r, s')"
  shows "only_adds (ns, jspName spec) (cvJobs (view s)) (cvJobs (view s'))"
    and "r = None \<Longrightarrow> cvJobs (view s') (ns, jspName spec) \<noteq> None"
    and "k \<noteq> (ns, jspName spec) \<Longrightarrow> cvSecrets (view s') k = cvSecrets (view s) k"
    and "cvSecrets (view s) (ns, jspName spec) = Some (d, os) \<Longrightarrow>
      map_option fst (cvSecrets (view s') (ns, jspName spec)) = Some d"
    and "r = None \<Longrightarrow> jspSecrets spec \<noteq> [] \<Longrightarrow> cvSecrets (view s) (ns, jspName spec) = None \<Longrightarrow>
      map_option fst (cvSecrets (view s') (ns, jspName spec)) = Some (map_of (jspSecrets spec))"
    and "cvJobs (view s) (ns, jspName spec) \<noteq> None \<Longrightarrow>
      jspSecrets spec = [] \<or> cvSecrets (view s) (ns, jspName spec) \<noteq> None \<Longrightarrow> view s' = view s"
    and "jspSecrets spec = [] \<Longrightarrow>
      map_option fst (cvSecrets (view s') (ns, jspName spec)) =
      map_option fst (cvSecrets (view s) (ns, jspName spec))"
proof -
  let ?P = "(ns, jspName spec)"
  have "only_adds ?P (cvJobs (view s)) (cvJobs (view s')) \<and>
    (r = None \<longrightarrow> cvJobs (view s') ?P \<noteq> None) \<and>
    (\<forall>k. k \<noteq> ?P \<longrightarrow> cvSecrets (view s') k = cvSecrets (view s) k) \<and>
    (cvSecrets (view s) ?P = Some (d, os) \<longrightarrow> map_option fst (cvSecrets (view s') ?P) = Some d) \<and>
    (r = None \<longrightarrow> jspSecrets spec \<noteq> [] \<longrightarrow> cvSecrets (view s) ?P = None \<longrightarrow>
      map_option fst (cvSecrets (view s') ?P) = Some (map_of (jspSecrets spec))) \<and>
    (cvJobs (view s) ?P \<noteq> None \<longrightarrow>
      jspSecrets spec = [] \<or> cvSecrets (view s) ?P \<noteq> None \<longrightarrow> view s' = view s) \<and>
    (jspSecrets spec = [] \<longrightarrow>
      map_option fst (cvSecrets (view s') ?P) = map_option fst (cvSecrets (view s) ?P))"
    using ns run
  proof (cases rule: Run_cases)
    case no_secret
    note eff = Run_create_effect [OF ns named no_secret(2)]
    show ?thesis using eff same_data_at [OF eff(3), of ?P] no_secret(1) by auto
  next
    case (created s1)
    note eff = Run_create_effect [OF ns named created(4)]
    show ?thesis using eff same_data_at [OF eff(3), of ?P] created(1-3) by auto
  next
    case (present s1)
    note eff = Run_create_effect [OF ns named present(4)]
    show ?thesis using eff same_data_at [OF eff(3), of ?P] present(1-3) by auto
  next
    case failed
    then show ?thesis
      using only_addsD [OF failed(4)] only_adds_present [OF failed(4)] by (auto intro!: cluster_view_eqI)
  qed
  then show "only_adds ?P (cvJobs (view s)) (cvJobs (view s'))"
    and "r = None \<Longrightarrow> cvJobs (view s') ?P \<noteq> None"
    and "k \<noteq> ?P \<Longrightarrow> cvSecrets (view s') k = cvSecrets (view s) k"
    and "cvSecrets (view s) ?P = Some (d, os) \<Longrightarrow> map_option fst (cvSecrets (view s') ?P) = Some d"
    and "r = None \<Longrightarrow> jspSecrets spec \<noteq> [] \<Longrightarrow> cvSecrets (view s) ?P = None \<Longrightarrow>
      map_option fst (cvSecrets (view s') ?P) = Some (map_of (jspSecrets spec))"
    and "cvJobs (view s) ?P \<noteq> None \<Longrightarrow>
      jspSecrets spec = [] \<or> cvSecrets (view s) ?P \<noteq> None \<Longrightarrow> view s' = view s"
    and "jspSecrets spec = [] \<Longrightarrow>
      map_option fst (cvSecrets (view s') ?P) = map_option fst (cvSecrets (view s) ?P)"
    by blast+
qed

text \<open>\<open>Delete\<close> removes the Secret unless the deletion of the Job itself failed.\<close>

lemma Delete_effect:
  assumes ns: "ns \<noteq> ''''" and del: "JobRunner_Delete K ns name s = (r, s')"
  shows "only_removes (ns, name) (cvJobs (view s)) (cvJobs (view s'))"
    and "only_removes (ns, name) (cvSecrets (view s)) (cvSecrets (view s'))"
    and "r = None \<Longrightarrow> cvSecrets (view s') (ns, name) = None"
proof -
  obtain r1 s1 where j: "kcDelete K \<lparr>rrAPIResource = JobAPI, rrName = name, rrNamespace = ns\<rparr> s = (r1, s1)"
    by force
  obtain r2 s2 where c: "kcDeleteSecret K ns name s1 = (r2, s2)" by force
  note jf = delete_frame [OF ns j] and cf = delete_secret_frame [OF ns c]
  have "r2 = None \<Longrightarrow> cvSecrets (view s2) (ns, name) = None"
    using delete_secret_ok [OF ns] c by simp
  moreover have "r2 = Some e \<Longrightarrow> errors_Is e ErrResourceNotFound \<Longrightarrow> cvSecrets (view s2) (ns, name) = None" for e
    using delete_secret_missing [OF ns] c by metis
  ultimately show "only_removes (ns, name) (cvJobs (view s)) (cvJobs (view s'))"
    and "only_removes (ns, name) (cvSecrets (view s)) (cvSecrets (view s'))"
    and "r = None \<Longrightarrow> cvSecrets (view s') (ns, name) = None"
    using del j c jf cf by (auto simp: JobRunner_Delete_def Let_def split: option.splits if_splits)
qed

lemma Replace_effect:
  assumes ns: "ns \<noteq> ''''" and named: "names_job A spec ns"
    and rep: "JobRunner_Replace K A ns spec s = (None, s')"
  shows "cvJobs (view s') (ns, jspName spec) \<noteq> None"
    and "map_option fst (cvSecrets (view s') (ns, jspName spec)) =
      (if jspSecrets spec = [] then None else Some (map_of (jspSecrets spec)))"
    and "k \<noteq> (ns, jspName spec) \<Longrightarrow>
      cvJobs (view s') k = cvJobs (view s) k \<and> cvSecrets (view s') k = cvSecrets (view s) k"
proof -
  obtain s1 where del: "JobRunner_Delete K ns (jspName spec) s = (None, s1)"
    and run: "JobRunner_Run K A ns spec s1 = (None, s')"
    using rep by (auto simp: JobRunner_Replace_def split: prod.splits option.splits)
  note d = Delete_effect [OF ns del] and e = Run_effect [OF ns named run]
  show "cvJobs (view s') (ns, jspName spec) \<noteq> None" using e(2) by simp
  show "map_option fst (cvSecrets (view s') (ns, jspName spec)) =
      (if jspSecrets spec = [] then None else Some (map_of (jspSecrets spec)))"
    using e(5,7) d(3) by auto
  show "cvJobs (view s') k = cvJobs (view s) k \<and> cvSecrets (view s') k = cvSecrets (view s) k"
    if "k \<noteq> (ns, jspName spec)"
    using only_addsD [OF e(1)] e(3) [OF that] only_removesD [OF d(1)] only_removesD [OF d(2)] that by simp
qed

end

subsection \<open>What the dispatch promises\<close>

context api_server
begin

lemma job_store_impl: "job_store (kubernetesClientImpl L) A view"
  by (rule store.job_store_axioms)

end

text \<open>The demonstration cluster holds a Secret of that name left by an earlier dispatch.\<close>

definition demo_stale :: mem where
  "demo_stale = mem_init\<lparr>mSecrets := [(''rg-1'', ''backup-b7'') \<mapsto>
     (buildJobSecret (demo_spec\<lparr>jspSecrets := [(''PGPASSWORD'', ''old'')]\<rparr>) ''rg-1'', [])]\<rparr>"

lemmas demo_run_defs = JobRunner_Run_def Run_create_def JobRunner_Delete_def JobRunner_Replace_def
  buildJob_def buildJobSecret_def adoptSecret_def mem_init_def demo_stale_def mem_view_def
  names_job_def K8sPatch_json_def secret_content_def wrapped_sentinel_def

text \<open>
  C1: When \<open>Run\<close> returns without error, a Job of the requested name is in the namespace; and,
  whatever \<open>Run\<close> returns, it changed nothing but the Job and the Secret of that name, did not
  replace a Job that was there, and did not touch the data of a Secret that was there.
\<close>
theorem Run_establishes_job:
  assumes "api_server L A view" "ns \<noteq> ''''" "names_job A spec ns"
    and "JobRunner_Run (kubernetesClientImpl L) A ns spec s = (r, s')"
  shows "(r = None \<longrightarrow> cvJobs (view s') (ns, jspName spec) \<noteq> None) \<and>
    only_adds (ns, jspName spec) (cvJobs (view s)) (cvJobs (view s')) \<and>
    (\<forall>k. k \<noteq> (ns, jspName spec) \<longrightarrow> cvSecrets (view s') k = cvSecrets (view s) k) \<and>
    (\<forall>d os. cvSecrets (view s) (ns, jspName spec) = Some (d, os) \<longrightarrow>
       map_option fst (cvSecrets (view s') (ns, jspName spec)) = Some d)"
  using job_store.Run_effect [OF api_server.job_store_impl [OF assms(1)] assms(2-4)] by blast

lemma demo_names: "names_job mem_objects demo_spec ''rg-1''"
  by (simp add: names_job_def buildJob_def mem_objects_def buildJobObject_def demo_spec_def Let_def)

lemma demo_Run: "fst (JobRunner_Run mem_client mem_objects ''rg-1'' demo_spec s) = None"
  if "s = mem_init \<or> s = demo_stale"
  using that by (auto simp: demo_run_defs mem_defs buildJobObject_def Let_def demo_spec_def)

lemma demo_runE: "s = mem_init \<or> s = demo_stale \<Longrightarrow>
  \<exists>s'. JobRunner_Run mem_client mem_objects ''rg-1'' demo_spec s = (None, s')"
  by (metis demo_Run prod.collapse)

theorem Run_establishes_job_witness:
  "\<exists>s'. JobRunner_Run mem_client mem_objects ''rg-1'' demo_spec mem_init = (None, s') \<and>
     cvJobs (mem_view s') (''rg-1'', ''backup-b7'') \<noteq> None"
proof -
  obtain s' where "JobRunner_Run mem_client mem_objects ''rg-1'' demo_spec mem_init = (None, s')"
    using demo_runE by blast
  from this Run_establishes_job [OF mem.api_server_axioms _ demo_names this] show ?thesis
    by (auto simp: demo_spec_def)
qed

text \<open>
  C7: Running the same spec again changes nothing: neither Jobs nor Secrets, nor their owner
  references, whatever the second call returns.
\<close>
theorem Run_idempotent:
  assumes "api_server L A view" "ns \<noteq> ''''" "names_job A spec ns"
    and "JobRunner_Run (kubernetesClientImpl L) A ns spec s = (None, s')"
  shows "view (snd (JobRunner_Run (kubernetesClientImpl L) A ns spec s')) = view s'"
proof -
  note store = api_server.job_store_impl [OF assms(1)]
  obtain r'' s'' where again: "JobRunner_Run (kubernetesClientImpl L) A ns spec s' = (r'', s'')" by force
  note first = job_store.Run_effect [OF store assms(2-4)]
  have "jspSecrets spec = [] \<or> cvSecrets (view s') (ns, jspName spec) \<noteq> None"
    using first(4,5) by (cases "cvSecrets (view s) (ns, jspName spec)") force+
  with job_store.Run_effect(6) [OF store assms(2,3) again] first(2) again show ?thesis by simp
qed

theorem Run_idempotent_witness:
  "\<exists>s'. JobRunner_Run mem_client mem_objects ''rg-1'' demo_spec mem_init = (None, s') \<and>
     mem_view (snd (JobRunner_Run mem_client mem_objects ''rg-1'' demo_spec s')) = mem_view s'"
proof -
  obtain s' where "JobRunner_Run mem_client mem_objects ''rg-1'' demo_spec mem_init = (None, s')"
    using demo_runE by blast
  from this Run_idempotent [OF mem.api_server_axioms _ demo_names this] show ?thesis by auto
qed

text \<open>
  \<open>Run\<close> takes a Secret of that name for its own: when one is there from an earlier dispatch,
  its values stay, and the new Job reads them instead of the ones in the spec.
\<close>
lemma Run_keeps_stale_secret:
  assumes "api_server L A view" "ns \<noteq> ''''" "names_job A spec ns"
    and "cvSecrets (view s) (ns, jspName spec) = Some (d, os)" "d \<noteq> map_of (jspSecrets spec)"
    and "JobRunner_Run (kubernetesClientImpl L) A ns spec s = (None, s')"
  shows "cvJobs (view s') (ns, jspName spec) \<noteq> None \<and>
    (\<exists>os'. cvSecrets (view s') (ns, jspName spec) = Some (d, os')) \<and>
    map_option fst (cvSecrets (view s') (ns, jspName spec)) \<noteq> Some (map_of (jspSecrets spec))"
  using job_store.Run_effect(2,4) [OF api_server.job_store_impl [OF assms(1)] assms(2,3,6)] assms(4,5)
  by force

text \<open>
  C12: When \<open>Replace\<close> returns without error, a Job of that name is in the namespace and the Secret
  holds exactly the spec's values, whatever was there before (no Secret is left when the spec has
  none); nothing else changed.
\<close>
theorem Replace_fresh:
  assumes "api_server L A view" "ns \<noteq> ''''" "names_job A spec ns"
    and "JobRunner_Replace (kubernetesClientImpl L) A ns spec s = (None, s')"
  shows "cvJobs (view s') (ns, jspName spec) \<noteq> None \<and>
    map_option fst (cvSecrets (view s') (ns, jspName spec)) =
      (if jspSecrets spec = [] then None else Some (map_of (jspSecrets spec))) \<and>
    (\<forall>k. k \<noteq> (ns, jspName spec) \<longrightarrow>
      cvJobs (view s') k = cvJobs (view s) k \<and> cvSecrets (view s') k = cvSecrets (view s) k)"
  using job_store.Replace_effect [OF api_server.job_store_impl [OF assms(1)] assms(2-4)] by blast

theorem Replace_fresh_witness:
  "\<exists>s'. JobRunner_Replace mem_client mem_objects ''rg-1'' demo_spec demo_stale = (None, s') \<and>
     map_option fst (cvSecrets (mem_view s') (''rg-1'', ''backup-b7'')) = Some (map_of [(''KEY'', ''s3cr3t'')])"
proof -
  have "fst (JobRunner_Replace mem_client mem_objects ''rg-1'' demo_spec demo_stale) = None"
    by (auto simp: demo_run_defs mem_defs buildJobObject_def Let_def demo_spec_def)
  then obtain s' where rep: "JobRunner_Replace mem_client mem_objects ''rg-1'' demo_spec demo_stale = (None, s')"
    by (metis prod.collapse)
  from Replace_fresh [OF mem.api_server_axioms _ demo_names rep] rep show ?thesis
    by (auto simp: demo_spec_def)
qed

text \<open>
  C16: \<open>Delete\<close> removes nothing but the Job and the Secret of that name, and when it returns
  without error the Secret is gone. (The Job may still be terminating.)
\<close>
theorem Delete_removes:
  assumes "api_server L A view" "ns \<noteq> ''''"
    and "JobRunner_Delete (kubernetesClientImpl L) ns name s = (r, s')"
  shows "only_removes (ns, name) (cvJobs (view s)) (cvJobs (view s')) \<and>
    only_removes (ns, name) (cvSecrets (view s)) (cvSecrets (view s')) \<and>
    (r = None \<longrightarrow> cvSecrets (view s') (ns, name) = None)"
  using job_store.Delete_effect [OF api_server.job_store_impl [OF assms(1)] assms(2,3)] by blast

theorem Delete_removes_witness:
  "\<exists>s'. JobRunner_Delete mem_client ''rg-1'' ''backup-b7'' demo_stale = (None, s') \<and>
     cvSecrets (mem_view s') (''rg-1'', ''backup-b7'') = None"
proof -
  have "fst (JobRunner_Delete mem_client ''rg-1'' ''backup-b7'' demo_stale) = None"
    by (auto simp: demo_run_defs mem_defs buildJobObject_def Let_def demo_spec_def)
  then obtain s' where "JobRunner_Delete mem_client ''rg-1'' ''backup-b7'' demo_stale = (None, s')"
    by (metis prod.collapse)
  from this Delete_removes [OF mem.api_server_axioms _ this] show ?thesis by auto
qed

end
