(* ===== verification/JobCalls.thy ===== *)
theory JobCalls
  imports JobDispatch
begin

text \<open>
  The order of the API calls of a \<open>JobRunner\<close> and the errors it returns. \<open>logged K\<close> is the client
  \<open>K\<close> with every call written down in front of its effect; it returns what \<open>K\<close> returns.
\<close>

datatype 'u kube_call =
    CallCreate APIResource string 'u
  | CallCreateSecret string Secret
  | CallPatch ResourceRef "K8sPatch list"
  | CallDelete ResourceRef
  | CallDeleteSecret string string
  | CallGet ResourceRef
  | CallList ListOptions
  | CallGetJob string string
  | CallListPods string string
  | CallGetPodLogs string string string int64
  | CallGetSecret string string

definition with_log :: "'u kube_call \<Rightarrow> ('s \<Rightarrow> 'a \<times> 's) \<Rightarrow> 's \<times> 'u kube_call list \<Rightarrow> 'a \<times> 's \<times> 'u kube_call list" where
  "with_log c f sl = (case f (fst sl) of (r, s') \<Rightarrow> (r, s', snd sl @ [c]))"

definition logged ::
  "('s, 'u, 'r) KubernetesClient \<Rightarrow> ('s \<times> 'u kube_call list, 'u, 'r) KubernetesClient" where
  "logged K =
     \<lparr>kcCreate = (\<lambda>api ns u. with_log (CallCreate api ns u) (kcCreate K api ns u)),
      kcGet = (\<lambda>ref. with_log (CallGet ref) (kcGet K ref)),
      kcList = (\<lambda>opts. with_log (CallList opts) (kcList K opts)),
      kcGetJob = (\<lambda>ns name. with_log (CallGetJob ns name) (kcGetJob K ns name)),
      kcListPods = (\<lambda>ns sel. with_log (CallListPods ns sel) (kcListPods K ns sel)),
      kcPatch = (\<lambda>ref ps. with_log (CallPatch ref ps) (kcPatch K ref ps)),
      kcDelete = (\<lambda>ref. with_log (CallDelete ref) (kcDelete K ref)),
      kcGetPodLogs = (\<lambda>ns pod c tail. with_log (CallGetPodLogs ns pod c tail) (kcGetPodLogs K ns pod c tail)),
      kcCreateSecret = (\<lambda>ns sec. with_log (CallCreateSecret ns sec) (kcCreateSecret K ns sec)),
      kcGetSecret = (\<lambda>ns name. with_log (CallGetSecret ns name) (kcGetSecret K ns name)),
      kcDeleteSecret = (\<lambda>ns name. with_log (CallDeleteSecret ns name) (kcDeleteSecret K ns name))\<rparr>"

lemma with_log_eq: "with_log c f (s, l) = (r, s', l') \<longleftrightarrow> f s = (r, s') \<and> l' = l @ [c]"
  by (auto simp: with_log_def split: prod.splits)

lemmas logged_sel = logged_def KubernetesClient.simps

text \<open>The calls of a full dispatch, in order.\<close>

definition owner_call :: "string \<Rightarrow> string \<Rightarrow> string \<Rightarrow> 'u kube_call" where
  "owner_call ns name uid = CallPatch \<lparr>rrAPIResource = SecretAPI, rrName = name, rrNamespace = ns\<rparr>
     (owner_patch [\<lparr>orAPIVersion = ''batch/v1'', orKind = ''Job'', orName = name, orUID = uid\<rparr>])"

definition create_script ::
  "('u, 'r) object_libs \<Rightarrow> string \<Rightarrow> 'r JobSpec \<Rightarrow> string \<Rightarrow> 'u kube_call list" where
  "create_script A ns spec uid =
     (case buildJob A spec ns of Inl e \<Rightarrow> []
      | Inr u \<Rightarrow> CallCreate JobAPI ns u #
          (if jspSecrets spec \<noteq> [] then [owner_call ns (jspName spec) uid] else []))"

definition dispatch_script ::
  "('u, 'r) object_libs \<Rightarrow> string \<Rightarrow> 'r JobSpec \<Rightarrow> string \<Rightarrow> 'u kube_call list" where
  "dispatch_script A ns spec uid =
     (if jspSecrets spec \<noteq> [] then [CallCreateSecret ns (buildJobSecret spec ns)] else []) @
     create_script A ns spec uid"

definition delete_script :: "string \<Rightarrow> string \<Rightarrow> 'u kube_call list" where
  "delete_script ns name =
     [CallDelete \<lparr>rrAPIResource = JobAPI, rrName = name, rrNamespace = ns\<rparr>, CallDeleteSecret ns name]"

lemma adoptSecret_logged:
  "adoptSecret (logged K) ns name uid (s, l) = (adoptSecret K ns name uid s, l @ [owner_call ns name uid])"
  by (simp add: adoptSecret_eq logged_sel with_log_def owner_call_def split: prod.splits)

lemma Run_create_logged:
  assumes "Run_create (logged K) A ns spec (s, l) = (r, s', l')"
  shows "Run_create K A ns spec s = (r, s') \<and> (\<exists>uid p. prefix p (create_script A ns spec uid) \<and> l' = l @ p)"
proof (cases "buildJob A spec ns")
  case (Inl e)
  with assms show ?thesis by (auto simp: Run_create_def create_script_def)
next
  case (Inr u)
  obtain c s1 where c: "kcCreate K JobAPI ns u s = (c, s1)" by force
  have "kcCreate (logged K) JobAPI ns u (s, l) = (c, s1, l @ [CallCreate JobAPI ns u])"
    using c by (simp add: logged_sel with_log_eq)
  with assms c Inr show ?thesis
    by (cases c) (fastforce simp: Run_create_def create_script_def adoptSecret_logged split: if_splits)+
qed

lemma Run_logged:
  assumes "JobRunner_Run (logged K) A ns spec (s, l) = (r, s', l')"
  shows "JobRunner_Run K A ns spec s = (r, s') \<and> (\<exists>uid p. prefix p (dispatch_script A ns spec uid) \<and> l' = l @ p)"
proof (cases "jspSecrets spec = []")
  case True
  with assms Run_create_logged [of K A ns spec s l r s' l'] show ?thesis
    by (simp add: JobRunner_Run_def dispatch_script_def)
next
  case False
  let ?c = "CallCreateSecret ns (buildJobSecret spec ns)"
  obtain c s1 where c: "kcCreateSecret K ns (buildJobSecret spec ns) s = (c, s1)" by force
  have lc: "kcCreateSecret (logged K) ns (buildJobSecret spec ns) (s, l) = (c, s1, l @ [?c])"
    using c by (simp add: logged_sel with_log_eq)
  show ?thesis
  proof (cases "\<exists>e. c = Inl e \<and> \<not> errors_Is e ErrResourceConflict")
    case True
    with assms c lc False show ?thesis
      by (auto simp: JobRunner_Run_def dispatch_script_def intro!: exI [of _ "[?c]"])
  next
    case go_on: False
    with assms lc False have "Run_create (logged K) A ns spec (s1, l @ [?c]) = (r, s', l')"
      by (auto simp: JobRunner_Run_def split: sum.splits if_splits)
    moreover have "JobRunner_Run K A ns spec s = Run_create K A ns spec s1"
      using go_on c False by (auto simp: JobRunner_Run_def split: sum.splits)
    ultimately show ?thesis
      using Run_create_logged [of K A ns spec s1 "l @ [?c]" r s' l'] False
      by (fastforce simp: dispatch_script_def)
  qed
qed

lemma Delete_logged:
  assumes "JobRunner_Delete (logged K) ns name (s, l) = (r, s', l')"
  shows "JobRunner_Delete K ns name s = (r, s') \<and>
    (\<exists>p. prefix p (delete_script ns name) \<and> l' = l @ p \<and> (r = None \<longrightarrow> p = delete_script ns name))"
proof -
  let ?ref = "\<lparr>rrAPIResource = JobAPI, rrName = name, rrNamespace = ns\<rparr>"
  obtain r1 s1 where j: "kcDelete K ?ref s = (r1, s1)" by force
  obtain r2 s2 where c: "kcDeleteSecret K ns name s1 = (r2, s2)" by force
  have "kcDelete (logged K) ?ref (s, l) = (r1, s1, l @ [CallDelete ?ref])"
    "kcDeleteSecret (logged K) ns name (s1, l @ [CallDelete ?ref]) =
      (r2, s2, l @ [CallDelete ?ref, CallDeleteSecret ns name])"
    using j c by (simp_all add: logged_sel with_log_eq)
  with assms j c show ?thesis
    by (auto simp: JobRunner_Delete_def Let_def delete_script_def split: option.splits if_splits)
qed

lemma Replace_logged:
  assumes "JobRunner_Replace (logged K) A ns spec (s, l) = (r, s', l')"
  shows "JobRunner_Replace K A ns spec s = (r, s') \<and>
    (\<exists>uid p. prefix p (delete_script ns (jspName spec) @ dispatch_script A ns spec uid) \<and> l' = l @ p)"
proof -
  obtain r1 s1 l1 where d: "JobRunner_Delete (logged K) ns (jspName spec) (s, l) = (r1, s1, l1)"
    using prod_cases3 by blast
  note del = Delete_logged [OF d]
  show ?thesis
  proof (cases r1)
    case None
    with assms d have "JobRunner_Run (logged K) A ns spec (s1, l1) = (r, s', l')"
      by (simp add: JobRunner_Replace_def)
    from Run_logged [OF this] del None show ?thesis
      by (fastforce simp: JobRunner_Replace_def)
  next
    case (Some e)
    with assms d del show ?thesis
      by (auto simp: JobRunner_Replace_def prefix_def)
  qed
qed

subsection \<open>The order of the calls\<close>

text \<open>
  C13: \<open>Run\<close> makes its calls in one order and stops early or not at all: the Secret, then the Job,
  then the owner reference on the Secret, the Secret calls only when the spec has secrets; so no
  Job is created before the Secret its containers read from. \<open>Replace\<close> deletes the Job, then the
  Secret, and only then dispatches in the same order. Logging the calls changes nothing of what
  they return or do.
\<close>
theorem dispatch_call_order:
  "(\<exists>r s' uid p. JobRunner_Run (logged K) A ns spec (s, []) = (r, s', p) \<and>
     JobRunner_Run K A ns spec s = (r, s') \<and> prefix p (dispatch_script A ns spec uid)) \<and>
   (\<exists>r s' uid p. JobRunner_Replace (logged K) A ns spec (s, []) = (r, s', p) \<and>
     JobRunner_Replace K A ns spec s = (r, s') \<and>
     prefix p (delete_script ns (jspName spec) @ dispatch_script A ns spec uid))"
proof -
  obtain r s' l where run: "JobRunner_Run (logged K) A ns spec (s, []) = (r, s', l)"
    using prod_cases3 by blast
  obtain q t' m where rep: "JobRunner_Replace (logged K) A ns spec (s, []) = (q, t', m)"
    using prod_cases3 by blast
  from Run_logged [OF run] Replace_logged [OF rep] run rep show ?thesis by auto
qed

subsection \<open>The calls of a poll\<close>

definition log_calls :: "string \<Rightarrow> Pod list \<Rightarrow> 'u kube_call list" where
  "log_calls ns pods = map (\<lambda>p. CallGetPodLogs ns (podName p) jobContainerName failureLogTailLines) pods"

lemma first_logs_logged:
  assumes "first_logs (logged K) ns pods (s, l) = (x, s', l')"
  shows "first_logs K ns pods s = (x, s') \<and> (\<exists>q. prefix q (log_calls ns pods) \<and> l' = l @ q)"
  using assms
proof (induction pods arbitrary: s l)
  case Nil
  then show ?case by simp
next
  case (Cons pod pods)
  let ?c = "CallGetPodLogs ns (podName pod) jobContainerName failureLogTailLines"
  obtain c s1 where c: "kcGetPodLogs K ns (podName pod) jobContainerName failureLogTailLines s = (c, s1)" by force
  have lc: "kcGetPodLogs (logged K) ns (podName pod) jobContainerName failureLogTailLines (s, l) = (c, s1, l @ [?c])"
    using c by (simp add: logged_sel with_log_eq)
  show ?case
  proof (cases "\<exists>t. c = Inr t \<and> t \<noteq> ''''")
    case True
    with Cons.prems c lc show ?thesis
      by (auto simp: log_calls_def intro!: exI [of _ "[?c]"])
  next
    case False
    with Cons.prems lc have "first_logs (logged K) ns pods (s1, l @ [?c]) = (x, s', l')"
      by (auto split: sum.splits if_splits)
    from Cons.IH [OF this] obtain q where "first_logs K ns pods s1 = (x, s')"
      "prefix q (log_calls ns pods)" "l' = l @ ?c # q" by auto
    with False c show ?thesis
      by (auto simp: log_calls_def split: sum.splits intro!: exI [of _ "?c # q"])
  qed
qed

lemma failedPodLogs_logged:
  assumes "failedPodLogs (logged K) sort_Slice ns name (s, l) = (x, s', l')"
  shows "failedPodLogs K sort_Slice ns name s = (x, s') \<and>
    (\<exists>q. l' = l @ CallListPods ns (''job-name='' @ name) # q \<and>
      (case fst (kcListPods K ns (''job-name='' @ name) s) of
        Inl e \<Rightarrow> q = [] | Inr pods \<Rightarrow> prefix q (log_calls ns (sort_Slice newer pods))))"
proof -
  obtain c s1 where c: "kcListPods K ns (''job-name='' @ name) s = (c, s1)" by force
  have lc: "kcListPods (logged K) ns (''job-name='' @ name) (s, l) =
      (c, s1, l @ [CallListPods ns (''job-name='' @ name)])"
    using c by (simp add: logged_sel with_log_eq)
  from assms c lc show ?thesis
    by (cases c) (auto simp: failedPodLogs_def dest!: first_logs_logged)
qed

lemma log_calls_length:
  "slice_sort sort_Slice \<Longrightarrow> prefix q (log_calls ns (sort_Slice newer pods)) \<Longrightarrow> length q \<le> length pods"
  using mset_eq_length [OF slice_sort.sort_Slice_perm, of sort_Slice newer pods]
  by (auto simp: log_calls_def dest!: prefix_length_le)

definition failed_state :: "'r Job \<Rightarrow> string \<Rightarrow> JobState" where
  "failed_state job logs =
     \<lparr>jstPhase = JobFailed, jstStartedAt = timePtr (jsStartTime (jobStatus job)),
      jstFinishedAt = (case timePtr (jsCompletionTime (jobStatus job)) of
         None \<Rightarrow> conditionTime job JobFailedCondition | Some t \<Rightarrow> Some t),
      jstReason = (if logs = '''' then conditionMessage job JobFailedCondition
        else conditionMessage job JobFailedCondition @ '': '' @ logs)\<rparr>"

lemma failed_state_phase [simp]: "jstPhase (failed_state job logs) = JobFailed"
  by (simp add: failed_state_def)

lemma State_failed:
  assumes "kcGetJob K ns name s = (Inr job, s1)"
    and "jobConditionTrue job JobFailedCondition" "\<not> jobConditionTrue job JobComplete"
  shows "JobRunner_State K sort_Slice ns name s =
    (case failedPodLogs K sort_Slice (jobNamespace job) (jobName job) s1 of
       (logs, s') \<Rightarrow> (Inr (failed_state job logs), s'))"
  using assms by (simp add: State_found failureReason_eq failed_state_def split: prod.splits)

text \<open>
  C14: A poll makes few calls and only reads. It asks for the Job, and unless the Job failed for nothing
  else; of a failed one it lists the pods and reads their logs, newest first, each pod at most once,
  so never more than two calls and one for each pod; without the list it reads no logs. Logging the
  calls changes nothing of what they return or do.
\<close>
theorem State_calls:
  assumes "slice_sort sort_Slice"
    and "JobRunner_State (logged K) sort_Slice ns name (s, []) = (r, s', p)"
  shows "JobRunner_State K sort_Slice ns name s = (r, s') \<and>
    (p = [CallGetJob ns name] \<and> (\<forall>st. r = Inr st \<longrightarrow> jstPhase st \<noteq> JobFailed) \<or>
     (\<exists>st job s1 q. r = Inr st \<and> jstPhase st = JobFailed \<and> kcGetJob K ns name s = (Inr job, s1) \<and>
        p = [CallGetJob ns name, CallListPods (jobNamespace job) (''job-name='' @ jobName job)] @ q \<and>
        (case fst (kcListPods K (jobNamespace job) (''job-name='' @ jobName job) s1) of
           Inl e \<Rightarrow> q = []
         | Inr pods \<Rightarrow> prefix q (log_calls (jobNamespace job) (sort_Slice newer pods)) \<and> length q \<le> length pods)))"
proof -
  obtain c s1 where c: "kcGetJob K ns name s = (c, s1)" by force
  have lc: "kcGetJob (logged K) ns name (s, []) = (c, s1, [CallGetJob ns name])"
    using c by (simp add: logged_sel with_log_eq)
  show ?thesis
  proof (cases "\<exists>job. c = Inr job \<and> jobConditionTrue job JobFailedCondition \<and> \<not> jobConditionTrue job JobComplete")
    case False
    then show ?thesis using assms(2) c lc
      by (cases c) (auto simp: State_missing State_found split: if_splits)
  next
    case True
    then obtain job where job: "c = Inr job" and failed: "jobConditionTrue job JobFailedCondition"
      "\<not> jobConditionTrue job JobComplete" by blast
    obtain x t l where logs: "failedPodLogs (logged K) sort_Slice (jobNamespace job) (jobName job)
        (s1, [CallGetJob ns name]) = (x, t, l)" using prod_cases3 by blast
    from failedPodLogs_logged [OF logs] obtain q where plain:
      "failedPodLogs K sort_Slice (jobNamespace job) (jobName job) s1 = (x, t)"
      and l: "l = [CallGetJob ns name, CallListPods (jobNamespace job) (''job-name='' @ jobName job)] @ q"
      and q: "case fst (kcListPods K (jobNamespace job) (''job-name='' @ jobName job) s1) of
        Inl e \<Rightarrow> q = [] | Inr pods \<Rightarrow> prefix q (log_calls (jobNamespace job) (sort_Slice newer pods))"
      by auto
    have st: "r = Inr (failed_state job x)" "s' = t" "p = l"
      "JobRunner_State K sort_Slice ns name s = (Inr (failed_state job x), t)"
      using assms(2) State_failed [OF lc [unfolded job] failed, of sort_Slice] logs
        State_failed [OF c [unfolded job] failed, of sort_Slice] plain by simp_all
    have "case fst (kcListPods K (jobNamespace job) (''job-name='' @ jobName job) s1) of Inl e \<Rightarrow> q = []
      | Inr pods \<Rightarrow> prefix q (log_calls (jobNamespace job) (sort_Slice newer pods)) \<and> length q \<le> length pods"
      using q log_calls_length [OF assms(1)] by (fastforce split: sum.splits)
    with st l c job failed_state_phase [of job x] show ?thesis by blast
  qed
qed

theorem State_calls_witness:
  "\<exists>r s' p. JobRunner_State (logged mem_client) insertionSort ''rg-1'' ''backup-b7'' (demo_failed, []) = (r, s', p) \<and>
     (\<exists>q. p = [CallGetJob ''rg-1'' ''backup-b7'', CallListPods ''rg-1'' ''job-name=backup-b7''] @ q \<and> length q \<le> 3)"
proof -
  obtain r s' p where run: "JobRunner_State (logged mem_client) insertionSort ''rg-1'' ''backup-b7'' (demo_failed, []) = (r, s', p)"
    using prod_cases3 by blast
  have get: "kcGetJob mem_client ''rg-1'' ''backup-b7'' demo_failed = (Inr demo_failed_job, demo_failed)"
    "fst (kcListPods mem_client ''rg-1'' ''job-name=backup-b7'' demo_failed) = Inr (mPods demo_failed)"
    "jobNamespace demo_failed_job = ''rg-1''" "jobName demo_failed_job = ''backup-b7''" "length (mPods demo_failed) = 3"
    by (simp_all add: mem_defs demo_failed_def demo_failed_job_def buildJobObject_def demo_spec_def)
  from State_calls [OF go_sort.slice_sort_axioms run] run demo_failed_State get show ?thesis by auto
qed

subsection \<open>The errors\<close>

context kube_client
begin

lemma buildJob_infra: "buildJob A spec ns = Inl e \<Longrightarrow> infra_error e"
  by (auto simp: buildJob_def split: sum.splits)

lemma Run_create_infra: "Run_create K A ns spec s = (Some e, s') \<Longrightarrow> infra_error e"
  by (auto simp: Run_create_def dest: buildJob_infra client_infra split: sum.splits prod.splits if_splits)

lemma Run_infra: "JobRunner_Run K A ns spec s = (Some e, s') \<Longrightarrow> infra_error e"
  by (auto simp: JobRunner_Run_def dest: Run_create_infra client_infra split: sum.splits prod.splits if_splits)

lemma Delete_infra: "JobRunner_Delete K ns name s = (Some e, s') \<Longrightarrow> infra_error e"
  by (auto simp: JobRunner_Delete_def Let_def dest: client_infra split: option.splits prod.splits if_splits)

lemma Replace_infra: "JobRunner_Replace K A ns spec s = (Some e, s') \<Longrightarrow> infra_error e"
  by (auto simp: JobRunner_Replace_def dest: Run_infra Delete_infra split: option.splits prod.splits)

lemma State_infra: "JobRunner_State K sort_Slice ns name s = (Inl e, s') \<Longrightarrow> infra_error e"
  by (auto simp: JobRunner_State_def Let_def dest: client_infra split: sum.splits prod.splits if_splits)

end

text \<open>No error a \<open>JobRunner\<close> returns carries a domain sentinel.\<close>

lemma runner_errors_infra:
  assumes "fst (JobRunner_Run (kubernetesClientImpl L) A ns spec s) = Some e \<or>
    fst (JobRunner_Replace (kubernetesClientImpl L) A ns spec s) = Some e \<or>
    fst (JobRunner_Delete (kubernetesClientImpl L) ns name s) = Some e \<or>
    fst (JobRunner_State (kubernetesClientImpl L) sort_Slice ns name s) = Inl e"
  shows "infra_error e"
  using assms impl.Run_infra impl.Replace_infra impl.Delete_infra impl.State_infra
  by (metis prod.collapse)

end
