(* ===== verification/ServiceJob.thy ===== *)
theory ServiceJob
  imports JobCalls
begin

text \<open>
  The package provider, files \<open>provider/servicejob.go\<close> and \<open>provider/backupjob.go\<close>: the naming and
  labelling conventions of detached operations, and the status they report, derived from the
  state of a Job.
\<close>

definition JobOpBackup :: string where "JobOpBackup = ''backup''"
definition JobOpDeleteBackup :: string where "JobOpDeleteBackup = ''delete-backup''"
definition JobOpRestore :: string where "JobOpRestore = ''restore''"

definition operationKeyLabels :: "(string, string) go_map" where
  "operationKeyLabels = [(JobOpBackup, BackupIDLabel), (JobOpDeleteBackup, BackupIDLabel)]"

record 'r ServiceJob =
  sjOperation :: string
  sjMsID :: string
  sjKey :: string
  sjImage :: string
  sjCommand :: "string list"
  sjEnv :: "(string, string) go_map"
  sjSecrets :: "(string, string) go_map"
  sjLabels :: "(string, string) go_map"
  sjImagePullSecrets :: "string list"
  sjResources :: 'r

definition ServiceJobName :: "string \<Rightarrow> string \<Rightarrow> string" where
  "ServiceJobName operation key = operation @ ''-'' @ key"

text \<open>A lookup of a missing key gives the zero value, the empty string.\<close>

definition ServiceJobSpec :: "'r ServiceJob \<Rightarrow> 'r JobSpec" where
  "ServiceJobSpec j =
     (let labels = maps_Copy [] (sjLabels j);
          labels = AList.update ServiceIDLabel (sjMsID j) labels;
          keyLabel = (case map_of operationKeyLabels (sjOperation j) of None \<Rightarrow> '''' | Some l \<Rightarrow> l);
          labels = (if keyLabel \<noteq> '''' then AList.update keyLabel (sjKey j) labels else labels)
      in \<lparr>jspName = ServiceJobName (sjOperation j) (sjKey j), jspImage = sjImage j,
          jspCommand = sjCommand j, jspArgs = [], jspEnv = sjEnv j, jspSecrets = sjSecrets j,
          jspLabels = labels, jspImagePullSecrets = sjImagePullSecrets j, jspTimeout = 0, jspTTL = 0,
          jspBackoffLimit = None, jspResources = sjResources j, jspCustomize = None\<rparr>)"

subsection \<open>Status of an operation\<close>

datatype OperationPhase =
    OperationPhasePending | OperationPhaseRunning | OperationPhaseCompleted | OperationPhaseFailed

fun OperationPhase_text :: "OperationPhase \<Rightarrow> string" where
  "OperationPhase_text OperationPhasePending = ''pending''"
| "OperationPhase_text OperationPhaseRunning = ''running''"
| "OperationPhase_text OperationPhaseCompleted = ''completed''"
| "OperationPhase_text OperationPhaseFailed = ''failed''"

record OperationStatus =
  osPhase :: OperationPhase
  osStartedAt :: string
  osCompletedAt :: string
  osError :: string

definition OperationStatus_json :: "OperationStatus \<Rightarrow> json" where
  "OperationStatus_json st =
     JObj ([(''phase'', JStr (OperationPhase_text (osPhase st)))] @
       field_str_omitempty ''startedAt'' (osStartedAt st) @
       field_str_omitempty ''completedAt'' (osCompletedAt st) @
       field_str_omitempty ''error'' (osError st))"

definition formatTime :: "go_time option \<Rightarrow> string" where
  "formatTime t = (case t of None \<Rightarrow> '''' | Some t' \<Rightarrow> Format_RFC3339 t')"

definition OperationStatusFromJob :: "JobState \<Rightarrow> OperationStatus" where
  "OperationStatusFromJob s =
     (let status = \<lparr>osPhase = OperationPhasePending, osStartedAt = formatTime (jstStartedAt s),
            osCompletedAt = formatTime (jstFinishedAt s), osError = ''''\<rparr>
      in case jstPhase s of
           JobRunning \<Rightarrow> status\<lparr>osPhase := OperationPhaseRunning\<rparr>
         | JobSucceeded \<Rightarrow> status\<lparr>osPhase := OperationPhaseCompleted\<rparr>
         | JobFailed \<Rightarrow> status\<lparr>osPhase := OperationPhaseFailed, osError := jstReason s\<rparr>
         | _ \<Rightarrow> status)"

subsection \<open>Backups\<close>

definition BackupJobName :: "BackupId \<Rightarrow> string" where
  "BackupJobName backupID = ServiceJobName JobOpBackup backupID"

definition DeleteBackupJobName :: "BackupId \<Rightarrow> string" where
  "DeleteBackupJobName backupID = ServiceJobName JobOpDeleteBackup backupID"

definition BackupStatusFromJob :: "JobState \<Rightarrow> BackupStatus" where
  "BackupStatusFromJob s =
     (let status = \<lparr>bsExists = (jstPhase s = JobSucceeded), bsError = ''''\<rparr>
      in if jstPhase s = JobFailed then status\<lparr>bsError := jstReason s\<rparr> else status)"

subsection \<open>Names and labels\<close>

lemmas job_op_defs = JobOpBackup_def JobOpDeleteBackup_def JobOpRestore_def

lemma ServiceJobSpec_sel [simp]:
  "jspName (ServiceJobSpec j) = ServiceJobName (sjOperation j) (sjKey j)"
  "jspSecrets (ServiceJobSpec j) = sjSecrets j" "jspEnv (ServiceJobSpec j) = sjEnv j"
  "jspCustomize (ServiceJobSpec j) = None"
  by (simp_all add: ServiceJobSpec_def Let_def)

lemma operationKeyLabels_simps [simp]:
  "map_of operationKeyLabels op =
     (if op = JobOpBackup \<or> op = JobOpDeleteBackup then Some BackupIDLabel else None)"
  by (auto simp: operationKeyLabels_def)

lemma BackupIDLabel_nonempty [simp]: "BackupIDLabel \<noteq> ''''"
  by (simp add: BackupIDLabel_def)

lemma ServiceJobSpec_labels:
  assumes "go_map_ok (sjLabels j)"
  shows "map_of (jspLabels (ServiceJobSpec j)) =
    (map_of (sjLabels j))(ServiceIDLabel \<mapsto> sjMsID j) ++
    (if sjOperation j = JobOpBackup \<or> sjOperation j = JobOpDeleteBackup
     then [BackupIDLabel \<mapsto> sjKey j] else Map.empty)"
  using assms by (simp add: ServiceJobSpec_def Let_def map_of_maps_Copy)

text \<open>
  C27: The Job of a service, its pods and its Secret all carry the service ID and, for the backup
  operations, the backup ID, whatever labels the caller asked for; every other label is the caller's.
\<close>
theorem identity_labels_win:
  assumes "go_map_ok (sjLabels j)"
    and "labels \<in> {jobLabels (buildJobObject (ServiceJobSpec j) ns),
      bjTemplateLabels (jobSpec (buildJobObject (ServiceJobSpec j) ns)), secLabels (buildJobSecret (ServiceJobSpec j) ns)}"
  shows "map_of labels ServiceIDLabel = Some (sjMsID j) \<and>
    (sjOperation j \<in> {JobOpBackup, JobOpDeleteBackup} \<longrightarrow> map_of labels BackupIDLabel = Some (sjKey j)) \<and>
    (\<forall>l. l \<noteq> ServiceIDLabel \<and> (l = BackupIDLabel \<longrightarrow> sjOperation j \<notin> {JobOpBackup, JobOpDeleteBackup}) \<longrightarrow>
       map_of labels l = map_of (sjLabels j) l)"
proof -
  have "labels = jspLabels (ServiceJobSpec j)"
    using assms(2) by (auto simp: buildJobObject_def buildJobSecret_def Let_def)
  then show ?thesis
    using labels_distinct by (auto simp: ServiceJobSpec_labels [OF assms(1)] map_add_def)
qed

definition demo_job :: "unit ServiceJob" where
  "demo_job = \<lparr>sjOperation = JobOpBackup, sjMsID = ''ms-1'', sjKey = ''b7'', sjImage = ''img:1'',
     sjCommand = [''/backup''], sjEnv = [(''A'', ''1'')], sjSecrets = [(''KEY'', ''s3cr3t'')],
     sjLabels = [(ServiceIDLabel, ''forged''), (''app'', ''pg'')], sjImagePullSecrets = [], sjResources = ()\<rparr>"

lemma demo_job_labels_ok: "go_map_ok (sjLabels demo_job)"
  by (simp add: demo_job_def ServiceIDLabel_def LabelPrefix_def)

theorem identity_labels_win_witness:
  "map_of (jobLabels (buildJobObject (ServiceJobSpec demo_job) ''rg-1'')) ServiceIDLabel = Some ''ms-1''"
  using identity_labels_win [OF demo_job_labels_ok, of _ "''rg-1''"] by (simp add: demo_job_def)

text \<open>
  Two Jobs of the library's own operations share a name only when operation and key agree, so
  a backup, the deletion of a backup and a restore never take each other's Job (or Secret) for
  their own.
\<close>
lemma ServiceJobName_inj:
  assumes "op \<in> {JobOpBackup, JobOpDeleteBackup, JobOpRestore}"
    and "op' \<in> {JobOpBackup, JobOpDeleteBackup, JobOpRestore}"
    and "ServiceJobName op key = ServiceJobName op' key'"
  shows "op = op' \<and> key = key'"
  using assms by (auto simp: ServiceJobName_def job_op_defs)

text \<open>
  The convention does not separate an operation of the provider's own from the library's: an
  operation \<open>delete\<close> with the key \<open>backup-b\<close> has the name of the deletion of the backup \<open>b\<close>.
\<close>
lemma ServiceJobName_collision:
  "ServiceJobName ''delete'' (BackupJobName b) = DeleteBackupJobName b \<and> ''delete'' \<noteq> JobOpDeleteBackup"
  by (simp add: ServiceJobName_def BackupJobName_def DeleteBackupJobName_def job_op_defs)

subsection \<open>Dispatching an operation and polling it\<close>

sublocale job_store \<subseteq> quiet: quiet_reads K view
  by unfold_locales (fact get_job_frame list_pods_frame get_logs_frame)+

context job_store
begin

lemmas State_frame = quiet.State_quiet

lemma State_not_found:
  assumes "JobRunner_State K sort_Slice ns name s = (Inr st, s')" "jstPhase st = JobNotFound"
  shows "cvJobs (view s) (ns, name) = None"
  using assms(1)
proof (cases rule: State_cases)
  case (missing e)
  then show ?thesis by (blast dest: get_job_missing)
qed (use assms(2) in blast)

end

text \<open>The converter of apimachinery keeps the name of the object.\<close>

definition converter_ok :: "('u, 'r) object_libs \<Rightarrow> bool" where
  "converter_ok A \<longleftrightarrow> (\<forall>j u. ToUnstructured A j = Inr u \<longrightarrow> obj_GetName A u = jobName j)"

lemma ServiceJobSpec_names:
  "converter_ok A \<Longrightarrow> names_job A (ServiceJobSpec j) ns"
  by (auto simp: names_job_def converter_ok_def buildJob_def buildJobObject_def Let_def split: sum.splits)

lemma demo_converter: "converter_ok mem_objects"
  by (simp add: converter_ok_def mem_objects_def)

text \<open>
  Reading the state of a Job changes neither Jobs nor Secrets, and after a dispatch that
  returned without error a read that succeeds never reports the operation as not found.
\<close>
lemma dispatched_is_found:
  assumes "api_server L A view" "ns \<noteq> ''''" "converter_ok A"
    and "JobRunner_Run (kubernetesClientImpl L) A ns (ServiceJobSpec j) s = (None, s1)"
    and "JobRunner_State (kubernetesClientImpl L) sort_Slice ns
           (ServiceJobName (sjOperation j) (sjKey j)) s1 = (r, s2)"
  shows "view s2 = view s1 \<and> (\<forall>st. r = Inr st \<longrightarrow> jstPhase st \<noteq> JobNotFound)"
proof -
  note store = api_server.job_store_impl [OF assms(1)]
  have "cvJobs (view s1) (ns, ServiceJobName (sjOperation j) (sjKey j)) \<noteq> None"
    using job_store.Run_effect(2) [OF store assms(2) ServiceJobSpec_names [OF assms(3)] assms(4)] by simp
  then show ?thesis
    using job_store.State_frame [OF store assms(5)]
      job_store.State_not_found [OF store, of sort_Slice ns "ServiceJobName (sjOperation j) (sjKey j)" s1 _ s2]
      assms(5) by auto
qed

subsection \<open>Reported status\<close>

lemma formatTime_empty [simp]: "formatTime t = '''' \<longleftrightarrow> t = None"
  by (auto simp: formatTime_def Format_RFC3339_def Let_def split: option.splits prod.splits)

text \<open>
  The status of a backup read from its Job: the backup exists exactly when the Job succeeded,
  there is an error exactly when it failed, and the \<open>error\<close> field of the response is present in
  that case only.
\<close>
lemma backup_status_exact:
  assumes "JobRunner_State K sort_Slice ns (BackupJobName b) s = (Inr st, s')"
  shows "(bsExists (BackupStatusFromJob st) \<longleftrightarrow> jstPhase st = JobSucceeded) \<and>
    (bsError (BackupStatusFromJob st) \<noteq> '''' \<longleftrightarrow> jstPhase st = JobFailed) \<and>
    (json_field (BackupStatus_json (BackupStatusFromJob st)) ''error'' \<noteq> None \<longleftrightarrow> jstPhase st = JobFailed)"
  using State_reason(1) [OF assms]
  by (auto simp: BackupStatusFromJob_def Let_def BackupStatus_json_def field_str_omitempty_def)

text \<open>
  The times of a Job that a status shows: when it started, and when it ended, which for a failed Job
  without a completion time is the first time its Failed condition has; the zero time is none. And
  a field that shows a time, as an RFC 3339 stamp of its second, or is absent.
\<close>

definition shown_time :: "go_time option \<Rightarrow> go_time option" where
  "shown_time t = (if t = Some zero_time then None else t)"

definition ended_at :: "'r Job \<Rightarrow> go_time option" where
  "ended_at job = (case shown_time (jsCompletionTime (jobStatus job)) of
      Some t \<Rightarrow> Some t
    | None \<Rightarrow> if phase_of job = JobFailed then failed_at job else None)"

definition tells_time :: "json option \<Rightarrow> go_time option \<Rightarrow> bool" where
  "tells_time f t \<longleftrightarrow> (case t of None \<Rightarrow> f = None
    | Some t' \<Rightarrow> \<exists>x. f = Some (JStr x) \<and> rfc3339 x (t' div 10 ^ 9))"

fun phase_text :: "JobPhase \<Rightarrow> string" where
  "phase_text JobNotFound = ''pending''"
| "phase_text JobPending = ''pending''"
| "phase_text JobRunning = ''running''"
| "phase_text JobSucceeded = ''completed''"
| "phase_text JobFailed = ''failed''"

lemma timePtr_eq: "timePtr t = shown_time t"
  by (auto simp: timePtr_def shown_time_def time_IsZero_def split: option.splits)

lemma OperationStatusFromJob_fields:
  "OperationStatusFromJob st = \<lparr>osPhase = osPhase (OperationStatusFromJob st),
     osStartedAt = formatTime (jstStartedAt st), osCompletedAt = formatTime (jstFinishedAt st),
     osError = (if jstPhase st = JobFailed then jstReason st else '''')\<rparr>"
  "OperationPhase_text (osPhase (OperationStatusFromJob st)) = phase_text (jstPhase st)"
  by (simp_all add: OperationStatusFromJob_def Let_def split: JobPhase.splits)

lemma OperationStatus_json_fields:
  "json_field (OperationStatus_json os) ''phase'' = Some (JStr (OperationPhase_text (osPhase os)))"
  "json_field (OperationStatus_json os) ''startedAt'' = (if osStartedAt os = '''' then None else Some (JStr (osStartedAt os)))"
  "json_field (OperationStatus_json os) ''completedAt'' = (if osCompletedAt os = '''' then None else Some (JStr (osCompletedAt os)))"
  "json_field (OperationStatus_json os) ''error'' = (if osError os = '''' then None else Some (JStr (osError os)))"
  by (simp_all add: OperationStatus_json_def field_str_omitempty_def)

lemma tells_formatTime: "tells_time (if formatTime t = '''' then None else Some (JStr (formatTime t))) t"
proof (cases t)
  case (Some t')
  then have "formatTime t = Format_RFC3339 t'" "formatTime t \<noteq> ''''"
    by (simp add: formatTime_def, subst formatTime_empty, simp)
  with Some rfc3339_Format [of t'] show ?thesis by (simp add: tells_time_def)
qed (simp add: tells_time_def)

lemma operation_status_document:
  "json_field (OperationStatus_json (OperationStatusFromJob st)) ''phase'' = Some (JStr (phase_text (jstPhase st)))"
  "tells_time (json_field (OperationStatus_json (OperationStatusFromJob st)) ''startedAt'') (jstStartedAt st)"
  "tells_time (json_field (OperationStatus_json (OperationStatusFromJob st)) ''completedAt'') (jstFinishedAt st)"
  "json_field (OperationStatus_json (OperationStatusFromJob st)) ''error'' =
     (if jstPhase st = JobFailed \<and> jstReason st \<noteq> '''' then Some (JStr (jstReason st)) else None)"
proof -
  note fields = OperationStatusFromJob_fields(1) [of st]
  have sel: "osStartedAt (OperationStatusFromJob st) = formatTime (jstStartedAt st)"
    "osCompletedAt (OperationStatusFromJob st) = formatTime (jstFinishedAt st)"
    "osError (OperationStatusFromJob st) = (if jstPhase st = JobFailed then jstReason st else '''')"
    by (subst fields, simp)+
  show "json_field (OperationStatus_json (OperationStatusFromJob st)) ''phase'' = Some (JStr (phase_text (jstPhase st)))"
    by (simp only: OperationStatus_json_fields(1) OperationStatusFromJob_fields(2))
  show "tells_time (json_field (OperationStatus_json (OperationStatusFromJob st)) ''startedAt'') (jstStartedAt st)"
    "tells_time (json_field (OperationStatus_json (OperationStatusFromJob st)) ''completedAt'') (jstFinishedAt st)"
    unfolding OperationStatus_json_fields sel by (rule tells_formatTime)+
  show "json_field (OperationStatus_json (OperationStatusFromJob st)) ''error'' =
     (if jstPhase st = JobFailed \<and> jstReason st \<noteq> '''' then Some (JStr (jstReason st)) else None)"
    unfolding OperationStatus_json_fields sel by simp
qed

text \<open>
  C34: The status document of an operation, from a poll of its Job on any API server. If the read
  found the Job, \<open>phase\<close> is completed, failed, running or pending exactly as the conditions and the
  active pods of that Job say; \<open>startedAt\<close> and \<open>completedAt\<close> are the RFC 3339 stamps, in UTC and exact
  to the second, of the times it started and ended, or absent if it has none; \<open>error\<close> is the failure
  reason, which is not empty, if the Job has failed, and absent otherwise. If the server says that
  there is no such Job, the document has the phase pending and nothing else, so it can not be told
  from that of a Job that has not started.
\<close>
theorem operation_status_faithful:
  assumes "JobRunner_State (kubernetesClientImpl L) sort_Slice ns name s = (Inr st, s')"
  shows "case csGetJob L ns name s of
      (Inl e, s1) \<Rightarrow> IsNotFound L e \<and>
        OperationStatus_json (OperationStatusFromJob st) = JObj [(''phase'', JStr ''pending'')]
    | (Inr job, s1) \<Rightarrow>
        json_field (OperationStatus_json (OperationStatusFromJob st)) ''phase'' = Some (JStr (phase_text (phase_of job))) \<and>
        tells_time (json_field (OperationStatus_json (OperationStatusFromJob st)) ''startedAt'')
          (shown_time (jsStartTime (jobStatus job))) \<and>
        tells_time (json_field (OperationStatus_json (OperationStatusFromJob st)) ''completedAt'') (ended_at job) \<and>
        json_field (OperationStatus_json (OperationStatusFromJob st)) ''error'' =
          (if phase_of job = JobFailed
           then Some (JStr (fst (failureReason (kubernetesClientImpl L) sort_Slice job s1))) else None) \<and>
        fst (failureReason (kubernetesClientImpl L) sort_Slice job s1) \<noteq> ''''"
proof -
  obtain r s1 where get: "csGetJob L ns name s = (r, s1)" by force
  show ?thesis
  proof (cases r)
    case (Inl e)
    with assms get have "IsNotFound L e"
      "st = \<lparr>jstPhase = JobNotFound, jstStartedAt = None, jstFinishedAt = None, jstReason = ''''\<rparr>"
      by (auto simp: State_phase split: if_splits)
    with get Inl show ?thesis
      by (simp add: OperationStatusFromJob_def OperationStatus_json_def field_str_omitempty_def formatTime_def)
  next
    case (Inr job)
    have reason: "fst (failureReason K sort_Slice job s1) \<noteq> ''''" for K :: "('a, 'b, 'c) KubernetesClient"
      by (simp add: failureReason_eq split: prod.splits)
    have get': "kcGetJob (kubernetesClientImpl L) ns name s = (Inr job, s1)"
      using get Inr by (simp add: impl_sel Impl_GetJob_def wrap_result_def)
    have st: "jstPhase st = phase_of job" "jstStartedAt st = shown_time (jsStartTime (jobStatus job))"
      "jstFinishedAt st = ended_at job"
      "jstReason st = (if phase_of job = JobFailed then fst (failureReason (kubernetesClientImpl L) sort_Slice job s1) else '''')"
      using assms unfolding State_found [OF get']
      by (auto simp: phase_of_eq ended_at_def conditionTime_eq timePtr_eq split: if_splits option.splits)
    show ?thesis unfolding get Inr prod.case sum.case
      using operation_status_document [of st, unfolded st] reason by auto
  qed
qed

text \<open>A failed Job of the in-memory server, and the document of its operation.\<close>

theorem operation_status_faithful_witness:
  "\<exists>st s'. JobRunner_State mem_client insertionSort ''rg-1'' ''backup-b7'' demo_failed = (Inr st, s') \<and>
     json_field (OperationStatus_json (OperationStatusFromJob st)) ''phase'' = Some (JStr ''failed'') \<and>
     tells_time (json_field (OperationStatus_json (OperationStatusFromJob st)) ''startedAt'') (Some 5) \<and>
     tells_time (json_field (OperationStatus_json (OperationStatusFromJob st)) ''completedAt'') (Some 9)"
proof -
  have get: "csGetJob mem_libs ''rg-1'' ''backup-b7'' demo_failed = (Inr demo_failed_job, demo_failed)"
    by (simp add: demo_failed_def mem_defs)
  then have get': "kcGetJob mem_client ''rg-1'' ''backup-b7'' demo_failed = (Inr demo_failed_job, demo_failed)"
    by (simp add: impl_sel Impl_GetJob_def wrap_result_def)
  have job: "phase_of demo_failed_job = JobFailed" "ended_at demo_failed_job = Some 9"
    "shown_time (jsStartTime (jobStatus demo_failed_job)) = Some 5"
    by (simp_all add: demo_failed_job_def phase_of_def condition_status_def ended_at_def failed_at_def
        shown_time_def zero_time_def)
  obtain st s' where poll: "JobRunner_State mem_client insertionSort ''rg-1'' ''backup-b7'' demo_failed = (Inr st, s')"
    using State_found [OF get', of insertionSort] by (auto split: if_splits)
  from operation_status_faithful [OF poll] have
    "json_field (OperationStatus_json (OperationStatusFromJob st)) ''phase'' = Some (JStr ''failed'')"
    "tells_time (json_field (OperationStatus_json (OperationStatusFromJob st)) ''startedAt'') (Some 5)"
    "tells_time (json_field (OperationStatus_json (OperationStatusFromJob st)) ''completedAt'') (Some 9)"
    by (simp_all add: get job)
  with poll show ?thesis by (intro exI [of _ st] exI [of _ s'] conjI)
qed

end
