(* ===== verification/Base.thy ===== *)
theory Base
  imports ServiceJob "HOL-Library.Signed_Division"
begin

text \<open>
  The package provider, file \<open>provider/base.go\<close>: what concrete providers embed. A \<open>Base\<close> holds the
  Kubernetes client and a job runner on the same client. The logger it carries is used by
  no method here and is left out. \<open>resource.ParseQuantity\<close> is a parameter.
\<close>

record ('s, 'u, 'r) Base =
  bK8sClient :: "('s, 'u, 'r) KubernetesClient"
  bJobs :: "('s, 'u, 'r) JobRunner"

definition DefaultPausedReplicas :: int where "DefaultPausedReplicas = 1"

definition NewBase :: "('s, 'u, 'r) KubernetesClient \<Rightarrow> ('s, 'u, 'r) Base" where
  "NewBase k8sClient = \<lparr>bK8sClient = k8sClient, bJobs = NewJobRunner k8sClient\<rparr>"

definition NamespaceForTeam :: "int \<Rightarrow> string" where
  "NamespaceForTeam teamID = ''rg-'' @ fmt_d teamID"

definition service_selector :: "string \<Rightarrow> ServiceID \<Rightarrow> string" where
  "service_selector providerType sid =
     ProviderLabel @ ''='' @ providerType @ '','' @ ServiceIDLabel @ ''='' @ sid"

definition FindServiceNamespace ::
  "('s, 'u, 'r) Base \<Rightarrow> ('u, 'r) object_libs \<Rightarrow> APIResource \<Rightarrow> string \<Rightarrow> ServiceID \<Rightarrow> 's \<Rightarrow>
   (go_error, string, 's) result" where
  "FindServiceNamespace p A api providerType sid s =
     (case kcList (bK8sClient p)
             \<lparr>loAPIResource = api, loNamespace = '''',
              loLabelSelector = service_selector providerType sid, loFieldSelector = ''''\<rparr> s of
        (Inl e, s') \<Rightarrow> (Inl (ErrWrap (''failed to find service '' @ sid @ '': '') e ''''), s')
      | (Inr [], s') \<Rightarrow> (Inl (ErrWrap '''' (ErrSentinel ErrServiceNotFound) ('': '' @ sid)), s')
      | (Inr (item # _), s') \<Rightarrow> (Inr (obj_GetNamespace A item), s'))"

definition buildSecret ::
  "string \<Rightarrow> string \<Rightarrow> (string, string) go_map \<Rightarrow> (string, string) go_map \<Rightarrow> Secret" where
  "buildSecret namespace name data labels =
     \<lparr>secName = name, secNamespace = namespace, secLabels = labels, secType = '''',
      secStringData = [], secData = data\<rparr>"

definition Base_CreateSecret ::
  "('s, 'u, 'r) Base \<Rightarrow> string \<Rightarrow> string \<Rightarrow> (string, string) go_map \<Rightarrow> (string, string) go_map \<Rightarrow> 's \<Rightarrow>
   go_error option \<times> 's" where
  "Base_CreateSecret p namespace name data labels s =
     (case kcCreateSecret (bK8sClient p) namespace (buildSecret namespace name data labels) s of
        (Inl e, s') \<Rightarrow> (Some (ErrWrap (''failed to create secret '' @ name @ '': '') e ''''), s')
      | (Inr _, s') \<Rightarrow> (None, s'))"

definition Base_DeleteSecret ::
  "('s, 'u, 'r) Base \<Rightarrow> string \<Rightarrow> string \<Rightarrow> 's \<Rightarrow> go_error option \<times> 's" where
  "Base_DeleteSecret p namespace name s =
     (case kcDeleteSecret (bK8sClient p) namespace name s of
        (Some e, s') \<Rightarrow>
          if \<not> errors_Is e ErrResourceNotFound
          then (Some (ErrWrap (''failed to delete secret '' @ name @ '': '') e ''''), s')
          else (None, s')
      | (None, s') \<Rightarrow> (None, s'))"

definition GetResourceRef :: "APIResource \<Rightarrow> string \<Rightarrow> string \<Rightarrow> ResourceRef" where
  "GetResourceRef api name namespace =
     \<lparr>rrAPIResource = api, rrName = name, rrNamespace = namespace\<rparr>"

fun service_ids :: "('u, 'r) object_libs \<Rightarrow> 'u list \<Rightarrow> string list" where
  "service_ids A [] = []"
| "service_ids A (item # items) =
     (case obj_GetLabels A item of
        None \<Rightarrow> service_ids A items
      | Some labels \<Rightarrow> (case map_of labels ServiceIDLabel of
            None \<Rightarrow> service_ids A items
          | Some sid \<Rightarrow> sid # service_ids A items))"

definition ListByLabel ::
  "('s, 'u, 'r) Base \<Rightarrow> ('u, 'r) object_libs \<Rightarrow> APIResource \<Rightarrow> string \<Rightarrow> 's \<Rightarrow>
   (go_error, string list, 's) result" where
  "ListByLabel p A api labelSelector s =
     (case kcList (bK8sClient p)
             \<lparr>loAPIResource = api, loNamespace = '''', loLabelSelector = labelSelector,
              loFieldSelector = ''''\<rparr> s of
        (Inl e, s') \<Rightarrow> (Inl (ErrWrap ''failed to list resources: '' e ''''), s')
      | (Inr items, s') \<Rightarrow> (Inr (service_ids A items), s'))"

definition ReplicasFromAnnotation :: "(string, string) go_map \<Rightarrow> string \<Rightarrow> int" where
  "ReplicasFromAnnotation annotations key =
     (case map_of annotations key of
        None \<Rightarrow> DefaultPausedReplicas
      | Some replicasStr \<Rightarrow> (case strconv_Atoi replicasStr of
            None \<Rightarrow> DefaultPausedReplicas | Some replicas \<Rightarrow> replicas))"

definition StoredReplicas ::
  "('s, 'u, 'r) Base \<Rightarrow> ('u, 'r) object_libs \<Rightarrow> ResourceRef \<Rightarrow> string \<Rightarrow> 's \<Rightarrow>
   (go_error, int, 's) result" where
  "StoredReplicas p A ref annotationKey s =
     (case kcGet (bK8sClient p) ref s of
        (Inl e, s') \<Rightarrow> (Inl e, s')
      | (Inr obj, s') \<Rightarrow> (Inr (ReplicasFromAnnotation (obj_GetAnnotations A obj) annotationKey), s'))"

definition EscapeJSONPointer :: "string \<Rightarrow> string" where
  "EscapeJSONPointer s =
     strings_ReplaceByte (strings_ReplaceByte s CHR ''~'' ''~0'') CHR ''/'' ''~1''"

text \<open>\<open>q.Value()\<close> is an int64; Go's division truncates toward zero.\<close>

definition ParseSizeMiB :: "(string \<Rightarrow> string + int64) \<Rightarrow> string \<Rightarrow> int" where
  "ParseSizeMiB ParseQuantity s =
     (if s = '''' then 0
      else (case ParseQuantity s of Inl _ \<Rightarrow> 0 | Inr q \<Rightarrow> sint q sdiv (1024 * 1024)))"

subsection \<open>JSON pointers\<close>

lemma EscapeJSONPointer_simps [simp]:
  "EscapeJSONPointer [] = []"
  "EscapeJSONPointer (c # s) =
     (if c = CHR ''~'' then ''~0'' else if c = CHR ''/'' then ''~1'' else [c]) @ EscapeJSONPointer s"
  by (simp_all add: EscapeJSONPointer_def)

lemma unescape_EscapeJSONPointer: "unescape_token (EscapeJSONPointer s) = s"
  by (induction s) (auto simp: unescape_plain)

lemma EscapeJSONPointer_no_slash: "CHR ''/'' \<notin> set (EscapeJSONPointer s)"
  by (induction s) auto

text \<open>
  A key escaped with \<open>EscapeJSONPointer\<close> and put at the end of a path is one reference token, and it
  denotes the key, whatever bytes the key has.
\<close>
lemma EscapeJSONPointer_appended:
  "pointer_tokens (path @ ''/'' @ EscapeJSONPointer key) = pointer_tokens path @ [key]"
  by (simp add: pointer_tokens_append EscapeJSONPointer_no_slash unescape_EscapeJSONPointer
      del: EscapeJSONPointer_simps)

subsection \<open>Names and numbers\<close>

text \<open>
  Teams never share a namespace, and a namespace name is never empty, so a call scoped by it is
  never cluster-wide.
\<close>
lemma NamespaceForTeam_inj:
  "(NamespaceForTeam a = NamespaceForTeam b \<longleftrightarrow> a = b) \<and>
   ns_scope (NamespaceForTeam a) = Some (''rg-'' @ fmt_d a)"
  by (auto simp: NamespaceForTeam_def ns_scope_def dest: fmt_d_inj)

text \<open>
  \<open>ParseSizeMiB\<close> rounds toward zero to whole MiB and loses less than one MiB; a text that is
  empty or no quantity gives 0; the result stays below \<open>2 ^ 43\<close> in absolute value.
\<close>
lemma ParseSizeMiB_truncates:
  "(\<forall>q. s \<noteq> '''' \<and> ParseQuantity s = Inr q \<longrightarrow>
     \<bar>sint q - 2 ^ 20 * ParseSizeMiB ParseQuantity s\<bar> < 2 ^ 20 \<and>
     2 ^ 20 * \<bar>ParseSizeMiB ParseQuantity s\<bar> \<le> \<bar>sint q\<bar> \<and> \<bar>ParseSizeMiB ParseQuantity s\<bar> \<le> 2 ^ 43) \<and>
   (s = '''' \<or> (\<exists>e. ParseQuantity s = Inl e) \<longrightarrow> ParseSizeMiB ParseQuantity s = 0)"
proof -
  have "\<bar>x - 2 ^ 20 * (x sdiv 2 ^ 20)\<bar> < 2 ^ 20 \<and> 2 ^ 20 * \<bar>x sdiv 2 ^ 20\<bar> \<le> \<bar>x\<bar> \<and> \<bar>x sdiv 2 ^ 20\<bar> \<le> 2 ^ 43"
    if "\<bar>x\<bar> \<le> 2 ^ 63" for x :: int
    using that by (auto simp: signed_divide_int_def sgn_if abs_if)
  moreover have "\<bar>sint q\<bar> \<le> 2 ^ 63" for q :: int64
    using sint_int64_bounds [of q] by linarith
  ultimately show ?thesis by (auto simp: ParseSizeMiB_def)
qed

subsection \<open>Secrets and lookups\<close>

lemma secret_content_buildSecret [simp]: "secret_content (buildSecret ns name d labels) = map_of d"
  by (simp add: secret_content_def buildSecret_def)

lemma secName_buildSecret [simp]: "secName (buildSecret ns name d labels) = name"
  by (simp add: buildSecret_def)

context job_store
begin

lemma Base_CreateSecret_effect:
  assumes "ns \<noteq> ''''" "Base_CreateSecret (NewBase K) ns name d labels s = (r, s')"
  shows "cvJobs (view s') = cvJobs (view s)"
    and "only_adds (ns, name) (cvSecrets (view s)) (cvSecrets (view s'))"
    and "r = None \<Longrightarrow> cvSecrets (view s) (ns, name) = None \<and>
      cvSecrets (view s') (ns, name) = Some (map_of d, [])"
proof -
  let ?sec = "buildSecret ns name d labels"
  obtain c s1 where c: "kcCreateSecret K ns ?sec s = (c, s1)" by force
  have s': "s' = s1" and r: "r = None \<longleftrightarrow> (\<exists>x. c = Inr x)"
    using assms(2) c by (auto simp: Base_CreateSecret_def NewBase_def split: sum.splits)
  have ok: "view s' = (view s)\<lparr>cvSecrets := (cvSecrets (view s))((ns, name) := Some (map_of d, []))\<rparr> \<and>
      cvSecrets (view s) (ns, name) = None" if "r = None"
    using that r c s' create_secret_ok [OF assms(1)] by fastforce
  have fail: "cvJobs (view s') = cvJobs (view s) \<and>
      only_adds (ns, name) (cvSecrets (view s)) (cvSecrets (view s'))" if "c = Inl e" for e
    using create_secret_fail [OF assms(1) c [unfolded that]] s' by simp
  show "cvJobs (view s') = cvJobs (view s)"
    and "only_adds (ns, name) (cvSecrets (view s)) (cvSecrets (view s'))"
    using ok fail r by (cases c; simp add: only_adds_insert)+
  show "cvSecrets (view s) (ns, name) = None \<and> cvSecrets (view s') (ns, name) = Some (map_of d, [])"
    if "r = None" using ok [OF that] by simp
qed

lemma Base_DeleteSecret_effect:
  assumes "ns \<noteq> ''''" "Base_DeleteSecret (NewBase K) ns name s = (r, s')"
  shows "cvJobs (view s') = cvJobs (view s)"
    and "only_removes (ns, name) (cvSecrets (view s)) (cvSecrets (view s'))"
    and "r = None \<Longrightarrow> cvSecrets (view s') (ns, name) = None"
proof -
  obtain c s1 where c: "kcDeleteSecret K ns name s = (c, s1)" by force
  note frame = delete_secret_frame [OF assms(1) c]
  have "s' = s1" using assms(2) c
    by (auto simp: Base_DeleteSecret_def NewBase_def split: option.splits if_splits)
  with frame show "cvJobs (view s') = cvJobs (view s)"
    and "only_removes (ns, name) (cvSecrets (view s)) (cvSecrets (view s'))" by simp_all
  show "cvSecrets (view s') (ns, name) = None" if "r = None"
  proof (cases c)
    case None
    with delete_secret_ok [OF assms(1) c [unfolded None]] \<open>s' = s1\<close> show ?thesis by simp
  next
    case (Some e)
    with assms(2) c that have "errors_Is e ErrResourceNotFound"
      by (auto simp: Base_DeleteSecret_def NewBase_def split: if_splits)
    with delete_secret_missing [OF assms(1) c [unfolded Some]] \<open>s' = s1\<close> show ?thesis by simp
  qed
qed

end

text \<open>
  C31: \<open>CreateSecret\<close> returns without error only when it made the Secret with exactly the given
  data, and never overwrites one; \<open>DeleteSecret\<close> returns without error only when the Secret is
  gone, and treats a missing one as deleted. Neither touches anything else.
\<close>
theorem Base_secret_lifecycle:
  assumes "api_server L A view" "ns \<noteq> ''''"
    and "Base_CreateSecret (NewBase (kubernetesClientImpl L)) ns name d labels s = (r, s')"
    and "Base_DeleteSecret (NewBase (kubernetesClientImpl L)) ns name t = (q, t')"
  shows "only_adds (ns, name) (cvSecrets (view s)) (cvSecrets (view s')) \<and> cvJobs (view s') = cvJobs (view s) \<and>
    (r = None \<longrightarrow> cvSecrets (view s) (ns, name) = None \<and>
       cvSecrets (view s') (ns, name) = Some (map_of d, [])) \<and>
    only_removes (ns, name) (cvSecrets (view t)) (cvSecrets (view t')) \<and> cvJobs (view t') = cvJobs (view t) \<and>
    (q = None \<longrightarrow> cvSecrets (view t') (ns, name) = None)"
  using job_store.Base_CreateSecret_effect [OF api_server.job_store_impl [OF assms(1)] assms(2,3)]
    job_store.Base_DeleteSecret_effect [OF api_server.job_store_impl [OF assms(1)] assms(2,4)]
  by blast

theorem Base_secret_lifecycle_witness:
  "\<exists>s' t'. Base_CreateSecret (NewBase mem_client) ''rg-1'' ''db'' [(''pw'', ''x'')] [] mem_init = (None, s') \<and>
     cvSecrets (mem_view s') (''rg-1'', ''db'') = Some (map_of [(''pw'', ''x'')], []) \<and>
     Base_DeleteSecret (NewBase mem_client) ''rg-1'' ''db'' s' = (None, t') \<and>
     cvSecrets (mem_view t') (''rg-1'', ''db'') = None"
proof -
  let ?p = "NewBase mem_client"
  define s' where "s' = snd (Base_CreateSecret ?p ''rg-1'' ''db'' [(''pw'', ''x'')] [] mem_init)"
  define t' where "t' = snd (Base_DeleteSecret ?p ''rg-1'' ''db'' s')"
  have c: "Base_CreateSecret ?p ''rg-1'' ''db'' [(''pw'', ''x'')] [] mem_init = (None, s')"
    by (simp add: s'_def Base_CreateSecret_def NewBase_def mem_defs mem_init_def)
  have d: "Base_DeleteSecret ?p ''rg-1'' ''db'' s' = (None, t')"
    by (simp add: t'_def s'_def Base_DeleteSecret_def Base_CreateSecret_def NewBase_def mem_defs mem_init_def
        buildSecret_def)
  from Base_secret_lifecycle [OF mem.api_server_axioms _ c d] c d show ?thesis by auto
qed

text \<open>
  A service is reported as not found exactly when the cluster-wide listing worked and was empty; a
  failing listing gives an infrastructure error instead.
\<close>
lemma FindServiceNamespace_not_found:
  assumes "fst (FindServiceNamespace (NewBase (kubernetesClientImpl L)) A api providerType sid s) = Inl e"
  shows "(errors_Is e ErrServiceNotFound \<longleftrightarrow>
      fst (dynList L (toGVR api) None (service_selector providerType sid) '''' s) = Inr []) \<and>
    (\<not> errors_Is e ErrServiceNotFound \<longrightarrow> infra_error e)"
proof -
  obtain r s1 where l: "dynList L (toGVR api) None (service_selector providerType sid) '''' s = (r, s1)"
    by force
  show ?thesis
  proof (cases r)
    case (Inl x)
    have "infra_error (wrapK8sError L x)" by (rule classified_as_infra [OF classified_wrapK8sError])
    with assms l Inl show ?thesis
      by (auto simp: FindServiceNamespace_def NewBase_def impl_sel Impl_List_def ns_scope_def
          wrap_result_def infra_error_def domain_sentinels_def)
  next
    case (Inr items)
    with assms l show ?thesis
      by (cases items) (auto simp: FindServiceNamespace_def NewBase_def impl_sel Impl_List_def
          ns_scope_def wrap_result_def)
  qed
qed

end
