(* ===== verification/GoUtf8.thy ===== *)
theory GoUtf8
  imports Prelude
begin

text \<open>
  Go's conversions \<open>[]rune(s)\<close> and \<open>string(runes)\<close>. A Go string is a byte sequence; the
  conversion to runes decodes UTF-8, and a byte that starts no valid encoding becomes the rune
  U+FFFD and is skipped alone (this excludes overlong forms, surrogates and values above
  U+10FFFF). The conversion back encodes each rune, an invalid one as U+FFFD.
  The byte ranges are those of \<open>unicode/utf8\<close>.
\<close>

definition RuneError :: nat where "RuneError = 0xFFFD"

definition utf8_cont :: "nat \<Rightarrow> bool" where
  "utf8_cont b \<longleftrightarrow> 0x80 \<le> b \<and> b \<le> 0xBF"

text \<open>The range of the second byte depends on the first one.\<close>

definition utf8_second :: "nat \<Rightarrow> nat \<Rightarrow> bool" where
  "utf8_second b0 b \<longleftrightarrow>
     (if b0 = 0xE0 then 0xA0 else if b0 = 0xF0 then 0x90 else 0x80) \<le> b \<and>
     b \<le> (if b0 = 0xED then 0x9F else if b0 = 0xF4 then 0x8F else 0xBF)"

fun utf8_DecodeRune :: "nat list \<Rightarrow> nat \<times> nat" where
  "utf8_DecodeRune [] = (RuneError, 0)"
| "utf8_DecodeRune (b0 # bs) =
     (if b0 < 0x80 then (b0, 1)
      else if 0xC2 \<le> b0 \<and> b0 \<le> 0xDF then
        (case bs of b1 # _ \<Rightarrow>
             if utf8_second b0 b1 then ((b0 - 0xC0) * 64 + (b1 - 0x80), 2) else (RuneError, 1)
         | _ \<Rightarrow> (RuneError, 1))
      else if 0xE0 \<le> b0 \<and> b0 \<le> 0xEF then
        (case bs of b1 # b2 # _ \<Rightarrow>
             if utf8_second b0 b1 \<and> utf8_cont b2
             then ((b0 - 0xE0) * 4096 + (b1 - 0x80) * 64 + (b2 - 0x80), 3) else (RuneError, 1)
         | _ \<Rightarrow> (RuneError, 1))
      else if 0xF0 \<le> b0 \<and> b0 \<le> 0xF4 then
        (case bs of b1 # b2 # b3 # _ \<Rightarrow>
             if utf8_second b0 b1 \<and> utf8_cont b2 \<and> utf8_cont b3
             then ((b0 - 0xF0) * 262144 + (b1 - 0x80) * 4096 + (b2 - 0x80) * 64 + (b3 - 0x80), 4)
             else (RuneError, 1)
         | _ \<Rightarrow> (RuneError, 1))
      else (RuneError, 1))"

fun runes_of_bytes :: "nat list \<Rightarrow> nat list" where
  "runes_of_bytes [] = []"
| "runes_of_bytes (b # bs) =
     (case utf8_DecodeRune (b # bs) of (r, n) \<Rightarrow> r # runes_of_bytes (drop (n - 1) bs))"

definition valid_rune :: "nat \<Rightarrow> bool" where
  "valid_rune r \<longleftrightarrow> r < 0xD800 \<or> 0xE000 \<le> r \<and> r < 0x110000"

definition utf8_EncodeRune :: "nat \<Rightarrow> nat list" where
  "utf8_EncodeRune r =
     (if r < 0x80 then [r]
      else if r < 0x800 then [0xC0 + r div 64, 0x80 + r mod 64]
      else if \<not> valid_rune r then [0xEF, 0xBF, 0xBD]
      else if r < 0x10000 then [0xE0 + r div 4096, 0x80 + r div 64 mod 64, 0x80 + r mod 64]
      else [0xF0 + r div 262144, 0x80 + r div 4096 mod 64, 0x80 + r div 64 mod 64, 0x80 + r mod 64])"

definition go_runes :: "string \<Rightarrow> nat list" where
  "go_runes s = runes_of_bytes (map of_char s)"

definition go_string :: "nat list \<Rightarrow> string" where
  "go_string rs = map char_of (concat (map utf8_EncodeRune rs))"

definition utf8_Valid :: "string \<Rightarrow> bool" where
  "utf8_Valid s \<longleftrightarrow> go_string (go_runes s) = s"

subsection \<open>Decoding undoes encoding\<close>

lemma rem64 [simp]: "r mod (64::nat) < 64"
  by simp

lemma digits64_2: "r div 64 * 64 + r mod 64 = (r::nat)"
  by (rule div_mult_mod_eq)

lemma digits64_3: "r div 4096 * 4096 + r div 64 mod 64 * 64 + r mod 64 = (r::nat)"
proof -
  have "r div 4096 = r div 64 div 64" by (simp add: div_mult2_eq [symmetric])
  with digits64_2 [of r] digits64_2 [of "r div 64"] show ?thesis by linarith
qed

lemma digits64_4:
  "r div 262144 * 262144 + r div 4096 mod 64 * 4096 + r div 64 mod 64 * 64 + r mod 64 = (r::nat)"
proof -
  have "r div 262144 = r div 4096 div 64" by (simp add: div_mult2_eq [symmetric])
  with digits64_3 [of r] digits64_2 [of "r div 4096"] show ?thesis by linarith
qed

lemma decode_2:
  "2 \<le> a \<Longrightarrow> a < 32 \<Longrightarrow> c < 64 \<Longrightarrow>
   utf8_DecodeRune ((0xC0 + a) # (0x80 + c) # bs) = (a * 64 + c, 2)"
  by (simp add: utf8_second_def)

lemma decode_3:
  "a < 16 \<Longrightarrow> c < 64 \<Longrightarrow> utf8_second (0xE0 + a) (0x80 + b) \<Longrightarrow>
   utf8_DecodeRune ((0xE0 + a) # (0x80 + b) # (0x80 + c) # bs) = (a * 4096 + b * 64 + c, 3)"
  by (simp add: utf8_cont_def)

lemma decode_4:
  "a < 5 \<Longrightarrow> c < 64 \<Longrightarrow> d < 64 \<Longrightarrow> utf8_second (0xF0 + a) (0x80 + b) \<Longrightarrow>
   utf8_DecodeRune ((0xF0 + a) # (0x80 + b) # (0x80 + c) # (0x80 + d) # bs) =
     (a * 262144 + b * 4096 + c * 64 + d, 4)"
  by (simp add: utf8_cont_def)

lemma decode_encode_1: "r < 0x80 \<Longrightarrow> utf8_DecodeRune (utf8_EncodeRune r @ bs) = (r, 1)"
  by (simp add: utf8_EncodeRune_def)

lemma decode_encode_2:
  assumes "0x80 \<le> r" "r < 0x800"
  shows "utf8_DecodeRune (utf8_EncodeRune r @ bs) = (r, 2)"
proof -
  have enc: "utf8_EncodeRune r = [0xC0 + r div 64, 0x80 + r mod 64]"
    using assms by (simp add: utf8_EncodeRune_def)
  have "2 \<le> r div 64" "r div 64 < 32" using assms by linarith+
  then show ?thesis unfolding enc append.simps
    by (subst decode_2) (simp_all only: digits64_2 rem64)
qed

lemma decode_encode_3:
  assumes "0x800 \<le> r" "r < 0x10000" "valid_rune r"
  shows "utf8_DecodeRune (utf8_EncodeRune r @ bs) = (r, 3)"
proof -
  let ?a = "r div 4096" and ?b = "r div 64 mod 64" and ?c = "r mod 64"
  have bnd: "?a < 16" "?b < 64" "?c < 64" using assms by simp_all
  note sum = digits64_3 [of r]
  have lo: "?a = 0 \<Longrightarrow> 32 \<le> ?b" using sum bnd assms(1) by linarith
  have hi: "?a = 13 \<Longrightarrow> ?b < 32" using sum bnd assms(3) unfolding valid_rune_def by linarith
  have sec: "utf8_second (0xE0 + ?a) (0x80 + ?b)"
    using bnd lo hi by (auto simp: utf8_second_def)
  have enc: "utf8_EncodeRune r = [0xE0 + ?a, 0x80 + ?b, 0x80 + ?c]"
    using assms by (simp add: utf8_EncodeRune_def)
  show ?thesis unfolding enc append.simps
    by (subst decode_3 [OF bnd(1) bnd(3) sec]) (simp only: sum)
qed

lemma decode_encode_4:
  assumes "0x10000 \<le> r" "valid_rune r"
  shows "utf8_DecodeRune (utf8_EncodeRune r @ bs) = (r, 4)"
proof -
  let ?a = "r div 262144" and ?b = "r div 4096 mod 64" and ?c = "r div 64 mod 64" and ?d = "r mod 64"
  have r: "r < 0x110000" using assms by (auto simp: valid_rune_def)
  note sum = digits64_4 [of r]
  have bnd: "?a < 5" "?b < 64" "?c < 64" "?d < 64" using r by simp_all
  have lo: "?a = 0 \<Longrightarrow> 16 \<le> ?b" using sum bnd assms(1) by linarith
  have hi: "?a = 4 \<Longrightarrow> ?b < 16" using sum bnd r by linarith
  have sec: "utf8_second (0xF0 + ?a) (0x80 + ?b)"
    using bnd lo hi by (auto simp: utf8_second_def)
  have enc: "utf8_EncodeRune r = [0xF0 + ?a, 0x80 + ?b, 0x80 + ?c, 0x80 + ?d]"
    using assms by (simp add: utf8_EncodeRune_def)
  show ?thesis unfolding enc append.simps
    by (subst decode_4 [OF bnd(1) bnd(3) bnd(4) sec]) (simp only: sum)
qed

lemma decode_encode:
  "valid_rune r \<Longrightarrow> utf8_DecodeRune (utf8_EncodeRune r @ bs) = (r, length (utf8_EncodeRune r))"
  using decode_encode_1 decode_encode_2 decode_encode_3 decode_encode_4
  by (cases "r < 0x80"; cases "r < 0x800"; cases "r < 0x10000") (auto simp: utf8_EncodeRune_def)

lemma EncodeRune_nonempty [simp]: "utf8_EncodeRune r \<noteq> []"
  by (simp add: utf8_EncodeRune_def)

lemma runes_of_encode:
  assumes "valid_rune r"
  shows "runes_of_bytes (utf8_EncodeRune r @ bs) = r # runes_of_bytes bs"
proof (cases "utf8_EncodeRune r")
  case Nil
  then show ?thesis by simp
next
  case (Cons b es)
  with decode_encode [OF assms, of bs]
  have "utf8_DecodeRune (b # es @ bs) = (r, Suc (length es))" by simp
  with Cons show ?thesis by (simp del: utf8_DecodeRune.simps)
qed

lemma runes_of_concat_encode:
  "list_all valid_rune rs \<Longrightarrow> runes_of_bytes (concat (map utf8_EncodeRune rs)) = rs"
  by (induction rs) (simp_all add: runes_of_encode)

lemma EncodeRune_byte: "b \<in> set (utf8_EncodeRune r) \<Longrightarrow> b < 256"
  by (auto simp: utf8_EncodeRune_def valid_rune_def split: if_splits)

lemma map_of_char_char_of:
  assumes "\<forall>b \<in> set bs. b < 256"
  shows "map of_char (map (char_of :: nat \<Rightarrow> char) bs) = bs"
  using assms by (simp add: map_idI)

lemma go_runes_go_string: "list_all valid_rune rs \<Longrightarrow> go_runes (go_string rs) = rs"
  unfolding go_runes_def go_string_def
  by (subst map_of_char_char_of) (auto simp: runes_of_concat_encode dest: EncodeRune_byte)

text \<open>Whatever the bytes, the decoder only produces runes that can be encoded.\<close>

lemma valid_rune_RuneError [simp]: "valid_rune RuneError"
  by (simp add: valid_rune_def RuneError_def)

lemma valid_rune_2: "b0 \<le> 0xDF \<Longrightarrow> b1 \<le> 0xBF \<Longrightarrow> valid_rune ((b0 - 0xC0) * 64 + (b1 - 0x80))"
  unfolding valid_rune_def by linarith

lemma valid_rune_3:
  assumes "b0 \<le> 0xEF" "utf8_second b0 b1" "utf8_cont b2"
  shows "valid_rune ((b0 - 0xE0) * 4096 + (b1 - 0x80) * 64 + (b2 - 0x80))"
proof -
  have b2: "b2 - 0x80 \<le> 0x3F" using assms unfolding utf8_cont_def by linarith
  have b1: "b1 - 0x80 \<le> 0x3F" using assms by (auto simp: utf8_second_def split: if_splits)
  consider "b0 < 0xED" | "b0 = 0xED" | "0xED < b0" by linarith
  then show ?thesis
  proof cases
    case 1
    then have "b0 - 0xE0 \<le> 12" by simp
    with b1 b2 show ?thesis unfolding valid_rune_def by linarith
  next
    case 2
    with assms have "b1 - 0x80 \<le> 0x1F" by (simp add: utf8_second_def) linarith
    with 2 b2 show ?thesis unfolding valid_rune_def by simp
  next
    case 3
    with assms(1) have "14 \<le> b0 - 0xE0" "b0 - 0xE0 \<le> 15" by simp_all
    with b1 b2 show ?thesis unfolding valid_rune_def by linarith
  qed
qed

lemma valid_rune_4:
  assumes "0xF0 \<le> b0" "b0 \<le> 0xF4" "utf8_second b0 b1" "utf8_cont b2" "utf8_cont b3"
  shows "valid_rune ((b0 - 0xF0) * 262144 + (b1 - 0x80) * 4096 + (b2 - 0x80) * 64 + (b3 - 0x80))"
proof -
  have b: "b2 - 0x80 \<le> 0x3F" "b3 - 0x80 \<le> 0x3F" using assms unfolding utf8_cont_def by linarith+
  have b1: "b1 - 0x80 \<le> 0x3F" using assms by (auto simp: utf8_second_def split: if_splits)
  consider "b0 = 0xF0" | "0xF0 < b0" "b0 < 0xF4" | "b0 = 0xF4" using assms by linarith
  then show ?thesis
  proof cases
    case 1
    with assms have "0x10 \<le> b1 - 0x80" by (simp add: utf8_second_def) linarith
    with 1 b b1 show ?thesis unfolding valid_rune_def by simp
  next
    case 2
    then have "1 \<le> b0 - 0xF0" "b0 - 0xF0 \<le> 3" by simp_all
    with b b1 show ?thesis unfolding valid_rune_def by linarith
  next
    case 3
    with assms have "b1 - 0x80 \<le> 0xF" by (simp add: utf8_second_def) linarith
    with 3 b show ?thesis unfolding valid_rune_def by simp
  qed
qed

lemma utf8_second_le: "utf8_second b0 b1 \<Longrightarrow> b1 \<le> 0xBF"
  by (auto simp: utf8_second_def split: if_splits)

lemma valid_rune_DecodeRune: "valid_rune (fst (utf8_DecodeRune (b0 # bs)))"
  using valid_rune_2 [of b0] valid_rune_3 [of b0] valid_rune_4 [of b0] utf8_second_le [of b0]
  by (simp split: list.splits) (simp add: valid_rune_def)

lemma valid_runes_of_bytes: "list_all valid_rune (runes_of_bytes bs)"
proof (induction bs rule: runes_of_bytes.induct)
  case 1
  then show ?case by simp
next
  case (2 b bs)
  obtain r n where d: "utf8_DecodeRune (b # bs) = (r, n)" by (cases "utf8_DecodeRune (b # bs)")
  have "valid_rune r" using valid_rune_DecodeRune [of b bs] d by simp
  with "2.IH" d show ?case by (simp del: utf8_DecodeRune.simps)
qed

lemma valid_go_runes: "list_all valid_rune (go_runes s)"
  unfolding go_runes_def by (rule valid_runes_of_bytes)

lemma go_runes_take: "go_runes (go_string (take n (go_runes s))) = take n (go_runes s)"
  using valid_go_runes [of s]
  by (intro go_runes_go_string) (auto simp: list_all_iff dest: in_set_takeD)

lemma go_string_append: "go_string (xs @ ys) = go_string xs @ go_string ys"
  by (simp add: go_string_def)

end
