(* ===== verification/ServiceStatus.thy ===== *)
theory ServiceStatus
  imports GoUtf8 Model "HOL-Library.Sublist"
begin

text \<open>
  The package provider, file \<open>provider/interface.go\<close>: the requests handed to a provider, the
  interface a provider implements (a record of operations on the provider's state), and
  \<open>NewServiceStatus\<close>.
\<close>

record ('p, 'c, 'x) CreateRequest =
  crID :: ServiceID
  crTeamID :: int
  crCustomSubdomain :: "string option"
  crPlan :: 'p
  crConfig :: 'c
  crSecrets :: 'x
  crRecoverFrom :: "RecoverFrom option"

record 'v UpdateRequest =
  urID :: ServiceID
  urTeamID :: int
  urCustomSubdomain :: "string option"
  urPause :: "bool option"
  urParams :: 'v
  urBackups :: "ServiceBackups option"

record BackupRequest =
  brBackupID :: BackupId
  brServiceID :: ServiceID
  brTeamID :: int
  brConfig :: BackupStoreConfig
  brSecrets :: BackupStoreSecrets
  brRetentionDays :: "int option"

definition NewServiceStatus ::
  "'p \<Rightarrow> 'c \<Rightarrow> 'd \<Rightarrow> bool option \<Rightarrow> string option \<Rightarrow> Health option \<Rightarrow> ('p, 'c, 'd) ServiceStatus" where
  "NewServiceStatus plan config details pause err health =
     (let status = \<lparr>ssPlan = \<lparr>psParameters = plan\<rparr>, ssConfig = config, ssDetails = details,
            ssPause = pause, ssError = err, ssBackups = None, ssConditions = None,
            ssUtilization = [], ssMaintenance = None\<rparr>
      in case health of
           None \<Rightarrow> status
         | Some h \<Rightarrow>
             if pause = None \<or> pause = Some False
             then (let msg = go_runes (hMessage h);
                       h' = (if HealthMessageMaxLen < length msg
                             then h\<lparr>hMessage := go_string (take HealthMessageMaxLen msg)\<rparr> else h)
                   in status\<lparr>ssConditions := Some \<lparr>cHealth = Some h'\<rparr>\<rparr>)
             else status)"

lemma go_string_take_prefix:
  assumes "utf8_Valid s"
  shows "prefix (go_string (take n (go_runes s))) s"
proof -
  have "s = go_string (take n (go_runes s) @ drop n (go_runes s))"
    using assms by (simp add: utf8_Valid_def)
  then show ?thesis unfolding go_string_append by (rule prefixI)
qed

text \<open>The health that a status shows.\<close>

definition shown_health :: "('p, 'c, 'd) ServiceStatus \<Rightarrow> Health option" where
  "shown_health st = (case ssConditions st of None \<Rightarrow> None | Some c \<Rightarrow> cHealth c)"

text \<open>
  The JSON document of a new status has the plan in its \<open>parameters\<close> envelope beside config and
  details, the pause flag and the error exactly when given, a health exactly when one is shown,
  and no other field.
\<close>
lemma NewServiceStatus_document:
  "\<exists>rest. ServiceStatus_json encP encC encD (NewServiceStatus plan config details pause err health) =
     JObj ([(''plan'', JObj [(''parameters'', encP plan)]), (''config'', encC config), (''details'', encD details)] @ rest) \<and>
     map_of rest ''pause'' = map_option JBool pause \<and> map_of rest ''error'' = map_option JStr err \<and>
     map_of rest ''conditions'' = map_option (\<lambda>h. Conditions_json \<lparr>cHealth = Some h\<rparr>)
       (shown_health (NewServiceStatus plan config details pause err health)) \<and>
     set (map fst rest) \<subseteq> {''pause'', ''error'', ''conditions''}"
  by (cases health; cases pause; cases err)
     (auto simp: NewServiceStatus_def ServiceStatus_json_def field_opt_def shown_health_def Let_def)

text \<open>
  C30: A status shows health exactly when one was determined and the service is not paused; the
  health status is the given one, its message has at most 500 characters, is the given message
  when that is short enough, and otherwise the first 500 characters of it, so that valid UTF-8
  is never cut inside a character. Its JSON document has the plan in the \<open>parameters\<close> envelope beside
  config and details, the pause flag and the error exactly when given, the health exactly when it is
  shown, and no other field.
\<close>
theorem NewServiceStatus_health:
  "shown_health (NewServiceStatus plan config details pause err health) =
     (if pause = Some True then None else map_option (\<lambda>h. h\<lparr>hMessage :=
        (if length (go_runes (hMessage h)) \<le> 500 then hMessage h
         else go_string (take 500 (go_runes (hMessage h))))\<rparr>) health) \<and>
   (\<forall>h' \<in> set_option (shown_health (NewServiceStatus plan config details pause err health)).
      length (go_runes (hMessage h')) \<le> 500 \<and>
      (\<forall>h. health = Some h \<and> utf8_Valid (hMessage h) \<longrightarrow> prefix (hMessage h') (hMessage h))) \<and>
   (\<exists>rest. ServiceStatus_json encP encC encD (NewServiceStatus plan config details pause err health) =
     JObj ([(''plan'', JObj [(''parameters'', encP plan)]), (''config'', encC config), (''details'', encD details)] @ rest) \<and>
     map_of rest ''pause'' = map_option JBool pause \<and> map_of rest ''error'' = map_option JStr err \<and>
     map_of rest ''conditions'' = map_option (\<lambda>h. Conditions_json \<lparr>cHealth = Some h\<rparr>)
       (shown_health (NewServiceStatus plan config details pause err health)) \<and>
     set (map fst rest) \<subseteq> {''pause'', ''error'', ''conditions''})"
proof (intro conjI NewServiceStatus_document)
  let ?st = "NewServiceStatus plan config details pause err health"
  show "shown_health ?st = (if pause = Some True then None else map_option (\<lambda>h. h\<lparr>hMessage :=
      (if length (go_runes (hMessage h)) \<le> 500 then hMessage h
       else go_string (take 500 (go_runes (hMessage h))))\<rparr>) health)"
    by (auto simp: NewServiceStatus_def shown_health_def Let_def HealthMessageMaxLen_def split: option.splits)
  show "\<forall>h' \<in> set_option (shown_health ?st). length (go_runes (hMessage h')) \<le> 500 \<and>
      (\<forall>h. health = Some h \<and> utf8_Valid (hMessage h) \<longrightarrow> prefix (hMessage h') (hMessage h))"
    by (auto simp: NewServiceStatus_def shown_health_def Let_def HealthMessageMaxLen_def go_runes_take
        go_string_take_prefix split: option.splits)
qed

theorem NewServiceStatus_health_witness:
  "\<exists>h'. shown_health (NewServiceStatus () () () None None
     (Some \<lparr>hStatus = HealthDegraded, hMessage = replicate 501 CHR ''a''\<rparr>)) = Some h' \<and>
     length (go_runes (hMessage h')) \<le> 500 \<and> hStatus h' = HealthDegraded"
  using NewServiceStatus_health [of "()" "()" "()" None None
      "Some \<lparr>hStatus = HealthDegraded, hMessage = replicate 501 CHR ''a''\<rparr>" "\<lambda>_. JNull" "\<lambda>_. JNull" "\<lambda>_. JNull"]
  by (elim conjE) auto

end
