(* ===== verification/Binding.thy ===== *)
theory Binding
  imports GoUtf8 ServiceStatus
begin

text \<open>
  The request bodies of \<open>provider/routes.go\<close> and the constraints their \<open>binding\<close> tags, and the tags of
  \<open>model/common.go\<close>, put on them. Decoding JSON and running the validator is gin's
  \<open>ShouldBindJSON\<close>, a parameter (\<open>binders\<close>) that returns the text of the error or the body. What
  the code relies on is the contract \<open>json_binding\<close>: a body that is bound satisfies the tags. The
  URL syntax check of the tag \<open>url\<close> is a parameter too.
\<close>

record serviceFields =
  sfID :: ServiceID
  sfTeamID :: int
  sfCustomSubdomain :: "string option"

record updateFields = serviceFields +
  ufPause :: "bool option"
  ufBackups :: "ServiceBackups option"

record ('p, 'c, 'x) createBody = serviceFields +
  cbPlan :: "'p PlanSpec"
  cbConfig :: 'c
  cbSecrets :: 'x
  cbRecoverFrom :: "RecoverFrom option"

record backupBody =
  bbMsID :: ServiceID
  bbTeamID :: int
  bbConfig :: BackupStoreConfig
  bbSecrets :: BackupStoreSecrets
  bbRetentionDays :: "int option"

subsection \<open>The tags\<close>

definition tag_max :: "nat \<Rightarrow> string \<Rightarrow> bool" where
  "tag_max n s \<longleftrightarrow> length (go_runes s) \<le> n"

definition tag_startsnotwith :: "string \<Rightarrow> string \<Rightarrow> bool" where
  "tag_startsnotwith p s \<longleftrightarrow> \<not> strings_HasPrefix s p"

definition tag_endsnotwith :: "string \<Rightarrow> string \<Rightarrow> bool" where
  "tag_endsnotwith p s \<longleftrightarrow> \<not> strings_HasPrefix (rev s) (rev p)"

definition BackupStoreConfig_tags :: "(string \<Rightarrow> bool) \<Rightarrow> BackupStoreConfig \<Rightarrow> bool" where
  "BackupStoreConfig_tags is_url c \<longleftrightarrow>
     bscType c \<noteq> '''' \<and> bscType c = ''s3'' \<and>
     bscEndpointURL c \<noteq> '''' \<and> is_url (bscEndpointURL c) \<and>
     bscBucket c \<noteq> '''' \<and> tag_max 255 (bscBucket c) \<and>
     tag_startsnotwith ''/'' (bscPrefix c) \<and> tag_endsnotwith ''/'' (bscPrefix c) \<and>
     bscAccessKeyID c \<noteq> ''''"

definition BackupStoreSecrets_tags :: "BackupStoreSecrets \<Rightarrow> bool" where
  "BackupStoreSecrets_tags x \<longleftrightarrow> bssSecretKey x \<noteq> ''''"

definition RecoverFrom_tags :: "(string \<Rightarrow> bool) \<Rightarrow> RecoverFrom \<Rightarrow> bool" where
  "RecoverFrom_tags is_url r \<longleftrightarrow>
     (rfMsID r = '''' \<longrightarrow> rfID r \<noteq> '''') \<and> (rfMsID r \<noteq> '''' \<longrightarrow> rfID r = '''') \<and>
     (rfID r = '''' \<longrightarrow> rfMsID r \<noteq> '''') \<and>
     (rfMsID r \<noteq> '''' \<longrightarrow> rfTime r \<noteq> None) \<and> (rfMsID r = '''' \<longrightarrow> rfTime r = None) \<and>
     BackupStoreConfig_tags is_url (rfConfig r) \<and> BackupStoreSecrets_tags (rfSecrets r)"

definition serviceFields_tags :: "'z serviceFields_scheme \<Rightarrow> bool" where
  "serviceFields_tags f \<longleftrightarrow> sfID f \<noteq> '''' \<and> 0 < sfTeamID f"

definition createBody_tags :: "(string \<Rightarrow> bool) \<Rightarrow> ('p, 'c, 'x) createBody \<Rightarrow> bool" where
  "createBody_tags is_url b \<longleftrightarrow>
     serviceFields_tags b \<and> pred_option (RecoverFrom_tags is_url) (cbRecoverFrom b)"

definition backupBody_tags :: "(string \<Rightarrow> bool) \<Rightarrow> backupBody \<Rightarrow> bool" where
  "backupBody_tags is_url b \<longleftrightarrow>
     bbMsID b \<noteq> '''' \<and> 0 < bbTeamID b \<and>
     BackupStoreConfig_tags is_url (bbConfig b) \<and> BackupStoreSecrets_tags (bbSecrets b)"

lemmas tags_defs = BackupStoreConfig_tags_def BackupStoreSecrets_tags_def RecoverFrom_tags_def
  serviceFields_tags_def createBody_tags_def backupBody_tags_def

subsection \<open>Binding\<close>

record ('p, 'c, 'x, 'v) binders =
  bindCreate :: "string \<Rightarrow> string + ('p, 'c, 'x) createBody"
  bindUpdateFields :: "string \<Rightarrow> string + updateFields"
  bindParams :: "string \<Rightarrow> string + 'v"
  bindBackup :: "string \<Rightarrow> string + backupBody"

locale json_binding =
  fixes B :: "('p, 'c, 'x, 'v) binders" and is_url :: "string \<Rightarrow> bool"
  assumes create_tags: "bindCreate B body = Inr b \<Longrightarrow> createBody_tags is_url b"
    and update_tags: "bindUpdateFields B body = Inr f \<Longrightarrow> serviceFields_tags f"
    and backup_tags: "bindBackup B body = Inr b' \<Longrightarrow> backupBody_tags is_url b'"

text \<open>Decoding followed by validation has the contract, whatever the decoder.\<close>

definition validated :: "('a \<Rightarrow> bool) \<Rightarrow> string + 'a \<Rightarrow> string + 'a" where
  "validated ok r = (case r of Inl e \<Rightarrow> Inl e
     | Inr a \<Rightarrow> if ok a then Inr a else Inl ''Field validation failed'')"

definition validating ::
  "(string \<Rightarrow> bool) \<Rightarrow> ('p, 'c, 'x, 'v) binders \<Rightarrow> ('p, 'c, 'x, 'v) binders" where
  "validating is_url D =
     \<lparr>bindCreate = (\<lambda>s. validated (createBody_tags is_url) (bindCreate D s)),
      bindUpdateFields = (\<lambda>s. validated serviceFields_tags (bindUpdateFields D s)),
      bindParams = bindParams D,
      bindBackup = (\<lambda>s. validated (backupBody_tags is_url) (bindBackup D s))\<rparr>"

lemma validated_Inr [simp]: "validated ok r = Inr a \<longleftrightarrow> r = Inr a \<and> ok a"
  by (auto simp: validated_def split: sum.splits)

interpretation validating: json_binding "validating is_url D" is_url for is_url D
  by unfold_locales (simp_all add: validating_def)

subsection \<open>What the tags amount to\<close>

lemma tag_slash [simp]:
  "tag_startsnotwith ''/'' s \<longleftrightarrow> (s = [] \<or> hd s \<noteq> CHR ''/'')"
  "tag_endsnotwith ''/'' s \<longleftrightarrow> (s = [] \<or> last s \<noteq> CHR ''/'')"
proof -
  have "tag_startsnotwith ''/'' t \<longleftrightarrow> (t = [] \<or> hd t \<noteq> CHR ''/'')" for t
    by (cases t) (auto simp: tag_startsnotwith_def strings_HasPrefix_def)
  moreover have "tag_endsnotwith p t = tag_startsnotwith (rev p) (rev t)" for p t
    by (simp add: tag_endsnotwith_def tag_startsnotwith_def)
  ultimately show "tag_startsnotwith ''/'' s \<longleftrightarrow> (s = [] \<or> hd s \<noteq> CHR ''/'')"
    and "tag_endsnotwith ''/'' s \<longleftrightarrow> (s = [] \<or> last s \<noteq> CHR ''/'')"
    by (simp_all add: hd_rev)
qed

definition demo_store :: BackupStoreConfig where
  "demo_store = \<lparr>bscType = ''s3'', bscEndpointURL = ''https://s3'', bscBucket = ''b'', bscPrefix = ''p/q'',
     bscAccessKeyID = ''AK''\<rparr>"

lemma demo_store_tags: "BackupStoreConfig_tags (\<lambda>_. True) demo_store"
  by (simp add: BackupStoreConfig_tags_def demo_store_def tag_max_def go_runes_def)

definition demo_recover :: RecoverFrom where
  "demo_recover = \<lparr>rfID = ''b7'', rfMsID = '''', rfTime = None, rfConfig = demo_store,
     rfSecrets = \<lparr>bssSecretKey = ''k''\<rparr>\<rparr>"

lemma demo_recover_tags: "RecoverFrom_tags (\<lambda>_. True) demo_recover"
  using demo_store_tags by (simp add: RecoverFrom_tags_def BackupStoreSecrets_tags_def demo_recover_def)

lemma slash_free_split:
  assumes "CHR ''/'' \<notin> set a" "CHR ''/'' \<notin> set b" "a @ CHR ''/'' # p = b @ CHR ''/'' # q"
  shows "a = b \<and> p = q"
  using assms by (induction a arbitrary: b) (auto simp: Cons_eq_append_conv append_eq_Cons_conv)

text \<open>
  C37: The location \<open>bucket[/prefix]\<close> of a store that satisfies the tags does not end in a
  slash, and it determines bucket and prefix, unless a bucket name contains a slash itself.
\<close>
theorem Path_determines_store:
  assumes "BackupStoreConfig_tags is_url c" "BackupStoreConfig_tags is_url c'"
    and "CHR ''/'' \<notin> set (bscBucket c)" "CHR ''/'' \<notin> set (bscBucket c')"
  shows "last (BackupStoreConfig_Path c) \<noteq> CHR ''/'' \<and>
    (BackupStoreConfig_Path c = BackupStoreConfig_Path c' \<longleftrightarrow>
     bscBucket c = bscBucket c' \<and> bscPrefix c = bscPrefix c')"
proof
  show "last (BackupStoreConfig_Path c) \<noteq> CHR ''/''"
    using assms(1,3) last_in_set [of "bscBucket c"]
    by (cases "bscPrefix c = []") (auto simp: BackupStoreConfig_Path_def BackupStoreConfig_tags_def
      simp del: last_in_set)
  show "BackupStoreConfig_Path c = BackupStoreConfig_Path c' \<longleftrightarrow>
     bscBucket c = bscBucket c' \<and> bscPrefix c = bscPrefix c'"
  proof
    assume eq: "BackupStoreConfig_Path c = BackupStoreConfig_Path c'"
    have mem: "CHR ''/'' \<in> set (BackupStoreConfig_Path x) \<longleftrightarrow> bscPrefix x \<noteq> []"
      if "CHR ''/'' \<notin> set (bscBucket x)" for x
      using that by (simp add: BackupStoreConfig_Path_def)
    show "bscBucket c = bscBucket c' \<and> bscPrefix c = bscPrefix c'"
    proof (cases "bscPrefix c = []")
      case True
      with eq mem [OF assms(3)] mem [OF assms(4)] show ?thesis by (simp add: BackupStoreConfig_Path_def)
    next
      case False
      with eq mem [OF assms(3)] mem [OF assms(4)] have "bscPrefix c' \<noteq> []" by simp
      with eq False have "bscBucket c @ CHR ''/'' # bscPrefix c = bscBucket c' @ CHR ''/'' # bscPrefix c'"
        by (simp add: BackupStoreConfig_Path_def)
      with assms(3,4) show ?thesis by (rule slash_free_split)
    qed
  qed (simp add: BackupStoreConfig_Path_def)
qed

theorem Path_determines_store_witness:
  "BackupStoreConfig_Path demo_store \<noteq> BackupStoreConfig_Path (demo_store\<lparr>bscPrefix := ''p''\<rparr>)"
proof -
  have "BackupStoreConfig_tags (\<lambda>_. True) (demo_store\<lparr>bscPrefix := ''p''\<rparr>)"
    by (simp add: BackupStoreConfig_tags_def demo_store_def tag_max_def go_runes_def)
  from Path_determines_store [OF demo_store_tags this] show ?thesis by (simp add: demo_store_def)
qed

end
