(* ===== verification/Http.thy ===== *)
theory Http
  imports GoErrors Model
begin

text \<open>
  What handlers and middleware share: log records of \<open>log/slog\<close>, status codes of \<open>net/http\<close>, and
  the reply a gin handler ends with. A handler of the repository makes at most one call that
  writes a response, and makes it last, so the call itself is the result: \<open>c.JSON\<close> with a status
  and a document, or \<open>c.Status\<close>.
\<close>

datatype slog_Level = LevelDebug | LevelInfo | LevelWarn | LevelError

fun Level_int :: "slog_Level \<Rightarrow> int" where
  "Level_int LevelDebug = -4"
| "Level_int LevelInfo = 0"
| "Level_int LevelWarn = 4"
| "Level_int LevelError = 8"

lemma Level_int_inj: "Level_int l = Level_int l' \<Longrightarrow> l = l'"
  by (cases l; cases l') simp_all

instantiation slog_Level :: linorder
begin

definition less_eq_slog_Level :: "slog_Level \<Rightarrow> slog_Level \<Rightarrow> bool" where
  "l \<le> l' \<longleftrightarrow> Level_int l \<le> Level_int l'"

definition less_slog_Level :: "slog_Level \<Rightarrow> slog_Level \<Rightarrow> bool" where
  "l < l' \<longleftrightarrow> Level_int l < Level_int l'"

instance
  by standard (auto simp: less_eq_slog_Level_def less_slog_Level_def dest: Level_int_inj)

end

datatype log_value = LogString string | LogInt int | LogDuration int | LogError go_error

record log_record =
  lrLevel :: slog_Level
  lrMessage :: string
  lrAttrs :: "(string \<times> log_value) list"

subsection \<open>Status codes and replies\<close>

abbreviation StatusOK :: nat where "StatusOK \<equiv> 200"
abbreviation StatusCreated :: nat where "StatusCreated \<equiv> 201"
abbreviation StatusAccepted :: nat where "StatusAccepted \<equiv> 202"
abbreviation StatusNoContent :: nat where "StatusNoContent \<equiv> 204"
abbreviation StatusBadRequest :: nat where "StatusBadRequest \<equiv> 400"
abbreviation StatusUnauthorized :: nat where "StatusUnauthorized \<equiv> 401"
abbreviation StatusNotFound :: nat where "StatusNotFound \<equiv> 404"
abbreviation StatusConflict :: nat where "StatusConflict \<equiv> 409"
abbreviation StatusUnprocessableEntity :: nat where "StatusUnprocessableEntity \<equiv> 422"
abbreviation StatusInternalServerError :: nat where "StatusInternalServerError \<equiv> 500"
abbreviation StatusNotImplemented :: nat where "StatusNotImplemented \<equiv> 501"
abbreviation StatusBadGateway :: nat where "StatusBadGateway \<equiv> 502"
abbreviation StatusServiceUnavailable :: nat where "StatusServiceUnavailable \<equiv> 503"

datatype reply = ReplyJSON nat json | ReplyStatus nat

fun reply_status :: "reply \<Rightarrow> nat" where
  "reply_status (ReplyJSON st j) = st"
| "reply_status (ReplyStatus st) = st"

text \<open>\<open>gin.H{"error": m}\<close>.\<close>

definition error_body :: "string \<Rightarrow> json" where
  "error_body m = JObj [(''error'', JStr m)]"

lemma error_body_inj [simp]: "error_body m = error_body m' \<longleftrightarrow> m = m'"
  by (simp add: error_body_def)

end
