(* ===== verification/Routes.thy ===== *)
theory Routes
  imports Http Binding Base
begin

text \<open>
  The package provider, files \<open>provider/routes.go\<close> and \<open>provider/interface.go\<close>: the interface of a
  provider and the HTTP handlers in front of it. A handler takes the request and the state of the
  provider and gives the reply, the log records it wrote and the next state. A slice or map the
  provider returns may be nil, which is \<open>None\<close> and is written as \<open>null\<close>.
\<close>

record http_request =
  rqIDs :: "string list"
  rqParamID :: string
  rqBody :: string

record ('s, 'p, 'c, 'x, 'd, 'v) Provider =
  pvCreate :: "('p, 'c, 'x) CreateRequest \<Rightarrow> 's \<Rightarrow> go_error option \<times> 's"
  pvList :: "'s \<Rightarrow> (go_error, ServiceID list option, 's) result"
  pvGetStatus :: "ServiceID list \<Rightarrow> 's \<Rightarrow>
    (go_error, (ServiceID, ('p, 'c, 'd) ServiceStatus) go_map option, 's) result"
  pvUpdate :: "'v UpdateRequest \<Rightarrow> 's \<Rightarrow> go_error option \<times> 's"
  pvDelete :: "ServiceID \<Rightarrow> 's \<Rightarrow> go_error option \<times> 's"

record 's Backups =
  bkTakeBackup :: "BackupRequest \<Rightarrow> 's \<Rightarrow> go_error option \<times> 's"
  bkGetBackupStatus :: "BackupRequest \<Rightarrow> 's \<Rightarrow> (go_error, BackupStatus, 's) result"
  bkDeleteBackup :: "BackupRequest \<Rightarrow> 's \<Rightarrow> go_error option \<times> 's"

record 's Maintenance =
  mtApplyMaintenance :: "ServiceID \<Rightarrow> 's \<Rightarrow> go_error option \<times> 's"

type_synonym 's http_handler = "http_request \<Rightarrow> 's \<Rightarrow> reply \<times> log_record list \<times> 's"

subsection \<open>Errors\<close>

definition log_error :: "slog_Level \<Rightarrow> string \<Rightarrow> go_error \<Rightarrow> log_record" where
  "log_error level msg err = \<lparr>lrLevel = level, lrMessage = msg, lrAttrs = [(''error'', LogError err)]\<rparr>"

definition HandleError :: "go_error \<Rightarrow> reply \<times> log_record list" where
  "HandleError err =
     (let warn = [log_error LevelWarn ''client error'' err];
          domain = (\<lambda>st. (ReplyJSON st (error_body (err_Error err)), warn))
      in if errors_Is err ErrServiceNotFound then domain StatusNotFound
         else if errors_Is err ErrBackupNotFound then domain StatusNotFound
         else if errors_Is err ErrInvalidArgument then domain StatusBadRequest
         else if errors_Is err ErrServiceNotHealthy then domain StatusBadGateway
         else if errors_Is err ErrNamespaceNotFound then domain StatusNotFound
         else if errors_Is err ErrConflict then domain StatusConflict
         else if errors_Is err ErrServiceUnavailable then domain StatusServiceUnavailable
         else if errors_Is err ErrNotImplemented then domain StatusNotImplemented
         else if errors_Is err ErrResourceNotFound
         then (ReplyJSON StatusNotFound (error_body ''resource not found''), warn)
         else if errors_Is err ErrResourceConflict
         then (ReplyJSON StatusConflict (error_body ''resource already exists''), warn)
         else if errors_Is err ErrResourceInvalid
         then (ReplyJSON StatusUnprocessableEntity (error_body ''resource invalid''), warn)
         else if errors_Is err ErrKubernetesRequestFailed
         then (ReplyJSON StatusBadGateway (error_body ''upstream service error''),
               [log_error LevelError ''upstream error'' err])
         else (ReplyJSON StatusInternalServerError (error_body ''internal server error''),
               [log_error LevelError ''internal error'' err]))"

text \<open>The end of a handler after a call that returns only an error.\<close>

definition finish :: "reply \<Rightarrow> go_error option \<times> 's \<Rightarrow> reply \<times> log_record list \<times> 's" where
  "finish ok r =
     (case r of (Some err, s) \<Rightarrow> (case HandleError err of (rep, log) \<Rightarrow> (rep, log, s))
      | (None, s) \<Rightarrow> (ok, [], s))"

definition finish_json :: "('a \<Rightarrow> json) \<Rightarrow> (go_error, 'a, 's) result \<Rightarrow> reply \<times> log_record list \<times> 's" where
  "finish_json enc r =
     (case r of (Inl err, s) \<Rightarrow> (case HandleError err of (rep, log) \<Rightarrow> (rep, log, s))
      | (Inr a, s) \<Rightarrow> (ReplyJSON StatusOK (enc a), [], s))"

subsection \<open>Service routes\<close>

definition service_ids_json :: "ServiceID list option \<Rightarrow> json" where
  "service_ids_json ids = (case ids of None \<Rightarrow> JNull | Some l \<Rightarrow> JArr (map JStr l))"

definition statuses_json ::
  "('p \<Rightarrow> json) \<Rightarrow> ('c \<Rightarrow> json) \<Rightarrow> ('d \<Rightarrow> json) \<Rightarrow>
   (ServiceID, ('p, 'c, 'd) ServiceStatus) go_map option \<Rightarrow> json" where
  "statuses_json encP encC encD m =
     (case m of None \<Rightarrow> JNull | Some l \<Rightarrow> json_of_map (ServiceStatus_json encP encC encD) l)"

definition handle_get ::
  "('p \<Rightarrow> json) \<Rightarrow> ('c \<Rightarrow> json) \<Rightarrow> ('d \<Rightarrow> json) \<Rightarrow> ('s, 'p, 'c, 'x, 'd, 'v) Provider \<Rightarrow> 's http_handler" where
  "handle_get encP encC encD P rq s =
     (if length (rqIDs rq) = 0 then finish_json service_ids_json (pvList P s)
      else finish_json (statuses_json encP encC encD) (pvGetStatus P (rqIDs rq) s))"

definition handle_create ::
  "('p, 'c, 'x, 'v) binders \<Rightarrow> ('s, 'p, 'c, 'x, 'd, 'v) Provider \<Rightarrow> 's http_handler" where
  "handle_create B P rq s =
     (case bindCreate B (rqBody rq) of
        Inl msg \<Rightarrow> (ReplyJSON StatusBadRequest (error_body msg), [], s)
      | Inr body \<Rightarrow> finish (ReplyStatus StatusCreated)
          (pvCreate P \<lparr>crID = sfID body, crTeamID = sfTeamID body,
             crCustomSubdomain = sfCustomSubdomain body, crPlan = psParameters (cbPlan body),
             crConfig = cbConfig body, crSecrets = cbSecrets body,
             crRecoverFrom = cbRecoverFrom body\<rparr> s))"

definition handle_update ::
  "('p, 'c, 'x, 'v) binders \<Rightarrow> ('s, 'p, 'c, 'x, 'd, 'v) Provider \<Rightarrow> 's http_handler" where
  "handle_update B P rq s =
     (case bindUpdateFields B (rqBody rq) of
        Inl msg \<Rightarrow> (ReplyJSON StatusBadRequest (error_body msg), [], s)
      | Inr upd \<Rightarrow> (case bindParams B (rqBody rq) of
          Inl msg \<Rightarrow> (ReplyJSON StatusBadRequest (error_body msg), [], s)
        | Inr args \<Rightarrow>
            if sfID upd \<noteq> rqParamID rq
            then (ReplyJSON StatusBadRequest (error_body ''id in body must match path''), [], s)
            else finish (ReplyStatus StatusNoContent)
              (pvUpdate P \<lparr>urID = rqParamID rq, urTeamID = sfTeamID upd,
                 urCustomSubdomain = sfCustomSubdomain upd, urPause = ufPause upd,
                 urParams = args, urBackups = ufBackups upd\<rparr> s)))"

definition handle_delete :: "('s, 'p, 'c, 'x, 'd, 'v) Provider \<Rightarrow> 's http_handler" where
  "handle_delete P rq s = finish (ReplyStatus StatusNoContent) (pvDelete P (rqParamID rq) s)"

definition RegisterRoutes ::
  "('p \<Rightarrow> json) \<Rightarrow> ('c \<Rightarrow> json) \<Rightarrow> ('d \<Rightarrow> json) \<Rightarrow> ('p, 'c, 'x, 'v) binders \<Rightarrow>
   ('s, 'p, 'c, 'x, 'd, 'v) Provider \<Rightarrow> ((string \<times> string) \<times> 's http_handler) list" where
  "RegisterRoutes encP encC encD B P =
     [((''GET'', ''''), handle_get encP encC encD P),
      ((''POST'', ''''), handle_create B P),
      ((''PATCH'', ''/:id''), handle_update B P),
      ((''DELETE'', ''/:id''), handle_delete P)]"

subsection \<open>Backup and maintenance routes\<close>

definition parseBackup :: "('p, 'c, 'x, 'v) binders \<Rightarrow> http_request \<Rightarrow> string + BackupRequest" where
  "parseBackup B rq =
     (case bindBackup B (rqBody rq) of Inl msg \<Rightarrow> Inl msg
      | Inr body \<Rightarrow> Inr \<lparr>brBackupID = rqParamID rq, brServiceID = bbMsID body, brTeamID = bbTeamID body,
          brConfig = bbConfig body, brSecrets = bbSecrets body, brRetentionDays = bbRetentionDays body\<rparr>)"

definition with_backup ::
  "('p, 'c, 'x, 'v) binders \<Rightarrow> (BackupRequest \<Rightarrow> 's \<Rightarrow> reply \<times> log_record list \<times> 's) \<Rightarrow> 's http_handler" where
  "with_backup B k rq s =
     (case parseBackup B rq of
        Inl msg \<Rightarrow> (ReplyJSON StatusBadRequest (error_body msg), [], s)
      | Inr req \<Rightarrow> k req s)"

definition handle_take_backup ::
  "('p, 'c, 'x, 'v) binders \<Rightarrow> 's Backups \<Rightarrow> 's http_handler" where
  "handle_take_backup B b =
     with_backup B (\<lambda>req s. finish (ReplyStatus StatusAccepted) (bkTakeBackup b req s))"

definition handle_backup_status ::
  "('p, 'c, 'x, 'v) binders \<Rightarrow> 's Backups \<Rightarrow> 's http_handler" where
  "handle_backup_status B b =
     with_backup B (\<lambda>req s. finish_json BackupStatus_json (bkGetBackupStatus b req s))"

definition handle_delete_backup ::
  "('p, 'c, 'x, 'v) binders \<Rightarrow> 's Backups \<Rightarrow> 's http_handler" where
  "handle_delete_backup B b =
     with_backup B (\<lambda>req s. finish (ReplyStatus StatusAccepted) (bkDeleteBackup b req s))"

definition RegisterBackupRoutes ::
  "('p, 'c, 'x, 'v) binders \<Rightarrow> 's Backups \<Rightarrow> ((string \<times> string) \<times> 's http_handler) list" where
  "RegisterBackupRoutes B b =
     [((''PUT'', ''/backups/:id''), handle_take_backup B b),
      ((''POST'', ''/backups/:id/status''), handle_backup_status B b),
      ((''DELETE'', ''/backups/:id''), handle_delete_backup B b)]"

definition handle_maintenance :: "'s Maintenance \<Rightarrow> 's http_handler" where
  "handle_maintenance m rq s =
     finish (ReplyStatus StatusAccepted) (mtApplyMaintenance m (rqParamID rq) s)"

definition RegisterMaintenanceRoutes ::
  "'s Maintenance \<Rightarrow> ((string \<times> string) \<times> 's http_handler) list" where
  "RegisterMaintenanceRoutes m = [((''POST'', ''/:id/maintenance''), handle_maintenance m)]"

lemmas handler_defs = handle_get_def handle_create_def handle_update_def handle_delete_def
  handle_take_backup_def handle_backup_status_def handle_delete_backup_def handle_maintenance_def
  with_backup_def parseBackup_def finish_def finish_json_def

subsection \<open>Error replies\<close>

definition infra_replies :: "reply list" where
  "infra_replies =
     [ReplyJSON StatusNotFound (error_body ''resource not found''),
      ReplyJSON StatusConflict (error_body ''resource already exists''),
      ReplyJSON StatusUnprocessableEntity (error_body ''resource invalid''),
      ReplyJSON StatusBadGateway (error_body ''upstream service error''),
      ReplyJSON StatusInternalServerError (error_body ''internal server error'')]"

lemma HandleError_infra:
  "infra_error e \<Longrightarrow> fst (HandleError e) \<in> set infra_replies"
  by (simp add: HandleError_def Let_def infra_error_def domain_sentinels_def infra_replies_def)

lemma HandleError_domain:
  "\<not> infra_error e \<Longrightarrow> \<exists>st. st \<in> {400, 404, 409, 501, 502, 503} \<and>
     fst (HandleError e) = ReplyJSON st (error_body (err_Error e))"
  by (auto simp: HandleError_def Let_def infra_error_def domain_sentinels_def)

text \<open>
  C22: The text of an error reaches the client only when a provider put one of the domain sentinels
  into it; every other error is answered by one of five fixed documents, whatever its text. An error
  of a \<open>JobRunner\<close> that a provider passes on, also with more context, is of the second kind, so it
  never shows anything of the cluster.
\<close>
theorem HandleError_no_leak:
  "(infra_error e \<longrightarrow> fst (HandleError e) \<in> set infra_replies) \<and>
   (\<not> infra_error e \<longrightarrow> (\<exists>st. st \<in> {400, 404, 409, 501, 502, 503} \<and>
      fst (HandleError e) = ReplyJSON st (error_body (err_Error e)))) \<and>
   (fst (JobRunner_Run (kubernetesClientImpl L) A ns spec s) = Some e \<or>
    fst (JobRunner_Replace (kubernetesClientImpl L) A ns spec s) = Some e \<or>
    fst (JobRunner_Delete (kubernetesClientImpl L) ns name s) = Some e \<or>
    fst (JobRunner_State (kubernetesClientImpl L) sort_Slice ns name s) = Inl e \<longrightarrow>
      fst (HandleError (ErrWrap pre e post)) \<in> set infra_replies)"
proof (intro conjI impI)
  show "fst (HandleError e) \<in> set infra_replies" if "infra_error e"
    using that by (rule HandleError_infra)
  show "\<exists>st. st \<in> {400, 404, 409, 501, 502, 503} \<and> fst (HandleError e) = ReplyJSON st (error_body (err_Error e))"
    if "\<not> infra_error e" using that by (rule HandleError_domain)
  show "fst (HandleError (ErrWrap pre e post)) \<in> set infra_replies"
    if "fst (JobRunner_Run (kubernetesClientImpl L) A ns spec s) = Some e \<or>
      fst (JobRunner_Replace (kubernetesClientImpl L) A ns spec s) = Some e \<or>
      fst (JobRunner_Delete (kubernetesClientImpl L) ns name s) = Some e \<or>
      fst (JobRunner_State (kubernetesClientImpl L) sort_Slice ns name s) = Inl e"
    using runner_errors_infra [OF that] by (intro HandleError_infra) simp
qed

theorem HandleError_no_leak_witness:
  "fst (HandleError (ErrOther ''etcd 10.0.0.7 down'')) \<in> set infra_replies \<and>
   fst (HandleError (ErrWrap ''backup: '' (ErrWrap ''deleting job b: ''
     (wrapK8sError (mem_libs\<lparr>dynDelete := \<lambda>g n m s. (Some MemInternal, s)\<rparr>) MemInternal) '''') '''')) \<in> set infra_replies"
proof
  show "fst (HandleError (ErrOther ''etcd 10.0.0.7 down'')) \<in> set infra_replies"
    using HandleError_no_leak [of "ErrOther ''etcd 10.0.0.7 down''", THEN conjunct1] by simp
  let ?L = "mem_libs\<lparr>dynDelete := \<lambda>g n m s. (Some MemInternal, s)\<rparr>"
  let ?e = "ErrWrap ''deleting job b: '' (wrapK8sError ?L MemInternal) ''''"
  have "fst (JobRunner_Delete (kubernetesClientImpl ?L) ''rg-1'' ''b'' mem_init) = Some ?e"
    by (simp add: JobRunner_Delete_def Let_def mem_defs wrapped_sentinel_def)
  then show "fst (HandleError (ErrWrap ''backup: '' ?e '''')) \<in> set infra_replies"
    using HandleError_no_leak [of ?e ?L mem_objects "''rg-1''" demo_spec mem_init "''b''" insertionSort "''backup: ''" "''''"]
    by blast
qed

subsection \<open>What reaches a provider\<close>

lemma finish_status:
  "reply_status (fst (finish ok r)) =
     (case fst r of None \<Rightarrow> reply_status ok | Some e \<Rightarrow> reply_status (fst (HandleError e)))"
  "snd (snd (finish ok r)) = snd r"
  by (auto simp: finish_def split: prod.splits option.splits)

text \<open>
  A PATCH reaches the provider only when both parts of the body bind and its ID is the one of
  the path; the update then names that ID, a positive team and the decoded values. Any other
  PATCH is answered with 400 and leaves the provider as it is.
\<close>

lemma update_only_own_service:
  assumes "json_binding B is_url"
  shows "(\<exists>upd args. bindUpdateFields B (rqBody rq) = Inr upd \<and> bindParams B (rqBody rq) = Inr args \<and>
      sfID upd = rqParamID rq \<and> rqParamID rq \<noteq> '''' \<and> 0 < sfTeamID upd \<and>
      handle_update B P rq s = finish (ReplyStatus StatusNoContent)
        (pvUpdate P \<lparr>urID = rqParamID rq, urTeamID = sfTeamID upd,
           urCustomSubdomain = sfCustomSubdomain upd, urPause = ufPause upd, urParams = args,
           urBackups = ufBackups upd\<rparr> s)) \<or>
    ((\<forall>upd args. bindUpdateFields B (rqBody rq) = Inr upd \<and> bindParams B (rqBody rq) = Inr args \<longrightarrow>
        sfID upd \<noteq> rqParamID rq) \<and>
     (\<exists>msg. handle_update B P rq s = (ReplyJSON StatusBadRequest (error_body msg), [], s)))"
proof (cases "bindUpdateFields B (rqBody rq)")
  case (Inl msg)
  then show ?thesis by (simp add: handle_update_def)
next
  case (Inr upd)
  have "sfID upd \<noteq> ''''" "0 < sfTeamID upd"
    using json_binding.update_tags [OF assms Inr] by (simp_all add: serviceFields_tags_def)
  with Inr show ?thesis by (cases "bindParams B (rqBody rq)") (auto simp: handle_update_def)
qed

text \<open>Binders that read every body as one update, and a provider that records the last call.\<close>

definition demo_binders :: "(unit, unit, unit, string) binders" where
  "demo_binders = validating (\<lambda>_. True)
     \<lparr>bindCreate = (\<lambda>b. Inr \<lparr>sfID = b, sfTeamID = 7, sfCustomSubdomain = None,
        cbPlan = \<lparr>psParameters = ()\<rparr>, cbConfig = (), cbSecrets = (), cbRecoverFrom = Some demo_recover\<rparr>),
      bindUpdateFields = (\<lambda>b. Inr \<lparr>sfID = b, sfTeamID = 7, sfCustomSubdomain = None,
        ufPause = Some True, ufBackups = None\<rparr>),
      bindParams = Inr,
      bindBackup = (\<lambda>b. Inr \<lparr>bbMsID = b, bbTeamID = 7, bbConfig = demo_store,
        bbSecrets = \<lparr>bssSecretKey = ''k''\<rparr>, bbRetentionDays = None\<rparr>)\<rparr>"

definition demo_provider :: "(string list, unit, unit, unit, unit, string) Provider" where
  "demo_provider =
     \<lparr>pvCreate = (\<lambda>r s. (None, crID r # s)), pvList = (\<lambda>s. (Inr (Some s), s)),
      pvGetStatus = (\<lambda>ids s. (Inr None, s)), pvUpdate = (\<lambda>r s. (None, urID r # s)),
      pvDelete = (\<lambda>sid s. (None, remove1 sid s))\<rparr>"

lemma demo_binding: "json_binding demo_binders (\<lambda>_. True)"
  unfolding demo_binders_def by (rule validating.json_binding_axioms)

text \<open>What the tags say of a backup store and its key, written out.\<close>

lemma store_tags_complete:
  assumes "BackupStoreConfig_tags is_url c" "BackupStoreSecrets_tags x"
  shows "bscType c = ''s3'' \<and> bscEndpointURL c \<noteq> '''' \<and> is_url (bscEndpointURL c) \<and>
    bscBucket c \<noteq> '''' \<and> length (go_runes (bscBucket c)) \<le> 255 \<and>
    (bscPrefix c \<noteq> '''' \<longrightarrow> hd (bscPrefix c) \<noteq> CHR ''/'' \<and> last (bscPrefix c) \<noteq> CHR ''/'') \<and>
    bscAccessKeyID c \<noteq> '''' \<and> bssSecretKey x \<noteq> ''''"
  using assms by (auto simp: BackupStoreConfig_tags_def BackupStoreSecrets_tags_def tag_max_def)

text \<open>
  C25: A create whose body binds calls the provider once, with exactly the values of the body: an ID
  and a positive team, and when it asks for a recovery, exactly one of the two sources (a backup, or
  a service with a point in time) and a complete store: type S3, an endpoint URL, a bucket of at
  most 255 characters, a prefix that neither starts nor ends with a slash, an access key ID and a
  secret key. Any other create is answered with 400 and leaves the provider as it is.
\<close>
theorem create_only_valid:
  assumes "json_binding B is_url"
  shows "case bindCreate B (rqBody rq) of
      Inl msg \<Rightarrow> handle_create B P rq s = (ReplyJSON StatusBadRequest (error_body msg), [], s)
    | Inr body \<Rightarrow>
        handle_create B P rq s = finish (ReplyStatus StatusCreated)
          (pvCreate P \<lparr>crID = sfID body, crTeamID = sfTeamID body,
             crCustomSubdomain = sfCustomSubdomain body, crPlan = psParameters (cbPlan body),
             crConfig = cbConfig body, crSecrets = cbSecrets body,
             crRecoverFrom = cbRecoverFrom body\<rparr> s) \<and>
        sfID body \<noteq> '''' \<and> 0 < sfTeamID body \<and>
        (\<forall>r. cbRecoverFrom body = Some r \<longrightarrow>
           (rfID r \<noteq> '''' \<longleftrightarrow> rfMsID r = '''') \<and> (rfMsID r \<noteq> '''' \<longleftrightarrow> rfTime r \<noteq> None) \<and>
           bscType (rfConfig r) = ''s3'' \<and>
           bscEndpointURL (rfConfig r) \<noteq> '''' \<and> is_url (bscEndpointURL (rfConfig r)) \<and>
           bscBucket (rfConfig r) \<noteq> '''' \<and> length (go_runes (bscBucket (rfConfig r))) \<le> 255 \<and>
           (bscPrefix (rfConfig r) \<noteq> '''' \<longrightarrow>
              hd (bscPrefix (rfConfig r)) \<noteq> CHR ''/'' \<and> last (bscPrefix (rfConfig r)) \<noteq> CHR ''/'') \<and>
           bscAccessKeyID (rfConfig r) \<noteq> '''' \<and> bssSecretKey (rfSecrets r) \<noteq> '''')"
proof (cases "bindCreate B (rqBody rq)")
  case (Inl msg)
  then show ?thesis by (simp add: handle_create_def)
next
  case (Inr body)
  have tags: "serviceFields_tags body" "pred_option (RecoverFrom_tags is_url) (cbRecoverFrom body)"
    using json_binding.create_tags [OF assms Inr] by (simp_all add: createBody_tags_def)
  have store: "BackupStoreConfig_tags is_url (rfConfig r)" "BackupStoreSecrets_tags (rfSecrets r)"
    and source: "rfID r \<noteq> '''' \<longleftrightarrow> rfMsID r = ''''" "rfMsID r \<noteq> '''' \<longleftrightarrow> rfTime r \<noteq> None"
    if "cbRecoverFrom body = Some r" for r
  proof -
    from tags(2) that have "RecoverFrom_tags is_url r" by simp
    note t = this [unfolded RecoverFrom_tags_def]
    from t show "BackupStoreConfig_tags is_url (rfConfig r)" "BackupStoreSecrets_tags (rfSecrets r)" by blast+
    from t show "rfID r \<noteq> '''' \<longleftrightarrow> rfMsID r = ''''" "rfMsID r \<noteq> '''' \<longleftrightarrow> rfTime r \<noteq> None" by satx+
  qed
  from tags(1) have "sfID body \<noteq> '''' \<and> 0 < sfTeamID body" by (simp add: serviceFields_tags_def)
  moreover have "handle_create B P rq s = finish (ReplyStatus StatusCreated)
      (pvCreate P \<lparr>crID = sfID body, crTeamID = sfTeamID body,
         crCustomSubdomain = sfCustomSubdomain body, crPlan = psParameters (cbPlan body),
         crConfig = cbConfig body, crSecrets = cbSecrets body,
         crRecoverFrom = cbRecoverFrom body\<rparr> s)"
    using Inr by (simp add: handle_create_def)
  ultimately show ?thesis
    unfolding Inr sum.case using source store_tags_complete [OF store] by blast
qed

theorem create_only_valid_witness:
  "handle_create demo_binders demo_provider \<lparr>rqIDs = [], rqParamID = '''', rqBody = ''ms-1''\<rparr> [] =
     (ReplyStatus StatusCreated, [], [''ms-1'']) \<and>
   (\<exists>body. bindCreate demo_binders ''ms-1'' = Inr body \<and> cbRecoverFrom body = Some demo_recover)"
proof -
  let ?rq = "\<lparr>rqIDs = [], rqParamID = '''', rqBody = ''ms-1''\<rparr>"
  let ?body = "\<lparr>sfID = ''ms-1'', sfTeamID = 7, sfCustomSubdomain = None, cbPlan = \<lparr>psParameters = ()\<rparr>,
    cbConfig = (), cbSecrets = (), cbRecoverFrom = Some demo_recover\<rparr> :: (unit, unit, unit) createBody"
  have "bindCreate demo_binders ''ms-1'' = Inr ?body"
    using demo_recover_tags
    by (simp add: demo_binders_def validating_def createBody_tags_def serviceFields_tags_def)
  then obtain body where body: "bindCreate demo_binders ''ms-1'' = Inr body" "sfID body = ''ms-1''"
    "cbRecoverFrom body = Some demo_recover"
    by (rule that) simp_all
  then have "handle_create demo_binders demo_provider ?rq [] = finish (ReplyStatus StatusCreated)
      (pvCreate demo_provider \<lparr>crID = sfID body, crTeamID = sfTeamID body,
         crCustomSubdomain = sfCustomSubdomain body, crPlan = psParameters (cbPlan body),
         crConfig = cbConfig body, crSecrets = cbSecrets body, crRecoverFrom = cbRecoverFrom body\<rparr> [])"
    using create_only_valid [OF demo_binding, where rq = ?rq and P = demo_provider and s = "[]"]
    by (simp del: split_paired_All)
  with body show ?thesis by (simp add: demo_provider_def finish_def)
qed

text \<open>
  C26: The three backup routes decode a request in the same way: when its body binds, each calls only
  its own operation, once, and all three with the same request: the backup ID of the path, and from
  the body a service, a positive team, a complete store (as in the previous property) and the
  retention. A body that does not bind is answered with 400 by all three, and nothing is called.
\<close>
theorem backup_routes_same_request:
  assumes "json_binding B is_url"
  shows "(\<exists>req. brBackupID req = rqParamID rq \<and>
      (\<exists>body. bindBackup B (rqBody rq) = Inr body \<and> brServiceID req = bbMsID body \<and>
         brTeamID req = bbTeamID body \<and> brConfig req = bbConfig body \<and> brSecrets req = bbSecrets body \<and>
         brRetentionDays req = bbRetentionDays body) \<and>
      brServiceID req \<noteq> '''' \<and> 0 < brTeamID req \<and>
      bscType (brConfig req) = ''s3'' \<and>
      bscEndpointURL (brConfig req) \<noteq> '''' \<and> is_url (bscEndpointURL (brConfig req)) \<and>
      bscBucket (brConfig req) \<noteq> '''' \<and> length (go_runes (bscBucket (brConfig req))) \<le> 255 \<and>
      (bscPrefix (brConfig req) \<noteq> '''' \<longrightarrow>
         hd (bscPrefix (brConfig req)) \<noteq> CHR ''/'' \<and> last (bscPrefix (brConfig req)) \<noteq> CHR ''/'') \<and>
      bscAccessKeyID (brConfig req) \<noteq> '''' \<and> bssSecretKey (brSecrets req) \<noteq> '''' \<and>
      handle_take_backup B b rq s = finish (ReplyStatus StatusAccepted) (bkTakeBackup b req s) \<and>
      handle_backup_status B b rq s = finish_json BackupStatus_json (bkGetBackupStatus b req s) \<and>
      handle_delete_backup B b rq s = finish (ReplyStatus StatusAccepted) (bkDeleteBackup b req s)) \<or>
    (\<exists>msg. bindBackup B (rqBody rq) = Inl msg \<and>
       (\<forall>h \<in> {handle_take_backup B b, handle_backup_status B b, handle_delete_backup B b}.
          h rq s = (ReplyJSON StatusBadRequest (error_body msg), [], s)))"
proof (cases "bindBackup B (rqBody rq)")
  case (Inl msg)
  then show ?thesis by (auto simp: handler_defs)
next
  case (Inr body)
  have "backupBody_tags is_url body" by (rule json_binding.backup_tags [OF assms Inr])
  then have "bbMsID body \<noteq> '''' \<and> 0 < bbTeamID body"
    and store: "BackupStoreConfig_tags is_url (bbConfig body)" "BackupStoreSecrets_tags (bbSecrets body)"
    by (simp_all add: backupBody_tags_def)
  with Inr store_tags_complete [OF store] show ?thesis
    by (intro disjI1 exI [of _ "\<lparr>brBackupID = rqParamID rq, brServiceID = bbMsID body,
          brTeamID = bbTeamID body, brConfig = bbConfig body, brSecrets = bbSecrets body,
          brRetentionDays = bbRetentionDays body\<rparr>"])
      (simp add: handle_take_backup_def handle_backup_status_def handle_delete_backup_def
        with_backup_def parseBackup_def)
qed

definition demo_backups :: "string list Backups" where
  "demo_backups =
     \<lparr>bkTakeBackup = (\<lambda>r s. (None, brBackupID r # s)),
      bkGetBackupStatus = (\<lambda>r s. (Inl (ErrSentinel ErrBackupNotFound), s)),
      bkDeleteBackup = (\<lambda>r s. (None, remove1 (brBackupID r) s))\<rparr>"

theorem backup_routes_same_request_witness:
  "\<exists>req. brBackupID req = ''b7'' \<and> brServiceID req = ''ms-1'' \<and>
     handle_take_backup demo_binders demo_backups \<lparr>rqIDs = [], rqParamID = ''b7'', rqBody = ''ms-1''\<rparr> [] =
       finish (ReplyStatus StatusAccepted) (bkTakeBackup demo_backups req [])"
proof -
  let ?rq = "\<lparr>rqIDs = [], rqParamID = ''b7'', rqBody = ''ms-1''\<rparr>"
  have body: "bindBackup demo_binders ''ms-1'' = Inr \<lparr>bbMsID = ''ms-1'', bbTeamID = 7, bbConfig = demo_store,
      bbSecrets = \<lparr>bssSecretKey = ''k''\<rparr>, bbRetentionDays = None\<rparr>"
    using demo_store_tags
    by (simp add: demo_binders_def validating_def backupBody_tags_def BackupStoreSecrets_tags_def)
  show ?thesis
    using backup_routes_same_request [OF demo_binding, where rq = ?rq and b = demo_backups and s = "[]"] body
    by (auto simp del: ball_simps)
qed

end
