(* ===== verification/Middleware.thy ===== *)
theory Middleware
  imports Http Routes
begin

text \<open>
  The package middleware. gin is not part of the repository: its context is the type \<open>'c\<close> and the
  calls the middleware makes on it are the parameter \<open>'c gin\<close>. A handler takes the context and the
  log written so far; it returns, or panics with a value (given by its text), and leaves both
  changed. A middleware gets the rest of the chain as an argument, which is what \<open>c.Next\<close> runs; a
  middleware here always either calls \<open>Next\<close> or aborts.
\<close>

record 'c gin =
  gMethod :: "'c \<Rightarrow> string"
  gPath :: "'c \<Rightarrow> string"
  gRawQuery :: "'c \<Rightarrow> string"
  gGetHeader :: "'c \<Rightarrow> string \<Rightarrow> string"
  gClientIP :: "'c \<Rightarrow> string"
  gWriterStatus :: "'c \<Rightarrow> nat"
  gErrors :: "'c \<Rightarrow> string list"
  gErrors_String :: "string list \<Rightarrow> string"
  gNow :: "'c \<Rightarrow> go_time"
  gHeader :: "string \<Rightarrow> string \<Rightarrow> 'c \<Rightarrow> 'c"
  gJSON :: "nat \<Rightarrow> json \<Rightarrow> 'c \<Rightarrow> 'c"
  gAbort :: "'c \<Rightarrow> 'c"
  gAbortWithStatus :: "nat \<Rightarrow> 'c \<Rightarrow> 'c"
  gAbortWithStatusJSON :: "nat \<Rightarrow> json \<Rightarrow> 'c \<Rightarrow> 'c"

type_synonym 'c chain = "'c \<times> log_record list \<Rightarrow> string option \<times> 'c \<times> log_record list"

subsection \<open>Logging and headers\<close>

definition status_level :: "nat \<Rightarrow> slog_Level" where
  "status_level status =
     (if 500 \<le> status then LevelError else if 400 \<le> status then LevelWarn else LevelInfo)"

definition Logger :: "'c gin \<Rightarrow> 'c chain \<Rightarrow> 'c chain" where
  "Logger G next st =
     (let start = gNow G (fst st); path = gPath G (fst st); query = gRawQuery G (fst st)
      in case next st of
           (Some panic, st') \<Rightarrow> (Some panic, st')
         | (None, (c, log)) \<Rightarrow>
             (let latency = gNow G c - start; status = gWriterStatus G c;
                  attrs = [(''method'', LogString (gMethod G c)), (''path'', LogString path),
                    (''status'', LogInt (int status)), (''latency'', LogDuration latency),
                    (''ip'', LogString (gClientIP G c))];
                  attrs = (if query \<noteq> '''' then attrs @ [(''query'', LogString query)] else attrs);
                  attrs = (if 0 < length (gErrors G c)
                    then attrs @ [(''errors'', LogString (gErrors_String G (gErrors G c)))] else attrs)
              in (None, (c, log @ [\<lparr>lrLevel = status_level status, lrMessage = ''HTTP request'',
                   lrAttrs = attrs\<rparr>]))))"

fun set_headers :: "'c gin \<Rightarrow> (string \<times> string) list \<Rightarrow> 'c \<Rightarrow> 'c" where
  "set_headers G [] c = c"
| "set_headers G ((k, v) # hs) c = set_headers G hs (gHeader G k v c)"

definition cors_headers :: "(string \<times> string) list" where
  "cors_headers =
     [(''Access-Control-Allow-Origin'', ''*''),
      (''Access-Control-Allow-Methods'', ''GET, POST, PATCH, PUT, DELETE, OPTIONS''),
      (''Access-Control-Allow-Headers'', ''Origin, Content-Type, Authorization, X-API-Key'')]"

definition CORS :: "'c gin \<Rightarrow> 'c chain \<Rightarrow> 'c chain" where
  "CORS G next st =
     (let c = set_headers G cors_headers (fst st)
      in if gMethod G c = ''OPTIONS'' then (None, (gAbortWithStatus G StatusNoContent c, snd st))
         else next (c, snd st))"

definition security_headers :: "(string \<times> string) list" where
  "security_headers = (let none = [CHR 0x27] @ ''none'' @ [CHR 0x27] in
     [(''X-Content-Type-Options'', ''nosniff''), (''X-Frame-Options'', ''DENY''),
      (''X-XSS-Protection'', ''1; mode=block''),
      (''Referrer-Policy'', ''strict-origin-when-cross-origin''),
      (''Content-Security-Policy'',
        ''default-src '' @ none @ ''; frame-ancestors '' @ none)])"

definition SecurityHeaders :: "'c gin \<Rightarrow> 'c chain \<Rightarrow> 'c chain" where
  "SecurityHeaders G next st = next (set_headers G security_headers (fst st), snd st)"

subsection \<open>Authentication\<close>

text \<open>\<open>subtle.ConstantTimeCompare\<close>: the differences of all bytes are collected before the verdict.\<close>

definition ConstantTimeCompare :: "string \<Rightarrow> string \<Rightarrow> int" where
  "ConstantTimeCompare x y =
     (if length x \<noteq> length y then 0
      else if fold (\<lambda>(a, b) v. or v (xor (of_char a :: 8 word) (of_char b))) (zip x y) 0 = 0 then 1 else 0)"

definition presented_key :: "'c gin \<Rightarrow> 'c \<Rightarrow> string" where
  "presented_key G c =
     (let key = gGetHeader G c ''X-API-Key''
      in if key = ''''
         then (let auth = gGetHeader G c ''Authorization''
               in if strings_HasPrefix auth ''Bearer '' then strings_TrimPrefix auth ''Bearer '' else auth)
         else key)"

definition Auth :: "'c gin \<Rightarrow> string \<Rightarrow> 'c chain \<Rightarrow> 'c chain" where
  "Auth G apiKey next st =
     (if gPath G (fst st) = ''/health'' \<or> gPath G (fst st) = ''/ready'' then next st
      else if ConstantTimeCompare (presented_key G (fst st)) apiKey \<noteq> 1
      then (None, (gAbortWithStatusJSON G StatusUnauthorized (error_body ''unauthorized'') (fst st), snd st))
      else next st)"

subsection \<open>Errors\<close>

definition NotFound :: "'c gin \<Rightarrow> 'c chain" where
  "NotFound G st = (None, (gJSON G StatusNotFound (error_body ''not found'') (fst st), snd st))"

definition ErrorHandler :: "'c gin \<Rightarrow> 'c chain \<Rightarrow> 'c chain" where
  "ErrorHandler G next st =
     (case next st of
        (None, st') \<Rightarrow> (None, st')
      | (Some panic, (c, log)) \<Rightarrow>
          (None, (gAbort G (gJSON G StatusInternalServerError (error_body ''internal server error'') c),
             log @ [\<lparr>lrLevel = LevelError, lrMessage = ''panic recovered'',
               lrAttrs = [(''panic'', LogString panic), (''path'', LogString (gPath G c)),
                 (''method'', LogString (gMethod G c))]\<rparr>])))"

subsection \<open>The contract of gin and of a middleware\<close>

text \<open>
  A later context of the same request: same method, path and request headers, and no response
  header taken back. \<open>resp\<close> reads the response headers set so far.
\<close>

definition same_request :: "'c gin \<Rightarrow> ('c \<Rightarrow> string \<Rightarrow> string option) \<Rightarrow> 'c \<Rightarrow> 'c \<Rightarrow> bool" where
  "same_request G resp c c' \<longleftrightarrow>
     gMethod G c' = gMethod G c \<and> gPath G c' = gPath G c \<and> gGetHeader G c' = gGetHeader G c \<and>
     dom (resp c) \<subseteq> dom (resp c')"

lemma same_request_refl [simp]: "same_request G resp c c"
  by (simp add: same_request_def)

lemma same_request_trans: "same_request G resp a b \<Longrightarrow> same_request G resp b c \<Longrightarrow> same_request G resp a c"
  by (auto simp: same_request_def)

lemma presented_key_same: "same_request G resp c c' \<Longrightarrow> presented_key G c' = presented_key G c"
  by (simp add: same_request_def presented_key_def Let_def)

text \<open>
  A middleware passes the request on: what it does is decided by what the rest of the chain does on
  later contexts of the same request.
\<close>

locale middleware =
  fixes G :: "'c gin" and resp :: "'c \<Rightarrow> string \<Rightarrow> string option"
    and M :: "'c chain \<Rightarrow> 'c chain"
  assumes passes_request: "(\<And>c' log'. same_request G resp c c' \<Longrightarrow> k (c', log') = k' (c', log')) \<Longrightarrow>
    M k (c, log) = M k' (c, log)"

locale gin_context =
  fixes G :: "'c gin" and resp :: "'c \<Rightarrow> string \<Rightarrow> string option"
  assumes header_resp: "resp (gHeader G k v c) = (resp c)(k \<mapsto> v)"
    and header_method: "gMethod G (gHeader G k v c) = gMethod G c"
    and header_path: "gPath G (gHeader G k v c) = gPath G c"
    and header_request: "gGetHeader G (gHeader G k v c) = gGetHeader G c"
begin

lemma same_request_header: "same_request G resp c (gHeader G k v c)"
  by (auto simp: same_request_def header_resp header_method header_path header_request)

lemma same_request_set_headers: "same_request G resp c (set_headers G hs c)"
  by (induction hs arbitrary: c) (auto, metis same_request_header same_request_trans)

lemma resp_set_headers: "resp (set_headers G hs c) = resp c ++ map_of (rev hs)"
  by (induction hs arbitrary: c) (auto simp: header_resp)

end

sublocale gin_context \<subseteq> logger: middleware G resp "Logger G"
  by unfold_locales (simp add: Logger_def)

sublocale gin_context \<subseteq> security: middleware G resp "SecurityHeaders G"
  by unfold_locales (simp add: SecurityHeaders_def same_request_set_headers)

sublocale gin_context \<subseteq> cors: middleware G resp "CORS G"
  by unfold_locales (simp add: CORS_def Let_def same_request_set_headers)

sublocale gin_context \<subseteq> auth: middleware G resp "Auth G key" for key
  by unfold_locales (simp add: Auth_def)

sublocale gin_context \<subseteq> recovery: middleware G resp "ErrorHandler G"
  by unfold_locales (simp add: ErrorHandler_def)

context gin_context
begin

lemmas middlewares = logger.middleware_axioms security.middleware_axioms cors.middleware_axioms
  auth.middleware_axioms recovery.middleware_axioms

end

subsection \<open>A concrete context\<close>

text \<open>
  A context with the request, the response headers and the response, for the witnesses. The first
  status written stays.
\<close>

record demo_context =
  dcMethod :: string
  dcPath :: string
  dcRequestHeaders :: "(string \<times> string) list"
  dcHeaders :: "string \<Rightarrow> string option"
  dcStatus :: nat
  dcBody :: "json list"
  dcAborted :: bool

definition demo_gin :: "demo_context gin" where
  "demo_gin =
     \<lparr>gMethod = dcMethod, gPath = dcPath, gRawQuery = (\<lambda>c. ''''),
      gGetHeader = (\<lambda>c k. case map_of (dcRequestHeaders c) k of None \<Rightarrow> '''' | Some v \<Rightarrow> v),
      gClientIP = (\<lambda>c. ''192.0.2.1''), gWriterStatus = dcStatus, gErrors = (\<lambda>c. []),
      gErrors_String = concat, gNow = (\<lambda>c. 0),
      gHeader = (\<lambda>k v c. c\<lparr>dcHeaders := (dcHeaders c)(k \<mapsto> v)\<rparr>),
      gJSON = (\<lambda>st j c. c\<lparr>dcStatus := (if dcBody c = [] then st else dcStatus c), dcBody := dcBody c @ [j]\<rparr>),
      gAbort = (\<lambda>c. c\<lparr>dcAborted := True\<rparr>),
      gAbortWithStatus = (\<lambda>st c. c\<lparr>dcStatus := st, dcAborted := True\<rparr>),
      gAbortWithStatusJSON = (\<lambda>st j c. c\<lparr>dcStatus := (if dcBody c = [] then st else dcStatus c),
        dcBody := dcBody c @ [j], dcAborted := True\<rparr>)\<rparr>"

interpretation demo: gin_context demo_gin dcHeaders
  by unfold_locales (simp_all add: demo_gin_def)

subsection \<open>Constant-time comparison\<close>

lemma word_xor_zero: "xor (v :: 8 word) w = 0 \<longleftrightarrow> v = w"
proof
  assume "xor v w = 0"
  then have "xor (xor v w) w = w" by simp
  then show "v = w" by (simp add: xor.assoc)
qed simp

lemma of_char_byte_eq: "xor (of_char a :: 8 word) (of_char b) = 0 \<longleftrightarrow> a = b"
proof -
  have "(of_char c :: 8 word) = of_nat (of_char c)" for c by (simp add: of_nat_of_char)
  then have "(of_char a :: 8 word) = of_char b \<longleftrightarrow> (of_char a :: nat) mod 256 = of_char b mod 256"
    by (simp add: word_of_nat_eq_iff take_bit_eq_mod)
  then show ?thesis unfolding word_xor_zero by simp
qed

lemma fold_or_zero:
  "fold (\<lambda>(a, b) v. or v (xor (of_char a :: 8 word) (of_char b))) ps v = 0 \<longleftrightarrow>
   v = 0 \<and> (\<forall>(a, b) \<in> set ps. a = b)"
  by (induction ps arbitrary: v) (auto simp: of_char_byte_eq or_eq_0_iff)

lemma ConstantTimeCompare_eq: "ConstantTimeCompare x y = 1 \<longleftrightarrow> x = y"
proof -
  have "length x = length y \<Longrightarrow> (\<forall>(a, b) \<in> set (zip x y). a = b) \<longleftrightarrow> x = y"
    by (induction x y rule: list_induct2) auto
  then show ?thesis by (auto simp: ConstantTimeCompare_def fold_or_zero)
qed

end
