(* ===== verification/Config.thy ===== *)
theory Config
  imports GoStrconv
begin

text \<open>
  The package config: the settings read from the environment, given as the function
  \<open>os.Getenv\<close>, which returns the empty string for a variable that is not set.
\<close>

record Config =
  cfgPort :: int
  cfgAPIKey :: string
  cfgKubeconfig :: string
  cfgEnvironment :: string

definition getEnv :: "(string \<Rightarrow> string) \<Rightarrow> string \<Rightarrow> string \<Rightarrow> string" where
  "getEnv env key defaultValue = (if env key \<noteq> '''' then env key else defaultValue)"

definition getEnvInt :: "(string \<Rightarrow> string) \<Rightarrow> string \<Rightarrow> int \<Rightarrow> int" where
  "getEnvInt env key defaultValue =
     (if env key \<noteq> ''''
      then (case strconv_Atoi (env key) of Some intValue \<Rightarrow> intValue | None \<Rightarrow> defaultValue)
      else defaultValue)"

definition Load :: "(string \<Rightarrow> string) \<Rightarrow> Config" where
  "Load env =
     \<lparr>cfgPort = getEnvInt env ''PORT'' 8080, cfgAPIKey = getEnv env ''API_KEY'' '''',
      cfgKubeconfig = getEnv env ''KUBECONFIG'' '''',
      cfgEnvironment = getEnv env ''ENVIRONMENT'' ''development''\<rparr>"

definition IsDevelopment :: "Config \<Rightarrow> bool" where
  "IsDevelopment c \<longleftrightarrow> cfgEnvironment c = ''development''"

definition IsProduction :: "Config \<Rightarrow> bool" where
  "IsProduction c \<longleftrightarrow> cfgEnvironment c = ''production''"

lemma strconv_Atoi_empty [simp]: "strconv_Atoi '''' = None"
  by (simp add: strconv_Atoi_def)

text \<open>
  C40: The port is the one written in \<open>PORT\<close> whenever that is a decimal 64-bit integer (negative ones
  and ones above 65535 included), and 8080 for every other text; without an environment the
  configuration is a development one without a key.
\<close>
theorem Load_port:
  "(\<forall>n. in_int64 n \<and> env ''PORT'' = fmt_d n \<longrightarrow> cfgPort (Load env) = n) \<and>
   (strconv_Atoi (env ''PORT'') = None \<longrightarrow> cfgPort (Load env) = 8080) \<and>
   in_int64 (cfgPort (Load env)) \<and> cfgAPIKey (Load env) = env ''API_KEY'' \<and>
   (env ''ENVIRONMENT'' = '''' \<longrightarrow> IsDevelopment (Load env) \<and> \<not> IsProduction (Load env))"
proof (intro conjI allI impI)
  have port: "cfgPort (Load env) = (case strconv_Atoi (env ''PORT'') of Some n \<Rightarrow> n | None \<Rightarrow> 8080)"
    by (simp add: Load_def getEnvInt_def)
  show "cfgPort (Load env) = n" if "in_int64 n \<and> env ''PORT'' = fmt_d n" for n
    using that by (simp add: port Atoi_fmt_d)
  show "cfgPort (Load env) = 8080" if "strconv_Atoi (env ''PORT'') = None"
    using that by (simp add: port)
  have "in_int64 8080" by (simp add: in_int64_def)
  then show "in_int64 (cfgPort (Load env))" by (simp add: port Atoi_range split: option.splits)
  show "cfgAPIKey (Load env) = env ''API_KEY''" by (simp add: Load_def getEnv_def)
  show "IsDevelopment (Load env)" "\<not> IsProduction (Load env)" if "env ''ENVIRONMENT'' = ''''"
    using that by (simp_all add: Load_def getEnv_def IsDevelopment_def IsProduction_def)
qed

theorem Load_port_witness:
  "cfgPort (Load ((\<lambda>_. '''')(''PORT'' := fmt_d 9090))) = 9090"
  using Load_port [of "(\<lambda>_. '''')(''PORT'' := fmt_d 9090)"] by (simp add: in_int64_def)

end
