(* ===== verification/Server.thy ===== *)
theory Server
  imports Middleware Config
begin

text \<open>
  The package api: the middleware chain and the route table that \<open>NewServer\<close> puts together, and the
  life cycle of the listener. The instrumentation of OpenTelemetry is a middleware given as a
  parameter, as are \<open>ListenAndServe\<close> and \<open>Shutdown\<close> of \<open>net/http\<close>. A path is made by
  concatenation, which is what gin does for group paths without empty or relative segments.
\<close>

definition apiVersion :: string where "apiVersion = ''v1''"

definition server_chain :: "'c gin \<Rightarrow> ('c chain \<Rightarrow> 'c chain) \<Rightarrow> Config \<Rightarrow> 'c chain \<Rightarrow> 'c chain" where
  "server_chain G otelgin cfg routes =
     otelgin (ErrorHandler G (Logger G (SecurityHeaders G (CORS G
       (if cfgAPIKey cfg \<noteq> '''' then Auth G (cfgAPIKey cfg) routes else routes)))))"

subsection \<open>Routes\<close>

definition healthHandler :: "'s http_handler" where
  "healthHandler rq s = (ReplyJSON StatusOK (JObj [(''status'', JStr ''healthy'')]), [], s)"

definition readyHandler :: "'s http_handler" where
  "readyHandler rq s = (ReplyJSON StatusOK (JObj [(''status'', JStr ''ready'')]), [], s)"

definition rootHandler :: "'s http_handler" where
  "rootHandler rq s =
     (ReplyJSON StatusOK (JObj [(''message'', JStr ''Managed Services API''), (''version'', JStr apiVersion)]), [], s)"

type_synonym 's route_table = "((string \<times> string) \<times> 's http_handler) list"

definition group_routes :: "string \<Rightarrow> 's route_table \<Rightarrow> 's route_table" where
  "group_routes pre rs = map (\<lambda>((m, p), h). ((m, pre @ p), h)) rs"

definition setupRoutes :: "(string, 's route_table) go_map \<Rightarrow> 's route_table" where
  "setupRoutes providerRoutes =
     (let api = ''/api/'' @ apiVersion
      in [((''GET'', ''/health''), healthHandler), ((''GET'', ''/ready''), readyHandler),
          ((''GET'', api @ ''/''), rootHandler)] @
         concat (map (\<lambda>(path, register). group_routes (api @ ''/'' @ path) register) providerRoutes))"

subsection \<open>Life cycle\<close>

record http_Server =
  hsAddr :: string
  hsReadTimeout :: duration
  hsWriteTimeout :: duration
  hsIdleTimeout :: duration
  hsReadHeaderTimeout :: duration

text \<open>
  The middleware installed on the router and its routes are what a server is made of; \<open>NewServer\<close>
  also reports whether it switched gin to release mode.
\<close>

record ('c, 's) Server =
  svCfg :: Config
  svMiddleware :: "'c chain \<Rightarrow> 'c chain"
  svRouter :: "'s route_table"
  svHTTPServer :: "http_Server option"
  svProviderRoutes :: "(string, 's route_table) go_map"

definition NewServer ::
  "'c gin \<Rightarrow> ('c chain \<Rightarrow> 'c chain) \<Rightarrow> Config \<Rightarrow> (string, 's route_table) go_map \<Rightarrow>
   bool \<times> ('c, 's) Server" where
  "NewServer G otelgin cfg providerRoutes =
     (IsProduction cfg,
      \<lparr>svCfg = cfg, svMiddleware = server_chain G otelgin cfg, svRouter = setupRoutes providerRoutes,
       svHTTPServer = None, svProviderRoutes = providerRoutes\<rparr>)"

definition Server_Run ::
  "(http_Server \<Rightarrow> 's route_table \<Rightarrow> go_error option) \<Rightarrow> ('c, 's) Server \<Rightarrow>
   go_error option \<times> ('c, 's) Server" where
  "Server_Run ListenAndServe s =
     (let srv = \<lparr>hsAddr = '':'' @ fmt_d (cfgPort (svCfg s)),
            hsReadTimeout = 15 * 1000000000, hsWriteTimeout = 15 * 1000000000,
            hsIdleTimeout = 60 * 1000000000, hsReadHeaderTimeout = 5 * 1000000000\<rparr>;
          s' = s\<lparr>svHTTPServer := Some srv\<rparr>
      in (ListenAndServe srv (svRouter s'), s'))"

definition Server_Handler :: "('c, 's) Server \<Rightarrow> ('c chain \<Rightarrow> 'c chain) \<times> 's route_table" where
  "Server_Handler s = (svMiddleware s, svRouter s)"

definition Server_Shutdown ::
  "(http_Server \<Rightarrow> go_error option) \<Rightarrow> ('c, 's) Server \<Rightarrow> go_error option" where
  "Server_Shutdown shutdown s =
     (case svHTTPServer s of None \<Rightarrow> None | Some srv \<Rightarrow> shutdown srv)"

subsection \<open>What the chain guarantees\<close>

text \<open>Only the middleware from \<open>CORS\<close> on decides whether a route is reached.\<close>

lemma server_chain_cong:
  assumes gin: "gin_context G resp" and otel: "middleware G resp otelgin"
    and same: "\<And>c' log'. same_request G resp c c' \<Longrightarrow>
      set (map fst (security_headers)) \<subseteq> dom (resp c') \<Longrightarrow>
      CORS G (if cfgAPIKey cfg \<noteq> '''' then Auth G (cfgAPIKey cfg) h else h) (c', log') =
      CORS G (if cfgAPIKey cfg \<noteq> '''' then Auth G (cfgAPIKey cfg) h' else h') (c', log')"
  shows "server_chain G otelgin cfg h (c, log) = server_chain G otelgin cfg h' (c, log)"
proof -
  note header = gin_context.same_request_set_headers [OF gin]
  have dom: "set (map fst hs) \<subseteq> dom (resp (set_headers G hs c'))" for hs c'
    using gin_context.resp_set_headers [OF gin, of hs c'] by (auto simp: dom_map_of_conv_image_fst)
  have sec: "SecurityHeaders G (CORS G (if cfgAPIKey cfg \<noteq> '''' then Auth G (cfgAPIKey cfg) h else h)) (c', log') =
    SecurityHeaders G (CORS G (if cfgAPIKey cfg \<noteq> '''' then Auth G (cfgAPIKey cfg) h' else h')) (c', log')"
    if "same_request G resp c c'" for c' log'
    unfolding SecurityHeaders_def fst_conv snd_conv
    by (rule same [OF same_request_trans [OF that header] dom])
  show ?thesis
    unfolding server_chain_def
    by (intro middleware.passes_request [OF otel]
        middleware.passes_request [OF gin_context.middlewares(5) [OF gin]]
        middleware.passes_request [OF gin_context.middlewares(1) [OF gin]] sec)
      (auto intro: same_request_trans)
qed

lemma Auth_refuses:
  assumes "gPath G c \<noteq> ''/health''" "gPath G c \<noteq> ''/ready''" "presented_key G c \<noteq> key"
  shows "Auth G key h (c, log) =
    (None, (gAbortWithStatusJSON G StatusUnauthorized (error_body ''unauthorized'') c, log))"
  using assms by (simp add: Auth_def ConstantTimeCompare_eq)

text \<open>
  A request without the configured API key, and a CORS preflight in any case, never reaches a
  route: what happens is the same whatever the routes do, except on the two health paths.
\<close>

lemma unauthenticated_chain:
  assumes "gin_context G resp" "middleware G resp otelgin"
    and "gMethod G c = ''OPTIONS'' \<or> cfgAPIKey cfg \<noteq> '''' \<and>
      gPath G c \<noteq> ''/health'' \<and> gPath G c \<noteq> ''/ready'' \<and> presented_key G c \<noteq> cfgAPIKey cfg"
  shows "server_chain G otelgin cfg h (c, log) = server_chain G otelgin cfg h' (c, log)"
proof (rule server_chain_cong [OF assms(1,2)])
  fix c' log'
  assume "same_request G resp c c'"
  then have same: "same_request G resp c (set_headers G cors_headers c')"
    by (rule same_request_trans) (rule gin_context.same_request_set_headers [OF assms(1)])
  from assms(3) show "CORS G (if cfgAPIKey cfg \<noteq> '''' then Auth G (cfgAPIKey cfg) h else h) (c', log') =
    CORS G (if cfgAPIKey cfg \<noteq> '''' then Auth G (cfgAPIKey cfg) h' else h') (c', log')"
  proof
    assume "gMethod G c = ''OPTIONS''"
    with same show ?thesis by (simp add: CORS_def Let_def same_request_def)
  next
    assume "cfgAPIKey cfg \<noteq> '''' \<and> gPath G c \<noteq> ''/health'' \<and> gPath G c \<noteq> ''/ready'' \<and>
      presented_key G c \<noteq> cfgAPIKey cfg"
    with same presented_key_same [OF same] show ?thesis
      by (simp add: CORS_def Let_def same_request_def Auth_refuses)
  qed
qed

definition demo_cfg :: Config where
  "demo_cfg = \<lparr>cfgPort = 8080, cfgAPIKey = ''k3y'', cfgKubeconfig = '''', cfgEnvironment = ''test''\<rparr>"

definition demo_call :: "(string \<times> string) list \<Rightarrow> demo_context" where
  "demo_call headers = \<lparr>dcMethod = ''GET'', dcPath = ''/api/v1/pg'', dcRequestHeaders = headers,
     dcHeaders = Map.empty, dcStatus = 200, dcBody = [], dcAborted = False\<rparr>"

lemma demo_otel: "middleware demo_gin dcHeaders (\<lambda>k. k)"
  by unfold_locales simp

text \<open>
  Every response header of the security and CORS middleware is set before a route runs: the
  routes are only ever called on contexts that have all eight.
\<close>
lemma headers_before_routes:
  assumes "gin_context G resp" "middleware G resp otelgin"
    and "\<And>c' log'. set (map fst (security_headers @ cors_headers)) \<subseteq> dom (resp c') \<Longrightarrow>
      h (c', log') = h' (c', log')"
  shows "server_chain G otelgin cfg h (c, log) = server_chain G otelgin cfg h' (c, log)"
proof (rule server_chain_cong [OF assms(1,2)])
  fix c' log'
  assume sec: "set (map fst security_headers) \<subseteq> dom (resp c')"
  let ?c = "set_headers G cors_headers c'"
  have "set (map fst (security_headers @ cors_headers)) \<subseteq> dom (resp ?c)"
    using sec gin_context.resp_set_headers [OF assms(1), of cors_headers c']
    by (auto simp: dom_map_of_conv_image_fst)
  then have "h (?c, log') = h' (?c, log')" by (rule assms(3))
  then show "CORS G (if cfgAPIKey cfg \<noteq> '''' then Auth G (cfgAPIKey cfg) h else h) (c', log') =
    CORS G (if cfgAPIKey cfg \<noteq> '''' then Auth G (cfgAPIKey cfg) h' else h') (c', log')"
    by (simp add: CORS_def Let_def Auth_def)
qed

text \<open>
  A request that does not panic is logged exactly once, after the routes, at a level that grows
  with the status: errors from 500, warnings from 400.
\<close>
lemma Logger_one_record:
  assumes "rest st = (None, (c, log))"
  shows "\<exists>attrs l. Logger G rest st = (None, (c, log @ [\<lparr>lrLevel = l, lrMessage = ''HTTP request'', lrAttrs = attrs\<rparr>])) \<and>
    map_of attrs ''status'' = Some (LogInt (int (gWriterStatus G c))) \<and>
    (LevelWarn \<le> l \<longleftrightarrow> 400 \<le> gWriterStatus G c) \<and> (LevelError \<le> l \<longleftrightarrow> 500 \<le> gWriterStatus G c)"
  using assms
  by (simp add: Logger_def Let_def status_level_def less_eq_slog_Level_def)

subsection \<open>The route table\<close>

text \<open>
  A pattern and a path match when they have the same number of segments and each segment of the
  pattern is a parameter (it starts with a colon, and takes any segment) or the same text.
\<close>

fun segments_match :: "string list \<Rightarrow> string list \<Rightarrow> bool" where
  "segments_match [] [] \<longleftrightarrow> True"
| "segments_match (p # ps) (s # ss) \<longleftrightarrow>
     (strings_HasPrefix p '':'' \<and> s \<noteq> '''' \<or> p = s) \<and> segments_match ps ss"
| "segments_match _ _ \<longleftrightarrow> False"

definition route_matches :: "string \<times> string \<Rightarrow> string \<times> string \<Rightarrow> bool" where
  "route_matches pat rq \<longleftrightarrow> fst pat = fst rq \<and> segments_match (split_slash (snd pat)) (split_slash (snd rq))"

lemma segments_match_length: "segments_match ps ss \<Longrightarrow> length ps = length ss"
  by (induction ps ss rule: segments_match.induct) auto

definition provider_table ::
  "('p \<Rightarrow> json) \<Rightarrow> ('c \<Rightarrow> json) \<Rightarrow> ('d \<Rightarrow> json) \<Rightarrow> ('p, 'c, 'x, 'v) binders \<Rightarrow>
   ('s, 'p, 'c, 'x, 'd, 'v) Provider \<Rightarrow> 's Backups \<Rightarrow> 's Maintenance \<Rightarrow> 's route_table" where
  "provider_table encP encC encD B P b m =
     RegisterRoutes encP encC encD B P @ RegisterBackupRoutes B b @ RegisterMaintenanceRoutes m"

lemmas table_defs = provider_table_def RegisterRoutes_def RegisterBackupRoutes_def RegisterMaintenanceRoutes_def

fun split_comma :: "string \<Rightarrow> string list" where
  "split_comma [] = [[]]"
| "split_comma [c] = [[c]]"
| "split_comma (c # d # s) =
     (if c = CHR '','' \<and> d = CHR '' '' then [] # split_comma s
      else (case split_comma (d # s) of [] \<Rightarrow> [[c]] | t # ts \<Rightarrow> (c # t) # ts))"

text \<open>
  A provider that registers its service, backup and maintenance routes on one group has eight
  routes, no request matches two of them, and every method they use is one the CORS preflight
  allows.
\<close>

lemma provider_routes_unambiguous:
  "length (provider_table encP encC encD B P b m) = 8 \<and>
   (\<forall>rq. length (filter (\<lambda>r. route_matches (fst r) rq) (provider_table encP encC encD B P b m)) \<le> 1) \<and>
   (\<forall>r \<in> set (provider_table encP encC encD B P b m).
      fst (fst r) \<in> set (split_comma (the (map_of cors_headers ''Access-Control-Allow-Methods''))))"
proof (intro conjI allI)
  show "length (provider_table encP encC encD B P b m) = 8" by (simp add: table_defs)
  show "\<forall>r \<in> set (provider_table encP encC encD B P b m).
      fst (fst r) \<in> set (split_comma (the (map_of cors_headers ''Access-Control-Allow-Methods'')))"
    by (simp add: table_defs cors_headers_def)
  fix rq :: "string \<times> string"
  have pat: "route_matches (meth, p) rq \<Longrightarrow> meth = fst rq \<and> length (split_slash p) = length (split_slash (snd rq))"
    for meth p by (auto simp: route_matches_def dest: segments_match_length)
  show "length (filter (\<lambda>r. route_matches (fst r) rq) (provider_table encP encC encD B P b m)) \<le> 1"
    using pat [of "''GET''" "''''"] pat [of "''POST''" "''''"] pat [of "''PATCH''" "''/:id''"]
      pat [of "''DELETE''" "''/:id''"] pat [of "''PUT''" "''/backups/:id''"]
      pat [of "''POST''" "''/backups/:id/status''"] pat [of "''DELETE''" "''/backups/:id''"]
      pat [of "''POST''" "''/:id/maintenance''"]
    by (auto simp: table_defs)
qed

end
