(* ===== verification/Telemetry.thy ===== *)
theory Telemetry
  imports Http
begin

text \<open>
  The package telemetry. The exporters and providers of OpenTelemetry are parameters: \<open>otel_libs\<close>
  holds their constructors, which may fail. The state is the global registry, and the meter
  providers made so far, each of which exports in the background until it is shut down.
\<close>

record ('rs, 'me, 'te) otel_libs =
  resource_New :: "string \<Rightarrow> string \<Rightarrow> go_error + 'rs"
  otlpmetrichttp_New :: "go_error + 'me"
  otlptracehttp_New :: "go_error + 'te"
  runtime_Start :: "'me \<times> 'rs \<Rightarrow> go_error option"
  tp_Shutdown :: "'te \<times> 'rs \<Rightarrow> go_error option"
  mp_Shutdown :: "'me \<times> 'rs \<Rightarrow> go_error option"

record ('rs, 'me, 'te) otel_state =
  osMeterProvider :: "('me \<times> 'rs) option"
  osTracerProvider :: "('te \<times> 'rs) option"
  osPropagators :: "string list"
  osMade :: "('me \<times> 'rs) list"

datatype ('rs, 'me, 'te) shutdown = Noop | ShutdownBoth "'te \<times> 'rs" "'me \<times> 'rs"


definition Setup ::
  "(string \<Rightarrow> string) \<Rightarrow> string \<Rightarrow> ('rs, 'me, 'te) otel_libs \<Rightarrow> string \<Rightarrow> ('rs, 'me, 'te) otel_state \<Rightarrow>
   (('rs, 'me, 'te) shutdown \<times> go_error option) \<times> ('rs, 'me, 'te) otel_state" where
  "Setup env hostname T serviceName s =
     (if env ''OTEL_EXPORTER_OTLP_ENDPOINT'' = '''' then ((Noop, None), s)
      else (case resource_New T serviceName hostname of
          Inl err \<Rightarrow> ((Noop, Some err), s)
        | Inr res \<Rightarrow> (case otlpmetrichttp_New T of
            Inl err \<Rightarrow> ((Noop, Some err), s)
          | Inr metricExporter \<Rightarrow>
              (let mp = (metricExporter, res); s = s\<lparr>osMade := osMade s @ [mp]\<rparr>
               in case otlptracehttp_New T of
                    Inl err \<Rightarrow> ((Noop, Some err), s)
                  | Inr traceExporter \<Rightarrow>
                      (let tp = (traceExporter, res);
                           s = s\<lparr>osMeterProvider := Some mp, osTracerProvider := Some tp,
                                 osPropagators := [''tracecontext'', ''baggage'']\<rparr>
                       in case runtime_Start T mp of
                            Some err \<Rightarrow> ((ShutdownBoth tp mp, Some err), s)
                          | None \<Rightarrow> ((ShutdownBoth tp mp, None), s))))))"

definition Transport :: "('t \<Rightarrow> 't) \<Rightarrow> 't \<Rightarrow> 't option \<Rightarrow> 't" where
  "Transport otelhttp_NewTransport DefaultTransport base =
     otelhttp_NewTransport (case base of None \<Rightarrow> DefaultTransport | Some b \<Rightarrow> b)"

subsection \<open>Trace IDs in log records\<close>

text \<open>The span of a context, as \<open>trace.SpanContextFromContext\<close> gives it: valid, or no span.\<close>

record SpanContext =
  scIsValid :: bool
  scTraceID :: string
  scSpanID :: string

record ('h, 's) slog_ops =
  slHandle :: "'h \<Rightarrow> SpanContext \<Rightarrow> log_record \<Rightarrow> 's \<Rightarrow> go_error option \<times> 's"
  slWithAttrs :: "(string \<times> log_value) list \<Rightarrow> 'h \<Rightarrow> 'h"
  slWithGroup :: "string \<Rightarrow> 'h \<Rightarrow> 'h"

datatype 'h logHandler = LogHandler (inner: 'h)

definition logHandler_Handle ::
  "('h, 's) slog_ops \<Rightarrow> 'h logHandler \<Rightarrow> SpanContext \<Rightarrow> log_record \<Rightarrow> 's \<Rightarrow> go_error option \<times> 's" where
  "logHandler_Handle S h sc r s =
     (let r = (if scIsValid sc
            then r\<lparr>lrAttrs := lrAttrs r @ [(''trace_id'', LogString (scTraceID sc)),
                   (''span_id'', LogString (scSpanID sc))]\<rparr> else r)
      in slHandle S (inner h) sc r s)"

definition logHandler_WithAttrs ::
  "('h, 's) slog_ops \<Rightarrow> (string \<times> log_value) list \<Rightarrow> 'h logHandler \<Rightarrow> 'h logHandler" where
  "logHandler_WithAttrs S attrs h = LogHandler (slWithAttrs S attrs (inner h))"

definition logHandler_WithGroup :: "('h, 's) slog_ops \<Rightarrow> string \<Rightarrow> 'h logHandler \<Rightarrow> 'h logHandler" where
  "logHandler_WithGroup S name h = LogHandler (slWithGroup S name (inner h))"

subsection \<open>Setup is all or nothing\<close>






text \<open>
  When the trace exporter cannot be made, the meter provider made just before stays: it is
  neither registered nor shut down by the returned function.
\<close>
lemma Setup_leaks_meter_provider:
  assumes "env ''OTEL_EXPORTER_OTLP_ENDPOINT'' \<noteq> ''''" "resource_New T serviceName hostname = Inr res"
    and "otlpmetrichttp_New T = Inr me" "otlptracehttp_New T = Inl err"
  shows "Setup env hostname T serviceName s = ((Noop, Some err), s\<lparr>osMade := osMade s @ [(me, res)]\<rparr>)"
  using assms by (simp add: Setup_def Let_def)

text \<open>
  C39: However a logger is derived from a \<open>LogHandler\<close> with attributes and groups, it writes what the
  plain handler derived the same way would write of the record with the IDs of the active span
  appended, and of the record as it is without a span.
\<close>
theorem derived_loggers_keep_trace:
  "logHandler_Handle S (foldr (\<lambda>d h. case d of Inl attrs \<Rightarrow> logHandler_WithAttrs S attrs h
       | Inr name \<Rightarrow> logHandler_WithGroup S name h) ds (LogHandler h0)) sc r s =
   slHandle S (foldr (\<lambda>d h. case d of Inl attrs \<Rightarrow> slWithAttrs S attrs h
       | Inr name \<Rightarrow> slWithGroup S name h) ds h0) sc
     (if scIsValid sc
      then r\<lparr>lrAttrs := lrAttrs r @ [(''trace_id'', LogString (scTraceID sc)), (''span_id'', LogString (scSpanID sc))]\<rparr>
      else r) s"
proof -
  have "inner (foldr (\<lambda>d h. case d of Inl attrs \<Rightarrow> logHandler_WithAttrs S attrs h
       | Inr name \<Rightarrow> logHandler_WithGroup S name h) ds (LogHandler h0)) =
     foldr (\<lambda>d h. case d of Inl attrs \<Rightarrow> slWithAttrs S attrs h | Inr name \<Rightarrow> slWithGroup S name h) ds h0"
    by (induction ds) (auto simp: logHandler_WithAttrs_def logHandler_WithGroup_def split: sum.splits)
  then show ?thesis by (simp add: logHandler_Handle_def Let_def)
qed

end
