(* ===== verification/JobProtocol.thy ===== *)
theory JobProtocol
  imports ServiceJob
begin

text \<open>
  Several callers of one cluster at a time (\<open>client/jobrunner.go\<close>, seen one API call at a time).
  A caller is a thread with the call it makes next; \<open>thread_exec\<close> makes that call and decides how the
  method goes on. Threads are interleaved in any order by the step relation \<open>sys_step\<close>. Run alone, a
  thread does what the method does in one piece (\<open>thread_run\<close>), which ties the two descriptions.
\<close>

subsection \<open>Threads\<close>

datatype operation = OpRun | OpReplace | OpDelete

datatype pc =
    AtDeleteJob
  | AtDeleteSecret
  | AtCreateSecret
  | AtCreateJob
  | AtAdopt string
  | Returned "go_error option"

record 'r thread =
  thOp :: operation
  thNamespace :: string
  thSpec :: "'r JobSpec"
  thPc :: pc
  thCreated :: bool

definition run_entry :: "'r JobSpec \<Rightarrow> pc" where
  "run_entry spec = (if jspSecrets spec \<noteq> [] then AtCreateSecret else AtCreateJob)"

definition new_thread :: "operation \<Rightarrow> string \<Rightarrow> 'r JobSpec \<Rightarrow> 'r thread" where
  "new_thread op ns spec =
     \<lparr>thOp = op, thNamespace = ns, thSpec = spec,
      thPc = (if op = OpRun then run_entry spec else AtDeleteJob), thCreated = False\<rparr>"

definition thread_key :: "'r thread \<Rightarrow> string \<times> string" where
  "thread_key t = (thNamespace t, jspName (thSpec t))"

abbreviation running :: "'r thread \<Rightarrow> bool" where
  "running t \<equiv> \<forall>r. thPc t \<noteq> Returned r"

text \<open>
  One API call, and how the method goes on: of \<open>Delete\<close>, which continues at \<open>after\<close> when nothing is in
  its way; of \<open>Run\<close>; and of \<open>Replace\<close>, which is \<open>Delete\<close> and then \<open>Run\<close>. The ghost field \<open>thCreated\<close>
  records that this thread's creation of the Job succeeded.
\<close>

definition goto :: "pc \<Rightarrow> 'r thread \<Rightarrow> 'r thread" where
  "goto l t = t\<lparr>thPc := l\<rparr>"

definition fail :: "string \<Rightarrow> go_error \<Rightarrow> 'r thread \<Rightarrow> 'r thread" where
  "fail msg e = goto (Returned (Some (ErrWrap (msg @ '': '') e '''')))"

definition delete_call ::
  "('s, 'u, 'r) KubernetesClient \<Rightarrow> pc \<Rightarrow> 'r thread \<Rightarrow> 's \<Rightarrow> 'r thread \<times> 's" where
  "delete_call K after t s =
     (let ns = thNamespace t; name = jspName (thSpec t)
      in case thPc t of
           AtDeleteJob \<Rightarrow>
             (case kcDelete K \<lparr>rrAPIResource = JobAPI, rrName = name, rrNamespace = ns\<rparr> s of
                (Some e, s') \<Rightarrow>
                  (if \<not> errors_Is e ErrResourceNotFound then fail (''deleting job '' @ name) e t
                   else goto AtDeleteSecret t, s')
              | (None, s') \<Rightarrow> (goto AtDeleteSecret t, s'))
         | AtDeleteSecret \<Rightarrow>
             (case kcDeleteSecret K ns name s of
                (Some e, s') \<Rightarrow>
                  (if \<not> errors_Is e ErrResourceNotFound
                   then fail (''deleting credentials secret for job '' @ name) e t else goto after t, s')
              | (None, s') \<Rightarrow> (goto after t, s'))
         | _ \<Rightarrow> (t, s))"

definition run_call ::
  "('s, 'u, 'r) KubernetesClient \<Rightarrow> ('u, 'r) object_libs \<Rightarrow> 'r thread \<Rightarrow> 's \<Rightarrow> 'r thread \<times> 's" where
  "run_call K A t s =
     (let ns = thNamespace t; spec = thSpec t; name = jspName spec
      in case thPc t of
           AtCreateSecret \<Rightarrow>
             (case kcCreateSecret K ns (buildJobSecret spec ns) s of
                (Inl e, s') \<Rightarrow>
                  (if \<not> errors_Is e ErrResourceConflict
                   then fail (''creating credentials secret for job '' @ name) e t else goto AtCreateJob t, s')
              | (Inr _, s') \<Rightarrow> (goto AtCreateJob t, s'))
         | AtCreateJob \<Rightarrow>
             (case buildJob A spec ns of
                Inl e \<Rightarrow> (fail (''building job '' @ name) e t, s)
              | Inr job \<Rightarrow> (case kcCreate K JobAPI ns job s of
                    (Inl e, s') \<Rightarrow>
                      (if errors_Is e ErrResourceConflict then goto (Returned None) t
                       else fail (''creating job '' @ name) e t, s')
                  | (Inr created, s') \<Rightarrow>
                      ((goto (if jspSecrets spec \<noteq> [] then AtAdopt (obj_GetUID A created)
                              else Returned None) t)\<lparr>thCreated := True\<rparr>, s')))
         | AtAdopt uid \<Rightarrow> (goto (Returned None) t, adoptSecret K ns name uid s)
         | _ \<Rightarrow> (t, s))"

definition thread_exec ::
  "('s, 'u, 'r) KubernetesClient \<Rightarrow> ('u, 'r) object_libs \<Rightarrow> 'r thread \<Rightarrow> 's \<Rightarrow> 'r thread \<times> 's" where
  "thread_exec K A t s =
     (if thPc t = AtDeleteJob \<or> thPc t = AtDeleteSecret
      then delete_call K (if thOp t = OpReplace then run_entry (thSpec t) else Returned None) t s
      else run_call K A t s)"

lemma thread_exec_eq:
  "thread_exec K A t s =
     (case thPc t of
        AtDeleteJob \<Rightarrow> delete_call K (if thOp t = OpReplace then run_entry (thSpec t) else Returned None) t s
      | AtDeleteSecret \<Rightarrow> delete_call K (if thOp t = OpReplace then run_entry (thSpec t) else Returned None) t s
      | _ \<Rightarrow> run_call K A t s)"
  by (cases "thPc t") (simp_all add: thread_exec_def)

lemmas thread_exec_unfold = thread_exec_eq delete_call_def run_call_def goto_def fail_def

subsection \<open>A thread alone\<close>

text \<open>The calls a thread can still make, at most.\<close>

fun calls_left :: "operation \<Rightarrow> pc \<Rightarrow> nat" where
  "calls_left op AtDeleteJob = (if op = OpReplace then 5 else 2)"
| "calls_left op AtDeleteSecret = (if op = OpReplace then 4 else 1)"
| "calls_left op AtCreateSecret = 3"
| "calls_left op AtCreateJob = 2"
| "calls_left op (AtAdopt uid) = 1"
| "calls_left op (Returned r) = 0"

lemma calls_left_zero: "calls_left op l = 0 \<longleftrightarrow> (\<exists>r. l = Returned r)"
  by (cases l) auto

lemma thread_exec_frame:
  assumes "thread_exec K A t s = (t', s')"
  shows "thOp t' = thOp t" "thNamespace t' = thNamespace t" "thSpec t' = thSpec t"
  using assms by (auto simp: thread_exec_unfold Let_def split: pc.splits prod.splits option.splits sum.splits)

lemma thread_exec_decreases:
  assumes "thread_exec K A t s = (t', s')" "running t"
  shows "calls_left (thOp t') (thPc t') < calls_left (thOp t) (thPc t)"
  using assms
  by (auto simp: thread_exec_unfold Let_def run_entry_def
      split: pc.splits prod.splits option.splits sum.splits)

function thread_run ::
  "('s, 'u, 'r) KubernetesClient \<Rightarrow> ('u, 'r) object_libs \<Rightarrow> 'r thread \<Rightarrow> 's \<Rightarrow> go_error option \<times> 's" where
  "thread_run K A t s =
     (case thPc t of Returned r \<Rightarrow> (r, s)
      | _ \<Rightarrow> (case thread_exec K A t s of (t', s') \<Rightarrow> thread_run K A t' s'))"
  by pat_completeness auto

termination
proof (relation "measure (\<lambda>(K, A, t, s). calls_left (thOp t) (thPc t))", goal_cases)
  case 1
  show ?case by simp
qed (unfold in_measure split_conv, (rule thread_exec_decreases, erule sym, simp)+)

declare thread_run.simps [simp del]

lemma thread_run_unfold:
  "thread_run K A t s =
     (case thPc t of Returned r \<Rightarrow> (r, s)
      | _ \<Rightarrow> thread_run K A (fst (thread_exec K A t s)) (snd (thread_exec K A t s)))"
  by (subst thread_run.simps) (simp split: pc.splits prod.splits)

lemma thread_run_Returned: "thPc t = Returned r \<Longrightarrow> thread_run K A t s = (r, s)"
  by (simp add: thread_run_unfold)

text \<open>Induction along the calls of a thread that runs alone.\<close>

lemma thread_run_induct [consumes 1, case_names stop go]:
  assumes "thread_run K A t s = (r, s')"
    and stop: "\<And>t s. thPc t = Returned r \<Longrightarrow> s = s' \<Longrightarrow> P t s"
    and go: "\<And>t s t1 s1. running t \<Longrightarrow> thread_exec K A t s = (t1, s1) \<Longrightarrow> thread_run K A t1 s1 = (r, s') \<Longrightarrow>
      P t1 s1 \<Longrightarrow> P t s"
  shows "P t s"
  using assms(1)
proof (induction "calls_left (thOp t) (thPc t)" arbitrary: t s rule: less_induct)
  case less
  show ?case
  proof (cases "\<exists>r. thPc t = Returned r")
    case True
    with less.prems stop show ?thesis by (auto simp: thread_run_Returned)
  next
    case False
    then have on: "running t" by simp
    obtain t1 s1 where exec: "thread_exec K A t s = (t1, s1)" by force
    have rest: "thread_run K A t1 s1 = (r, s')"
      using less.prems on exec by (subst (asm) thread_run_unfold) (simp split: pc.splits)
    show ?thesis by (rule go [OF on exec rest less.hyps [OF thread_exec_decreases [OF exec on] rest]])
  qed
qed

text \<open>What every API call keeps, the whole method keeps.\<close>

lemma thread_run_keeps:
  assumes "thread_run K A t s = (r, s')" "\<And>t s t' s'. thread_exec K A t s = (t', s') \<Longrightarrow> P s \<Longrightarrow> P s'"
  shows "P s \<Longrightarrow> P s'"
  using assms(1) by (induction rule: thread_run_induct) (auto dest: assms(2))

lemma thread_run_AtAdopt:
  "thPc t = AtAdopt uid \<Longrightarrow>
   thread_run K A t s = (None, adoptSecret K (thNamespace t) (jspName (thSpec t)) uid s)"
  by (subst thread_run_unfold) (simp add: thread_exec_unfold Let_def thread_run_Returned)

lemma thread_run_AtCreateJob:
  "thPc t = AtCreateJob \<Longrightarrow> thread_run K A t s = Run_create K A (thNamespace t) (thSpec t) s"
  by (subst thread_run_unfold)
     (simp add: thread_exec_unfold Let_def Run_create_def thread_run_Returned thread_run_AtAdopt
       split: sum.splits prod.splits)

lemma thread_run_AtCreateSecret:
  "thPc t = AtCreateSecret \<Longrightarrow> jspSecrets (thSpec t) \<noteq> [] \<Longrightarrow>
   thread_run K A t s = JobRunner_Run K A (thNamespace t) (thSpec t) s"
  by (subst thread_run_unfold)
     (simp add: thread_exec_unfold Let_def JobRunner_Run_def thread_run_Returned thread_run_AtCreateJob
       split: sum.splits prod.splits)

lemma thread_run_entry:
  "thPc t = run_entry (thSpec t) \<Longrightarrow> thread_run K A t s = JobRunner_Run K A (thNamespace t) (thSpec t) s"
  by (auto simp: run_entry_def thread_run_AtCreateSecret thread_run_AtCreateJob JobRunner_Run_def
      split: if_splits)

lemma thread_run_AtDeleteSecret:
  "thPc t = AtDeleteSecret \<Longrightarrow> thread_run K A t s =
     (case kcDeleteSecret K (thNamespace t) (jspName (thSpec t)) s of (r, s') \<Rightarrow>
        (case r of Some e \<Rightarrow>
            if \<not> errors_Is e ErrResourceNotFound
            then (Some (ErrWrap (''deleting credentials secret for job '' @ jspName (thSpec t) @ '': '') e ''''), s')
            else if thOp t = OpReplace then JobRunner_Run K A (thNamespace t) (thSpec t) s' else (None, s')
          | None \<Rightarrow> if thOp t = OpReplace then JobRunner_Run K A (thNamespace t) (thSpec t) s' else (None, s')))"
  by (subst thread_run_unfold)
     (simp add: thread_exec_unfold Let_def thread_run_Returned thread_run_entry split: option.splits prod.splits)

lemma thread_run_new:
  "thread_run K A (new_thread OpRun ns spec) s = JobRunner_Run K A ns spec s \<and>
   thread_run K A (new_thread OpReplace ns spec) s = JobRunner_Replace K A ns spec s \<and>
   thread_run K A (new_thread OpDelete ns spec) s = JobRunner_Delete K ns (jspName spec) s"
proof (intro conjI)
  show "thread_run K A (new_thread OpRun ns spec) s = JobRunner_Run K A ns spec s"
    using thread_run_entry [of "new_thread OpRun ns spec"] by (simp add: new_thread_def)
  have "thread_run K A (new_thread op ns spec) s =
      (case JobRunner_Delete K ns (jspName spec) s of
         (Some e, s') \<Rightarrow> (Some e, s')
       | (None, s') \<Rightarrow> if op = OpReplace then JobRunner_Run K A ns spec s' else (None, s'))"
    if "op \<noteq> OpRun" for op
    using that
    by (subst thread_run_unfold)
       (simp add: new_thread_def thread_exec_unfold Let_def thread_run_Returned thread_run_AtDeleteSecret
         JobRunner_Delete_def split: option.splits prod.splits)
  from this [of OpReplace] this [of OpDelete]
  show "thread_run K A (new_thread OpReplace ns spec) s = JobRunner_Replace K A ns spec s"
    and "thread_run K A (new_thread OpDelete ns spec) s = JobRunner_Delete K ns (jspName spec) s"
    by (simp_all add: JobRunner_Replace_def split: option.splits prod.splits)
qed

subsection \<open>Several threads\<close>

text \<open>
  A step of the system is a call of one of the threads, or whatever \<open>env\<close> allows the rest of the world
  (controllers, garbage collection, users) to do to the cluster. \<open>sys_run\<close> counts the calls.
\<close>

inductive sys_step ::
  "('s, 'u, 'r) KubernetesClient \<Rightarrow> ('u, 'r) object_libs \<Rightarrow> ('s \<Rightarrow> 's \<Rightarrow> bool) \<Rightarrow> nat \<Rightarrow>
   'r thread list \<times> 's \<Rightarrow> 'r thread list \<times> 's \<Rightarrow> bool"
  for K A env where
  call: "i < length ts \<Longrightarrow> running (ts ! i) \<Longrightarrow> thread_exec K A (ts ! i) s = (t', s') \<Longrightarrow>
    sys_step K A env 1 (ts, s) (ts[i := t'], s')"
| world: "env s s' \<Longrightarrow> sys_step K A env 0 (ts, s) (ts, s')"

inductive_cases sys_stepE: "sys_step K A env n (ts, s) (ts', s')"

inductive sys_run ::
  "('s, 'u, 'r) KubernetesClient \<Rightarrow> ('u, 'r) object_libs \<Rightarrow> ('s \<Rightarrow> 's \<Rightarrow> bool) \<Rightarrow> nat \<Rightarrow>
   'r thread list \<times> 's \<Rightarrow> 'r thread list \<times> 's \<Rightarrow> bool"
  for K A env where
  start: "sys_run K A env 0 c c"
| more: "sys_run K A env n c c' \<Longrightarrow> sys_step K A env m c' c'' \<Longrightarrow> sys_run K A env (n + m) c c''"

definition work :: "'r thread list \<Rightarrow> nat" where
  "work ts = (\<Sum>t \<leftarrow> ts. calls_left (thOp t) (thPc t))"

lemma sum_list_update_less:
  fixes f :: "'a \<Rightarrow> nat"
  assumes "i < length xs" "f y < f (xs ! i)"
  shows "sum_list (map f (xs[i := y])) < sum_list (map f xs)"
  using assms
proof (induction xs arbitrary: i)
  case (Cons x xs)
  then show ?case by (cases i) auto
qed simp

lemma sys_step_work: "sys_step K A env n (ts, s) (ts', s') \<Longrightarrow> work ts' + n \<le> work ts"
  by (erule sys_stepE)
     (simp_all add: work_def Suc_le_eq sum_list_update_less thread_exec_decreases)

lemma sys_run_work: "sys_run K A env n c c' \<Longrightarrow> work (fst c') + n \<le> work (fst c)"
proof (induction rule: sys_run.induct)
  case (more n c c' m c'')
  from more.hyps(2) have "work (fst c'') + m \<le> work (fst c')"
    by (metis sys_step_work prod.collapse)
  with more.IH show ?case by simp
qed simp

lemma work_new_threads: "work (map (\<lambda>(op, ns, spec). new_thread op ns spec) ops) \<le> 5 * length ops"
  by (induction ops) (auto simp: work_def new_thread_def run_entry_def)

lemma sys_run_length: "sys_run K A env n c c' \<Longrightarrow> length (fst c') = length (fst c)"
  by (induction rule: sys_run.induct) (auto elim!: sys_step.cases)

text \<open>
  C17: However callers are interleaved with each other and with the rest of the world, they make at
  most five API calls each in all; a caller that has not returned can always make its next call,
  waiting for no other; and when no calls are left, all have returned.
\<close>
theorem callers_terminate:
  assumes "sys_run K A env n (map (\<lambda>(op, ns, spec). new_thread op ns spec) ops, s) (ts, s')"
  shows "n + work ts \<le> 5 * length ops \<and> length ts = length ops \<and>
    (\<forall>t \<in> set ts. running t \<longrightarrow> (\<exists>c. sys_step K A env 1 (ts, s') c)) \<and>
    (work ts = 0 \<longrightarrow> (\<forall>t \<in> set ts. \<exists>r. thPc t = Returned r))"
proof (intro conjI ballI impI)
  show "n + work ts \<le> 5 * length ops"
    using sys_run_work [OF assms] work_new_threads [of ops] by simp
  show "length ts = length ops" using sys_run_length [OF assms] by simp
  fix t assume t: "t \<in> set ts"
  show "\<exists>c. sys_step K A env 1 (ts, s') c" if "running t"
  proof -
    obtain i where "i < length ts" "ts ! i = t" using t by (auto simp: in_set_conv_nth)
    with that have "sys_step K A env 1 (ts, s') (ts[i := fst (thread_exec K A t s')], snd (thread_exec K A t s'))"
      by (intro sys_step.call) simp_all
    then show ?thesis ..
  qed
  show "\<exists>r. thPc t = Returned r" if "work ts = 0"
  proof -
    have "calls_left (thOp t) (thPc t) = 0"
      using that t by (simp add: work_def sum_list_eq_0_iff)
    then show ?thesis by (simp add: calls_left_zero)
  qed
qed

text \<open>A given interleaving, as the list of the threads that move.\<close>

fun schedule ::
  "('s, 'u, 'r) KubernetesClient \<Rightarrow> ('u, 'r) object_libs \<Rightarrow> nat list \<Rightarrow>
   'r thread list \<times> 's \<Rightarrow> 'r thread list \<times> 's" where
  "schedule K A [] c = c"
| "schedule K A (i # is) (ts, s) =
     schedule K A is (case thread_exec K A (ts ! i) s of (t', s') \<Rightarrow> (ts[i := t'], s'))"

fun schedulable ::
  "('s, 'u, 'r) KubernetesClient \<Rightarrow> ('u, 'r) object_libs \<Rightarrow> nat list \<Rightarrow> 'r thread list \<times> 's \<Rightarrow> bool" where
  "schedulable K A [] c \<longleftrightarrow> True"
| "schedulable K A (i # is) (ts, s) \<longleftrightarrow> i < length ts \<and> calls_left (thOp (ts ! i)) (thPc (ts ! i)) \<noteq> 0 \<and>
     schedulable K A is (case thread_exec K A (ts ! i) s of (t', s') \<Rightarrow> (ts[i := t'], s'))"

lemma sys_run_first:
  "sys_step K A env m c c' \<Longrightarrow> sys_run K A env n c' c'' \<Longrightarrow> sys_run K A env (m + n) c c''"
proof (rotate_tac, induction rule: sys_run.induct)
  case (start c')
  then show ?case using sys_run.more [OF sys_run.start] by fastforce
next
  case (more n c' d k e)
  then show ?case using sys_run.more by (metis add.assoc)
qed

lemma schedule_run: "schedulable K A is c \<Longrightarrow> sys_run K A env (length is) c (schedule K A is c)"
proof (induction K A "is" c rule: schedule.induct)
  case (1 K A c)
  show ?case by (simp add: sys_run.start)
next
  case (2 K A i "is" ts s)
  obtain t' s' where e: "thread_exec K A (ts ! i) s = (t', s')" by force
  have "running (ts ! i)" using "2.prems" by (auto simp: calls_left_zero)
  then have "sys_step K A env 1 (ts, s) (ts[i := t'], s')"
    using "2.prems" e by (intro sys_step.call) simp_all
  moreover have "sys_run K A env (length is) (ts[i := t'], s') (schedule K A is (ts[i := t'], s'))"
    using "2.IH" "2.prems" e by simp
  ultimately show ?case using sys_run_first e by fastforce
qed

lemma schedule_runs:
  "schedulable K A is c \<Longrightarrow> schedule K A is c = c' \<Longrightarrow> n = length is \<Longrightarrow> sys_run K A env n c c'"
  using schedule_run by blast

subsection \<open>Concurrent dispatches\<close>

text \<open>Nothing is lost from the cluster, and the data of no Secret changes.\<close>

definition secret_data :: "'u cluster_view \<Rightarrow> (string \<times> string) \<Rightarrow> (string \<Rightarrow> string option) option" where
  "secret_data v k = map_option fst (cvSecrets v k)"

definition grows :: "'u cluster_view \<Rightarrow> 'u cluster_view \<Rightarrow> bool" where
  "grows v w \<longleftrightarrow> dom (cvJobs v) \<subseteq> dom (cvJobs w) \<and> map_le (secret_data v) (secret_data w)"

lemma dom_secret_data [simp]: "dom (secret_data v) = dom (cvSecrets v)"
  by (auto simp: secret_data_def dom_def)

lemma grows_refl [simp]: "grows v v"
  by (simp add: grows_def)

lemma grows_trans: "grows u v \<Longrightarrow> grows v w \<Longrightarrow> grows u w"
  unfolding grows_def by (blast intro: map_le_trans)

lemma growsD:
  "grows v w \<Longrightarrow> k \<in> dom (cvJobs v) \<Longrightarrow> k \<in> dom (cvJobs w)"
  "grows v w \<Longrightarrow> k \<in> dom (cvSecrets v) \<Longrightarrow> k \<in> dom (cvSecrets w)"
  using map_le_implies_dom_le [of "secret_data v" "secret_data w"] by (auto simp: grows_def)

lemma only_adds_map_le: "only_adds k m m' \<Longrightarrow> map_le m m'"
  by (simp add: map_le_def domIff only_addsD)

lemma same_data_map_le: "same_data (cvSecrets v) (cvSecrets w) \<Longrightarrow> map_le (secret_data v) (secret_data w)"
  unfolding map_le_def secret_data_def by (intro ballI) (simp only: same_data_def)

lemma grows_only_adds:
  "only_adds k (cvJobs v) (cvJobs w) \<Longrightarrow> same_data (cvSecrets v) (cvSecrets w) \<Longrightarrow> grows v w"
  "only_adds k (cvSecrets v) (cvSecrets w) \<Longrightarrow> cvJobs v = cvJobs w \<Longrightarrow> grows v w"
proof -
  show "grows v w" if "only_adds k (cvJobs v) (cvJobs w)" "same_data (cvSecrets v) (cvSecrets w)"
    using that by (simp add: grows_def same_data_map_le map_le_implies_dom_le only_adds_map_le)
  show "grows v w" if "only_adds k (cvSecrets v) (cvSecrets w)" "cvJobs v = cvJobs w"
    using only_adds_map_le [OF that(1)] that(2)
    by (simp add: grows_def map_le_def secret_data_def dom_def)
qed

definition dispatching :: "('u, 'r) object_libs \<Rightarrow> 'r thread \<Rightarrow> bool" where
  "dispatching A t \<longleftrightarrow> thOp t = OpRun \<and> thNamespace t \<noteq> '''' \<and> names_job A (thSpec t) (thNamespace t)"

text \<open>What a dispatching thread knows of the cluster at each point.\<close>

definition thread_knows :: "'u cluster_view \<Rightarrow> 'r thread \<Rightarrow> bool" where
  "thread_knows v t \<longleftrightarrow>
     (case thPc t of
        AtDeleteJob \<Rightarrow> False | AtDeleteSecret \<Rightarrow> False
      | AtCreateSecret \<Rightarrow> jspSecrets (thSpec t) \<noteq> [] \<and> \<not> thCreated t
      | AtCreateJob \<Rightarrow> (jspSecrets (thSpec t) \<noteq> [] \<longrightarrow> thread_key t \<in> dom (cvSecrets v)) \<and> \<not> thCreated t
      | AtAdopt uid \<Rightarrow> thread_key t \<in> dom (cvSecrets v) \<and> thread_key t \<in> dom (cvJobs v) \<and> thCreated t
      | Returned None \<Rightarrow> (jspSecrets (thSpec t) \<noteq> [] \<longrightarrow> thread_key t \<in> dom (cvSecrets v)) \<and>
          thread_key t \<in> dom (cvJobs v)
      | Returned (Some e) \<Rightarrow> \<not> thCreated t)"

lemma thread_knows_grows: "grows v w \<Longrightarrow> thread_knows v t \<Longrightarrow> thread_knows w t"
  by (auto simp: thread_knows_def growsD split: pc.splits option.splits)

lemma thread_knows_new: "thread_knows v (new_thread OpRun ns spec)"
  by (auto simp: thread_knows_def new_thread_def run_entry_def)

context job_store
begin

lemma AtCreateSecret_step:
  assumes ns: "thNamespace t \<noteq> ''''" and pc: "thPc t = AtCreateSecret"
    and exec: "thread_exec K A t s = (t', s')"
  shows "grows (view s) (view s')"
    and "thPc t' = AtCreateJob \<and> thread_key t \<in> dom (cvSecrets (view s')) \<or> (\<exists>e. thPc t' = Returned (Some e))"
    and "thCreated t' = thCreated t"
proof -
  let ?sec = "buildJobSecret (thSpec t) (thNamespace t)"
  obtain c s1 where c: "kcCreateSecret K (thNamespace t) ?sec s = (c, s1)" by force
  have name: "secName ?sec = jspName (thSpec t)" by (simp add: buildJobSecret_def)
  have t': "t' = t\<lparr>thPc := (case c of Inr _ \<Rightarrow> AtCreateJob | Inl e \<Rightarrow> if errors_Is e ErrResourceConflict then AtCreateJob
      else Returned (Some (ErrWrap (''creating credentials secret for job '' @ jspName (thSpec t) @ '': '') e '''')))\<rparr>"
    and s': "s' = s1"
    using exec pc c by (auto simp: thread_exec_unfold Let_def split: sum.splits if_splits)
  show "thCreated t' = thCreated t" using t' by simp
  show "grows (view s) (view s')"
  proof (cases c)
    case (Inl e)
    from create_secret_fail [OF ns c [unfolded Inl]] s' show ?thesis
      by (intro grows_only_adds(2) [of "(thNamespace t, secName ?sec)"]) simp_all
  next
    case (Inr x)
    from create_secret_ok [OF ns c [unfolded Inr]] s' name show ?thesis
      by (intro grows_only_adds(2) [of "thread_key t"]) (simp_all add: only_adds_insert thread_key_def)
  qed
  show "thPc t' = AtCreateJob \<and> thread_key t \<in> dom (cvSecrets (view s')) \<or> (\<exists>e. thPc t' = Returned (Some e))"
    using t' s' name create_secret_ok [OF ns, of ?sec s _ s1] create_secret_conflict [OF ns, of ?sec s _ s1] c
    by (cases c) (auto simp: thread_key_def domIff)
qed

lemma AtCreateJob_step:
  assumes ns: "thNamespace t \<noteq> ''''" and named: "names_job A (thSpec t) (thNamespace t)"
    and pc: "thPc t = AtCreateJob" and exec: "thread_exec K A t s = (t', s')"
  obtains (created) uid where "thPc t' = (if jspSecrets (thSpec t) \<noteq> [] then AtAdopt uid else Returned None)"
      "thCreated t'" "thread_key t \<notin> dom (cvJobs (view s))" "thread_key t \<in> dom (cvJobs (view s'))"
      "grows (view s) (view s')"
    | (present) "thPc t' = Returned None" "thCreated t' = thCreated t" "thread_key t \<in> dom (cvJobs (view s))"
      "view s' = view s"
    | (failed) e where "thPc t' = Returned (Some e)" "thCreated t' = thCreated t" "grows (view s) (view s')"
proof (cases "buildJob A (thSpec t) (thNamespace t)")
  case (Inl e)
  with exec pc failed show ?thesis by (auto simp: thread_exec_unfold Let_def)
next
  case (Inr u)
  note name = names_jobD [OF named Inr]
  obtain c s1 where c: "kcCreate K JobAPI (thNamespace t) u s = (c, s1)" by force
  show ?thesis
  proof (cases c)
    case (Inr u')
    have st: "thPc t' = (if jspSecrets (thSpec t) \<noteq> [] then AtAdopt (obj_GetUID A u') else Returned None)"
      "thCreated t'" "s' = s1"
      using exec pc \<open>buildJob A (thSpec t) (thNamespace t) = Inr u\<close> c Inr by (auto simp: thread_exec_unfold Let_def)
    note ok = create_ok [OF ns c [unfolded Inr]]
    from ok have "grows (view s) (view s1)"
      by (intro grows_only_adds(1) [of "(thNamespace t, obj_GetName A u)"]) (simp_all add: only_adds_insert)
    then show ?thesis using st ok name by (intro created) (simp_all add: thread_key_def domIff)
  next
    case (Inl e)
    have t': "thPc t' = Returned (if errors_Is e ErrResourceConflict then None else
        Some (ErrWrap (''creating job '' @ jspName (thSpec t) @ '': '') e ''''))"
      "thCreated t' = thCreated t" "s' = s1"
      using exec pc \<open>buildJob A (thSpec t) (thNamespace t) = Inr u\<close> c Inl by (auto simp: thread_exec_unfold Let_def split: if_splits)
    show ?thesis
    proof (cases "errors_Is e ErrResourceConflict")
      case True
      with t' create_conflict [OF ns c [unfolded Inl] True] name present show ?thesis
        by (simp add: thread_key_def domIff)
    next
      case False
      from create_fail [OF ns c [unfolded Inl]] have "grows (view s) (view s1)"
        by (intro grows_only_adds(1) [of "(thNamespace t, obj_GetName A u)"]) simp_all
      then show ?thesis using t' False by (intro failed) simp_all
    qed
  qed
qed

lemma AtAdopt_step:
  assumes "thNamespace t \<noteq> ''''" "thPc t = AtAdopt uid" "thread_exec K A t s = (t', s')"
  shows "grows (view s) (view s') \<and> thPc t' = Returned None \<and> thCreated t' = thCreated t"
  using assms adoptSecret_view [OF assms(1), of "jspName (thSpec t)" uid s]
  by (auto simp: thread_exec_unfold Let_def same_data_def intro!: grows_only_adds(1))

lemma dispatch_step:
  assumes d: "dispatching A t" and knows: "thread_knows (view s) t" and run: "running t"
    and exec: "thread_exec K A t s = (t', s')"
  shows "grows (view s) (view s')" and "thread_knows (view s') t'"
    and "thCreated t' \<Longrightarrow> thCreated t \<or> thread_key t \<notin> dom (cvJobs (view s))"
proof -
  note frame = thread_exec_frame [OF exec]
  have key: "thread_key t' = thread_key t" by (simp add: thread_key_def frame)
  have ns: "thNamespace t \<noteq> ''''" and named: "names_job A (thSpec t) (thNamespace t)"
    using d by (simp_all add: dispatching_def)
  have "grows (view s) (view s') \<and> thread_knows (view s') t' \<and>
    (thCreated t' \<longrightarrow> thCreated t \<or> thread_key t \<notin> dom (cvJobs (view s)))"
  proof (cases "thPc t")
    case AtCreateSecret
    with AtCreateSecret_step [OF ns AtCreateSecret exec] knows show ?thesis
      by (auto simp: thread_knows_def frame key)
  next
    case AtCreateJob
    from ns named AtCreateJob exec show ?thesis
    proof (cases rule: AtCreateJob_step)
      case (created uid)
      then show ?thesis using knows AtCreateJob growsD(2) [OF created(5)]
        by (simp add: thread_knows_def frame key)
    next
      case present
      then show ?thesis using knows AtCreateJob by (simp add: thread_knows_def frame key)
    next
      case (failed e)
      then show ?thesis using knows AtCreateJob by (simp add: thread_knows_def)
    qed
  next
    case (AtAdopt uid)
    with AtAdopt_step [OF ns AtAdopt exec] knows growsD [of "view s" "view s'"] show ?thesis
      by (simp add: thread_knows_def frame key)
  qed (use knows run in \<open>simp_all add: thread_knows_def\<close>)
  then show "grows (view s) (view s')" and "thread_knows (view s') t'"
    and "thCreated t' \<Longrightarrow> thCreated t \<or> thread_key t \<notin> dom (cvJobs (view s))" by simp_all
qed

end

lemma thread_knows_done:
  "thread_knows v t \<Longrightarrow> thCreated t \<or> thPc t = Returned None \<Longrightarrow> thread_key t \<in> dom (cvJobs v) \<and>
     (jspSecrets (thSpec t) \<noteq> [] \<longrightarrow> thread_key t \<in> dom (cvSecrets v))"
  by (cases "thPc t"; cases "thCreated t") (auto simp: thread_knows_def domIff split: option.splits)

text \<open>
  The invariant of concurrent dispatches that began with the cluster \<open>v0\<close>: what every thread knows
  holds, and a Job is created by one thread only, which found none.
\<close>

definition sole_creator :: "'u cluster_view \<Rightarrow> 'r thread list \<Rightarrow> bool" where
  "sole_creator v0 ts \<longleftrightarrow>
     (\<forall>i < length ts. thCreated (ts ! i) \<longrightarrow> thread_key (ts ! i) \<notin> dom (cvJobs v0) \<and>
        (\<forall>j < length ts. thCreated (ts ! j) \<longrightarrow> thread_key (ts ! j) = thread_key (ts ! i) \<longrightarrow> j = i))"

definition sys_inv :: "('u, 'r) object_libs \<Rightarrow> 'u cluster_view \<Rightarrow> 'r thread list \<Rightarrow> 'u cluster_view \<Rightarrow> bool" where
  "sys_inv A v0 ts v \<longleftrightarrow>
     grows v0 v \<and> (\<forall>t \<in> set ts. dispatching A t \<and> thread_knows v t) \<and> sole_creator v0 ts"

lemma sole_creator_update:
  assumes "sole_creator v0 ts" "i < length ts" "thread_key t' = thread_key (ts ! i)"
    and "thCreated t' \<Longrightarrow> thCreated (ts ! i) \<or> thread_key (ts ! i) \<notin> dom (cvJobs v0) \<and>
      (\<forall>t \<in> set ts. thCreated t \<longrightarrow> thread_key t \<noteq> thread_key (ts ! i))"
  shows "sole_creator v0 (ts[i := t'])"
  using assms unfolding sole_creator_def by (simp add: nth_list_update) (metis nth_mem)

context job_store
begin

lemma sys_inv_step:
  assumes env: "\<And>s s'. env s s' \<Longrightarrow> grows (view s) (view s')"
    and inv: "sys_inv A v0 ts (view s)" and "sys_step K A env m (ts, s) (ts', s')"
  shows "sys_inv A v0 ts' (view s')"
  using assms(3)
proof (rule sys_stepE, goal_cases)
  case (1 i t')
  let ?t = "ts ! i"
  from inv 1 have d: "dispatching A ?t" and k: "thread_knows (view s) ?t" by (simp_all add: sys_inv_def)
  note frame = thread_exec_frame [OF 1(5)]
  note eff = dispatch_step [OF d k 1(4,5)]
  have others: "thread_knows (view s') t" "dispatching A t" if "t \<in> set ts" for t
    using inv that thread_knows_grows [OF eff(1), of t] by (simp_all add: sys_inv_def)
  have "dispatching A t'" using d by (simp add: dispatching_def frame)
  moreover have "sole_creator v0 (ts[i := t'])"
  proof (rule sole_creator_update)
    show "sole_creator v0 ts" using inv by (simp add: sys_inv_def)
    show "thread_key t' = thread_key ?t" by (simp add: thread_key_def frame)
    show "thCreated ?t \<or> thread_key ?t \<notin> dom (cvJobs v0) \<and> (\<forall>t \<in> set ts. thCreated t \<longrightarrow> thread_key t \<noteq> thread_key ?t)"
      if "thCreated t'"
    proof (rule disjCI)
      assume absurd: "\<not> (thread_key ?t \<notin> dom (cvJobs v0) \<and> (\<forall>t \<in> set ts. thCreated t \<longrightarrow> thread_key t \<noteq> thread_key ?t))"
      have "thread_key t \<in> dom (cvJobs (view s))" if "t \<in> set ts" "thCreated t" for t
        using inv that thread_knows_done by (auto simp: sys_inv_def)
      with absurd have "thread_key ?t \<in> dom (cvJobs (view s))"
        using inv growsD(1) [of v0 "view s"] unfolding sys_inv_def by metis
      with eff(3) [OF that] show "thCreated ?t" by blast
    qed
  qed (use 1 in simp)
  ultimately show ?thesis using inv 1 eff others grows_trans
    by (auto simp: sys_inv_def dest!: set_update_subset_insert [THEN subsetD])
next
  case 2
  then show ?thesis using inv env [of s s'] thread_knows_grows grows_trans unfolding sys_inv_def by blast
qed

lemma sys_inv_run:
  assumes env: "\<And>s s'. env s s' \<Longrightarrow> grows (view s) (view s')"
    and "sys_run K A env n c c'" "sys_inv A v0 (fst c) (view (snd c))"
  shows "sys_inv A v0 (fst c') (view (snd c'))"
  using assms(2,3)
proof (induction rule: sys_run.induct)
  case (more n c c' m c'')
  then show ?case using sys_inv_step [of env v0 "fst c'" "snd c'" m "fst c''" "snd c''", OF env] by simp
qed

end

subsection \<open>Whose credentials a Job reads\<close>

text \<open>
  The data of a Secret with the name of one of the dispatches \<open>reqs\<close> is what was there before, or
  the secrets of one of them.
\<close>

definition request_keys :: "(string \<times> 'r JobSpec) list \<Rightarrow> (string \<times> string) set" where
  "request_keys reqs = (\<lambda>(ns, spec). (ns, jspName spec)) ` set reqs"

definition credentials_of :: "(string \<times> 'r JobSpec) list \<Rightarrow> 'u cluster_view \<Rightarrow> 'u cluster_view \<Rightarrow> bool" where
  "credentials_of reqs v0 v \<longleftrightarrow> (\<forall>k \<in> request_keys reqs. secret_data v k = secret_data v0 k \<or>
     (\<exists>(ns, spec) \<in> set reqs. k = (ns, jspName spec) \<and> jspSecrets spec \<noteq> [] \<and>
        secret_data v0 k = None \<and> secret_data v k = Some (map_of (jspSecrets spec))))"

text \<open>The rest of the world makes no Secret with the name of one of the dispatches.\<close>

definition leaves_names :: "(string \<times> 'r JobSpec) list \<Rightarrow> 'u cluster_view \<Rightarrow> 'u cluster_view \<Rightarrow> bool" where
  "leaves_names reqs v w \<longleftrightarrow> (\<forall>k \<in> request_keys reqs. secret_data v k = None \<longrightarrow> secret_data w k = None)"

definition same_requests :: "(string \<times> 'r JobSpec) list \<Rightarrow> 'r thread list \<Rightarrow> bool" where
  "same_requests reqs ts \<longleftrightarrow> (\<forall>t \<in> set ts. (thNamespace t, thSpec t) \<in> set reqs)"

lemma same_requests_update:
  "same_requests reqs ts \<Longrightarrow> i < length ts \<Longrightarrow> thread_exec K A (ts ! i) s = (t', s') \<Longrightarrow> same_requests reqs (ts[i := t'])"
  by (auto simp: same_requests_def thread_exec_frame dest!: set_update_subset_insert [THEN subsetD])

text \<open>One call writes only the Secret of its own name, with its own values, where there was none.\<close>

definition writes_own :: "'r thread \<Rightarrow> 'u cluster_view \<Rightarrow> 'u cluster_view \<Rightarrow> bool" where
  "writes_own t v w \<longleftrightarrow> secret_data w = secret_data v \<or> jspSecrets (thSpec t) \<noteq> [] \<and> secret_data v (thread_key t) = None \<and>
     secret_data w = (secret_data v)(thread_key t \<mapsto> map_of (jspSecrets (thSpec t)))"

lemma credentials_of_write:
  assumes "credentials_of reqs v0 v" "writes_own t v w" "(thNamespace t, thSpec t) \<in> set reqs" "grows v0 v"
  shows "credentials_of reqs v0 w"
proof -
  have "secret_data v0 (thread_key t) = None" if "secret_data v (thread_key t) = None"
    using that assms(4) by (metis domIff dom_secret_data growsD(2))
  note absent = this
  show ?thesis unfolding credentials_of_def
  proof
    fix k assume "k \<in> request_keys reqs"
    with assms(1) have old: "secret_data v k = secret_data v0 k \<or>
     (\<exists>(ns, spec) \<in> set reqs. k = (ns, jspName spec) \<and> jspSecrets spec \<noteq> [] \<and>
        secret_data v0 k = None \<and> secret_data v k = Some (map_of (jspSecrets spec)))"
      by (simp only: credentials_of_def)
    show "secret_data w k = secret_data v0 k \<or>
     (\<exists>(ns, spec) \<in> set reqs. k = (ns, jspName spec) \<and> jspSecrets spec \<noteq> [] \<and>
        secret_data v0 k = None \<and> secret_data w k = Some (map_of (jspSecrets spec)))"
    proof (cases "secret_data w k = secret_data v k")
      case True
      with old show ?thesis by simp
    next
      case False
      with assms(2) have "k = thread_key t" "jspSecrets (thSpec t) \<noteq> []" "secret_data v k = None"
        "secret_data w k = Some (map_of (jspSecrets (thSpec t)))"
        by (auto simp: writes_own_def split: if_splits)
      with absent assms(3) show ?thesis
        by (intro disjI2 bexI [of _ "(thNamespace t, thSpec t)"]) (simp_all add: thread_key_def)
    qed
  qed
qed

lemma credentials_of_world:
  "credentials_of reqs v0 v \<Longrightarrow> leaves_names reqs v w \<Longrightarrow> grows v w \<Longrightarrow> credentials_of reqs v0 w"
proof -
  assume c: "credentials_of reqs v0 v" and l: "leaves_names reqs v w" and g: "grows v w"
  have "secret_data w k = secret_data v k" if "k \<in> request_keys reqs" for k
  proof (cases "secret_data v k")
    case None
    with l that show ?thesis by (simp add: leaves_names_def)
  next
    case (Some d)
    then have "k \<in> dom (secret_data v)" by (rule domI)
    with g show ?thesis unfolding grows_def map_le_def by metis
  qed
  with c show ?thesis by (simp add: credentials_of_def)
qed

context job_store
begin

lemma dispatch_writes_own:
  assumes d: "dispatching A t" and knows: "thread_knows v t" and exec: "thread_exec K A t s = (t', s')"
  shows "writes_own t (view s) (view s')"
proof -
  have ns: "thNamespace t \<noteq> ''''" using d by (simp add: dispatching_def)
  show ?thesis
  proof (cases "thPc t")
    case AtCreateSecret
    let ?sec = "buildJobSecret (thSpec t) (thNamespace t)"
    obtain c s1 where c: "kcCreateSecret K (thNamespace t) ?sec s = (c, s1)" by force
    have sec: "secName ?sec = jspName (thSpec t)" "secret_content ?sec = map_of (jspSecrets (thSpec t))"
      by (simp_all add: buildJobSecret_def secret_content_def)
    have "s' = s1" using exec AtCreateSecret c by (auto simp: thread_exec_unfold Let_def split: sum.splits if_splits)
    moreover have "jspSecrets (thSpec t) \<noteq> []" using knows AtCreateSecret by (simp add: thread_knows_def)
    ultimately show ?thesis
      using create_secret_ok [OF ns, of ?sec s _ s1] create_secret_lost [OF ns, of ?sec s _ s1] c
      by (cases c) (auto simp: writes_own_def secret_data_def thread_key_def sec fun_eq_iff)
  next
    case AtCreateJob
    have "cvSecrets (view s1) = cvSecrets (view s)" if "kcCreate K JobAPI (thNamespace t) u s = (c, s1)" for u c s1
      using create_ok [OF ns, of u s _ s1] create_fail [OF ns, of u s _ s1] that by (cases c) simp_all
    then show ?thesis using exec AtCreateJob
      by (auto simp: thread_exec_unfold Let_def writes_own_def secret_data_def fun_eq_iff split: sum.splits prod.splits if_splits)
  next
    case (AtAdopt uid)
    then show ?thesis using exec adoptSecret_view [OF ns, of "jspName (thSpec t)" uid s]
      by (auto simp: thread_exec_unfold Let_def writes_own_def secret_data_def)
  qed (use knows exec in \<open>auto simp: thread_knows_def thread_exec_unfold Let_def writes_own_def\<close>)
qed

lemma credentials_run:
  assumes env: "\<And>s s'. env s s' \<Longrightarrow> grows (view s) (view s')"
    and names: "\<And>s s'. env s s' \<Longrightarrow> leaves_names reqs (view s) (view s')"
    and "sys_run K A env n c c'" "sys_inv A v0 (fst c) (view (snd c))"
    and "same_requests reqs (fst c)" "credentials_of reqs v0 (view (snd c))"
  shows "same_requests reqs (fst c') \<and> credentials_of reqs v0 (view (snd c'))"
  using assms(3-6)
proof (induction rule: sys_run.induct)
  case (more n c c' m c'')
  have inv: "sys_inv A v0 (fst c') (view (snd c'))"
    using sys_inv_run [of env, OF env more.hyps(1) more.prems(1)] .
  have IH: "same_requests reqs (fst c')" "credentials_of reqs v0 (view (snd c'))"
    using more.IH more.prems by simp_all
  from more.hyps(2) show ?case
  proof (cases rule: sys_step.cases)
    case (call i ts s t' s')
    have "dispatching A (ts ! i)" "thread_knows (view s) (ts ! i)"
      using inv call by (simp_all add: sys_inv_def)
    from dispatch_writes_own [OF this call(6)] have "credentials_of reqs v0 (view s')"
      using IH inv call credentials_of_write [of reqs v0 "view s" "ts ! i"]
      by (simp add: sys_inv_def same_requests_def)
    with IH call same_requests_update show ?thesis by fastforce
  next
    case (world s s' ts)
    with IH credentials_of_world env names show ?thesis by fastforce
  qed
qed simp

end

text \<open>
  C10: Any number of \<open>Run\<close> calls, interleaved in any order with each other and with a world that
  deletes nothing: a Job is never created before its Secret, whoever was told nil finds the Job and
  its Secret in place, and a Job is created by one call only, which found none, however many
  dispatch it. If nobody else makes a Secret of such a name, its data is what was there before or
  the secrets of one of the dispatches of that name, never a mixture (but not always those of the
  dispatch that created the Job).
\<close>
theorem concurrent_Runs:
  assumes "api_server L A view"
    and "\<And>s s'. env s s' \<Longrightarrow> grows (view s) (view s')"
    and "\<forall>(ns, spec) \<in> set reqs. ns \<noteq> '''' \<and> names_job A spec ns"
    and "sys_run (kubernetesClientImpl L) A env n
      (map (\<lambda>(ns, spec). new_thread OpRun ns spec) reqs, s) (ts, s')"
  shows "(\<forall>t \<in> set ts. thCreated t \<or> thPc t = Returned None \<longrightarrow>
      thread_key t \<in> dom (cvJobs (view s')) \<and>
      (jspSecrets (thSpec t) \<noteq> [] \<longrightarrow> thread_key t \<in> dom (cvSecrets (view s')))) \<and>
    sole_creator (view s) ts \<and> grows (view s) (view s') \<and>
    ((\<forall>w w'. env w w' \<longrightarrow> leaves_names reqs (view w) (view w')) \<longrightarrow> credentials_of reqs (view s) (view s'))"
proof -
  let ?ts = "map (\<lambda>(ns, spec). new_thread OpRun ns spec) reqs"
  note store = api_server.job_store_impl [OF assms(1)]
  have init: "sys_inv A (view s) ?ts (view s)"
    using assms(3) by (auto simp: sys_inv_def sole_creator_def dispatching_def thread_knows_new)
      (auto simp: new_thread_def split_beta)
  then have inv: "sys_inv A (view s) ts (view s')"
    using job_store.sys_inv_run [OF store assms(2,4), of "view s"] by simp
  have "same_requests reqs ?ts" "credentials_of reqs (view s) (view s)"
    by (auto simp: same_requests_def credentials_of_def new_thread_def)
  with init have "credentials_of reqs (view s) (view s')"
    if "\<And>w w'. env w w' \<Longrightarrow> leaves_names reqs (view w) (view w')"
    using job_store.credentials_run [OF store assms(2) that assms(4), of "view s"] by simp
  have "thread_key t \<in> dom (cvJobs (view s')) \<and>
      (jspSecrets (thSpec t) \<noteq> [] \<longrightarrow> thread_key t \<in> dom (cvSecrets (view s')))"
    if "t \<in> set ts" "thCreated t \<or> thPc t = Returned None" for t
    using inv that thread_knows_done [of "view s'" t] by (simp add: sys_inv_def)
  moreover note \<open>(\<And>w w'. env w w' \<Longrightarrow> leaves_names reqs (view w) (view w')) \<Longrightarrow> credentials_of reqs (view s) (view s')\<close>
  ultimately show ?thesis using inv by (simp add: sys_inv_def)
qed

text \<open>
  Two dispatches of the same name with different secrets; the second overtakes the first, which then
  finds the Job. The Job is the second's and reads the secrets of the first.
\<close>

definition demo_reqs :: "(string \<times> unit JobSpec) list" where
  "demo_reqs = [(''rg-1'', demo_spec), (''rg-1'', demo_spec\<lparr>jspSecrets := [(''KEY'', ''other'')]\<rparr>)]"

definition demo_race :: "nat list \<Rightarrow> unit thread list \<times> mem" where
  "demo_race is = schedule mem_client mem_objects is (map (\<lambda>(ns, spec). new_thread OpRun ns spec) demo_reqs, mem_init)"

lemmas demo_race_defs = demo_race_def demo_reqs_def new_thread_def run_entry_def thread_exec_unfold
  demo_run_defs mem_defs buildJobObject_def Let_def demo_spec_def

lemma demo_names_other: "names_job mem_objects (demo_spec\<lparr>jspSecrets := m\<rparr>) ''rg-1''"
  by (simp add: names_job_def buildJob_def mem_objects_def buildJobObject_def demo_spec_def Let_def)

theorem concurrent_Runs_witness:
  "\<exists>ts s'. demo_race [0, 1, 1, 0, 1] = (ts, s') \<and> map thPc ts = [Returned None, Returned None] \<and>
     map thCreated ts = [False, True] \<and> sole_creator (mem_view mem_init) ts \<and>
     (''rg-1'', ''backup-b7'') \<in> dom (cvSecrets (mem_view s')) \<and>
     credentials_of demo_reqs (mem_view mem_init) (mem_view s') \<and>
     secret_data (mem_view s') (''rg-1'', ''backup-b7'') = Some [''KEY'' \<mapsto> ''s3cr3t''] \<and>
     jspSecrets (thSpec (ts ! 1)) = [(''KEY'', ''other'')]"
proof -
  let ?init = "map (\<lambda>(ns, spec). new_thread OpRun ns spec) demo_reqs"
  obtain ts s' where r: "demo_race [0, 1, 1, 0, 1] = (ts, s')" by force
  have "schedulable mem_client mem_objects [0, 1, 1, 0, 1] (?init, mem_init)"
    by (simp add: demo_race_defs)
  then have run: "sys_run mem_client mem_objects (\<lambda>_ _. False) 5 (?init, mem_init) (ts, s')"
    by (rule schedule_runs) (use r in \<open>simp_all add: demo_race_def\<close>)
  have shape: "map thPc ts = [Returned None, Returned None]" "map thCreated ts = [False, True]"
    "map thread_key ts = [(''rg-1'', ''backup-b7''), (''rg-1'', ''backup-b7'')]" "jspSecrets (thSpec (ts ! 0)) \<noteq> []"
    "jspSecrets (thSpec (ts ! 1)) = [(''KEY'', ''other'')]"
    "secret_data (mem_view s') (''rg-1'', ''backup-b7'') = Some [''KEY'' \<mapsto> ''s3cr3t'']"
    using r by (auto simp: demo_race_defs thread_key_def secret_data_def)
  from shape have "ts ! 0 \<in> set ts" by (cases ts) auto
  with shape r concurrent_Runs [OF mem.api_server_axioms _ _ run] demo_names demo_names_other show ?thesis
    by (auto simp: demo_reqs_def)
qed

subsection \<open>A dispatch against a deletion\<close>

text \<open>
  What the first \<open>r\<close> calls of a \<open>Run\<close> and the first \<open>d\<close> calls of a \<open>Delete\<close> of the same name amount to, in
  the order they are made: whether the Job is known to be there, and whether the Secret is.
\<close>

fun race_next :: "nat \<Rightarrow> nat \<times> nat \<times> bool \<times> bool option \<Rightarrow> nat \<times> nat \<times> bool \<times> bool option" where
  "race_next i (r, d, job, secret) =
     (if i = 0 then (Suc r, d, job \<or> r = 1, if r = 0 then Some True else secret)
      else (r, Suc d, job \<and> d \<noteq> 0, if d = 1 then Some False else secret))"

definition run_at :: "nat \<Rightarrow> pc \<Rightarrow> bool" where
  "run_at r l \<longleftrightarrow> (if r = 0 then l = AtCreateSecret else if r = 1 then l = AtCreateJob
     else l = Returned None \<or> r = 2 \<and> (\<exists>uid. l = AtAdopt uid))"

definition delete_at :: "nat \<Rightarrow> pc \<Rightarrow> bool" where
  "delete_at d l \<longleftrightarrow> (if d = 0 then l = AtDeleteJob else if d = 1 then l = AtDeleteSecret else l = Returned None)"

definition race_rel ::
  "string \<times> string \<Rightarrow> nat \<times> nat \<times> bool \<times> bool option \<Rightarrow> pc \<Rightarrow> pc \<Rightarrow> 'u cluster_view \<Rightarrow> bool" where
  "race_rel k a l m v \<longleftrightarrow> (case a of (r, d, job, secret) \<Rightarrow>
     run_at r l \<and> delete_at d m \<and> (job \<longrightarrow> k \<in> dom (cvJobs v)) \<and>
     (secret \<noteq> None \<longrightarrow> (k \<in> dom (cvSecrets v)) = the secret))"

definition racing :: "string \<Rightarrow> 'r JobSpec \<Rightarrow> 'r thread \<Rightarrow> 'r thread \<Rightarrow> bool" where
  "racing ns spec t u \<longleftrightarrow> thNamespace t = ns \<and> thSpec t = spec \<and>
     thNamespace u = ns \<and> thSpec u = spec \<and> thOp u = OpDelete"

definition has_failed :: "'r thread \<Rightarrow> bool" where
  "has_failed t \<longleftrightarrow> (\<exists>e. thPc t = Returned (Some e))"

lemma racing_exec:
  "racing ns spec t u \<Longrightarrow> thread_exec K A t s = (t', s') \<Longrightarrow> racing ns spec t' u"
  "racing ns spec t u \<Longrightarrow> thread_exec K A u s = (u', s') \<Longrightarrow> racing ns spec t u'"
  by (simp_all add: racing_def thread_exec_frame)

lemma thread_exec_Returned: "thPc t = Returned r \<Longrightarrow> thread_exec K A t s = (t, s)"
  by (simp add: thread_exec_unfold)

lemma has_failed_exec: "has_failed t \<Longrightarrow> thread_exec K A t s = (t', s') \<Longrightarrow> has_failed t'"
  by (auto simp: has_failed_def thread_exec_Returned)

lemma run_atE:
  assumes "run_at r l"
  obtains "r = 0" "l = AtCreateSecret" | "r = 1" "l = AtCreateJob"
    | uid where "r = 2" "l = AtAdopt uid" | "2 \<le> r" "l = Returned None"
  using assms by (cases "r = 0"; cases "r = 1") (auto simp: run_at_def)

lemma delete_atE:
  assumes "delete_at d l"
  obtains "d = 0" "l = AtDeleteJob" | "d = 1" "l = AtDeleteSecret" | "2 \<le> d" "l = Returned None"
  using assms by (cases "d = 0"; cases "d = 1") (auto simp: delete_at_def)

lemma dom_set_owners [simp]: "dom (cvSecrets (set_owners k owners v)) = dom (cvSecrets v)"
  by (auto simp: set_owners_def split: option.splits)

lemma same_jobs_set_owners [simp]: "cvJobs (set_owners k owners v) = cvJobs v"
  by (auto simp: set_owners_def split: option.splits)

context job_store
begin

lemma AtCreateJob_secrets:
  assumes "thNamespace t \<noteq> ''''" "thPc t = AtCreateJob" "thread_exec K A t s = (t', s')"
  shows "cvSecrets (view s') = cvSecrets (view s)"
proof -
  have "cvSecrets (view s1) = cvSecrets (view s)" if "kcCreate K JobAPI (thNamespace t) u s = (c, s1)" for u c s1
    using create_ok [OF assms(1), of u s _ s1] create_fail [OF assms(1), of u s _ s1] that by (cases c) simp_all
  then show ?thesis using assms(2,3)
    by (auto simp: thread_exec_unfold Let_def split: sum.splits prod.splits if_splits)
qed

lemma AtAdopt_keeps:
  assumes "thNamespace t \<noteq> ''''" "thPc t = AtAdopt uid" "thread_exec K A t s = (t', s')"
  shows "cvJobs (view s') = cvJobs (view s)" "dom (cvSecrets (view s')) = dom (cvSecrets (view s))"
    "thPc t' = Returned None"
proof -
  have "s' = adoptSecret K (thNamespace t) (jspName (thSpec t)) uid s" and pc: "thPc t' = Returned None"
    using assms(2,3) by (auto simp: thread_exec_unfold Let_def)
  with adoptSecret_view [OF assms(1), of "jspName (thSpec t)" uid s]
  have "cvJobs (view s') = cvJobs (view s) \<and> dom (cvSecrets (view s')) = dom (cvSecrets (view s))"
    by (metis dom_set_owners same_jobs_set_owners)
  with pc show "cvJobs (view s') = cvJobs (view s)" "dom (cvSecrets (view s')) = dom (cvSecrets (view s))"
    "thPc t' = Returned None" by blast+
qed

lemma AtDeleteJob_step:
  assumes "thNamespace t \<noteq> ''''" "thPc t = AtDeleteJob" "thread_exec K A t s = (t', s')"
  shows "cvSecrets (view s') = cvSecrets (view s)" "thPc t' = AtDeleteSecret \<or> has_failed t'"
proof -
  obtain c s1 where c: "kcDelete K \<lparr>rrAPIResource = JobAPI, rrName = jspName (thSpec t),
      rrNamespace = thNamespace t\<rparr> s = (c, s1)" by force
  show "thPc t' = AtDeleteSecret \<or> has_failed t'"
    using c assms(2,3) by (auto simp: thread_exec_unfold Let_def has_failed_def split: option.splits if_splits)
  have "s' = s1" using c assms(2,3) by (auto simp: thread_exec_unfold Let_def split: option.splits if_splits)
  with delete_frame [OF assms(1) c] show "cvSecrets (view s') = cvSecrets (view s)" by simp
qed

lemma AtDeleteSecret_step:
  assumes "thNamespace t \<noteq> ''''" "thPc t = AtDeleteSecret" "thOp t = OpDelete" "thread_exec K A t s = (t', s')"
  shows "cvJobs (view s') = cvJobs (view s)"
    "thPc t' = Returned None \<and> thread_key t \<notin> dom (cvSecrets (view s')) \<or> has_failed t'"
proof -
  obtain c s1 where c: "kcDeleteSecret K (thNamespace t) (jspName (thSpec t)) s = (c, s1)" by force
  have s': "s' = s1" using c assms(2-4) by (auto simp: thread_exec_unfold Let_def split: option.splits if_splits)
  with delete_secret_frame [OF assms(1) c] show "cvJobs (view s') = cvJobs (view s)" by simp
  show "thPc t' = Returned None \<and> thread_key t \<notin> dom (cvSecrets (view s')) \<or> has_failed t'"
  proof (cases "c = None \<or> (\<exists>e. c = Some e \<and> errors_Is e ErrResourceNotFound)")
    case True
    then have "cvSecrets (view s1) (thread_key t) = None"
      using c delete_secret_ok [OF assms(1), of _ s s1] delete_secret_missing [OF assms(1), of _ s _ s1]
      by (auto simp: thread_key_def)
    moreover have "thPc t' = Returned None"
      using True c assms(2-4) by (auto simp: thread_exec_unfold Let_def)
    ultimately show ?thesis by (simp add: s' domIff)
  next
    case False
    then show ?thesis using c assms(2-4)
      by (auto simp: thread_exec_unfold Let_def has_failed_def split: option.splits)
  qed
qed

lemma race_run_call:
  assumes ns: "ns \<noteq> ''''" and named: "names_job A spec ns" and secs: "jspSecrets spec \<noteq> []"
    and rel: "race_rel (ns, jspName spec) a (thPc t) l (view s)" and t: "racing ns spec t u"
    and exec: "thread_exec K A t s = (t', s')"
  shows "has_failed t' \<or> race_rel (ns, jspName spec) (race_next 0 a) (thPc t') l (view s')"
proof -
  obtain r d job secret where a: "a = (r, d, job, secret)" by (cases a)
  have t: "thNamespace t \<noteq> ''''" "names_job A (thSpec t) (thNamespace t)" "thread_key t = (ns, jspName spec)"
    "thSpec t = spec"
    using t ns named by (auto simp: racing_def thread_key_def)
  have "run_at r (thPc t)" using rel by (simp add: race_rel_def a)
  then show ?thesis
  proof (cases rule: run_atE)
    case 1
    note step = AtCreateSecret_step [OF t(1) 1(2) exec]
    from growsD(1) [OF step(1)] step(2) rel 1(1) t(3) show ?thesis
      by (auto simp: race_rel_def a run_at_def has_failed_def simp del: domIff)
  next
    case 2
    note same = AtCreateJob_secrets [OF t(1) 2(2) exec]
    from t(1,2) 2(2) exec show ?thesis
    proof (cases rule: AtCreateJob_step)
      case (created uid)
      with rel same 2(1) t secs show ?thesis by (simp add: race_rel_def a run_at_def)
    next
      case present
      with rel same 2(1) t show ?thesis by (simp add: race_rel_def a run_at_def)
    qed (simp add: has_failed_def)
  next
    case (3 uid)
    with rel AtAdopt_keeps [OF t(1) 3(2) exec] show ?thesis by (simp add: race_rel_def a run_at_def)
  next
    case 4
    from exec thread_exec_Returned [OF this(2), of K A s] have "t' = t" "s' = s" by simp_all
    with rel 4 show ?thesis by (simp add: race_rel_def a run_at_def)
  qed
qed

lemma race_delete_call:
  assumes ns: "ns \<noteq> ''''" and rel: "race_rel (ns, jspName spec) a l (thPc u) (view s)"
    and u: "racing ns spec t u" and exec: "thread_exec K A u s = (u', s')"
  shows "has_failed u' \<or> race_rel (ns, jspName spec) (race_next 1 a) l (thPc u') (view s')"
proof -
  obtain r d job secret where a: "a = (r, d, job, secret)" by (cases a)
  have u: "thNamespace u \<noteq> ''''" "thOp u = OpDelete" "thread_key u = (ns, jspName spec)"
    using u ns by (auto simp: racing_def thread_key_def)
  have "delete_at d (thPc u)" using rel by (simp add: race_rel_def a)
  then show ?thesis
  proof (cases rule: delete_atE)
    case 1
    with rel AtDeleteJob_step [OF u(1) 1(2) exec] show ?thesis by (auto simp: race_rel_def a delete_at_def)
  next
    case 2
    with rel AtDeleteSecret_step [OF u(1) 2(2) u(2) exec] u(3) show ?thesis
      by (auto simp: race_rel_def a delete_at_def)
  next
    case 3
    from exec thread_exec_Returned [OF this(2), of K A s] have "u' = u" "s' = s" by simp_all
    with rel 3 show ?thesis by (simp add: race_rel_def a delete_at_def)
  qed
qed

lemma race_schedule:
  assumes ns: "ns \<noteq> ''''" and named: "names_job A spec ns" and secs: "jspSecrets spec \<noteq> []"
  shows "set is \<subseteq> {0, 1} \<Longrightarrow> racing ns spec t u \<Longrightarrow>
    has_failed t \<or> has_failed u \<or> race_rel (ns, jspName spec) a (thPc t) (thPc u) (view s) \<Longrightarrow>
    \<exists>t' u' s'. schedule K A is ([t, u], s) = ([t', u'], s') \<and>
      (has_failed t' \<or> has_failed u' \<or>
       race_rel (ns, jspName spec) (fold race_next is a) (thPc t') (thPc u') (view s'))"
proof (induction "is" arbitrary: a t u s)
  case (Cons i "is")
  obtain t1 s1 where t1: "thread_exec K A t s = (t1, s1)" by force
  obtain u1 s2 where u1: "thread_exec K A u s = (u1, s2)" by force
  from Cons.prems(1) consider "i = 0" | "i = 1" by auto
  then show ?case
  proof cases
    case 1
    have "has_failed t1 \<or> has_failed u \<or> race_rel (ns, jspName spec) (race_next 0 a) (thPc t1) (thPc u) (view s1)"
      using Cons.prems(3) has_failed_exec [OF _ t1] race_run_call [OF ns named secs _ Cons.prems(2) t1] by blast
    with Cons.IH [OF _ racing_exec(1) [OF Cons.prems(2) t1]] Cons.prems(1) t1 1 show ?thesis by simp
  next
    case 2
    have "has_failed t \<or> has_failed u1 \<or> race_rel (ns, jspName spec) (race_next 1 a) (thPc t) (thPc u1) (view s2)"
      using Cons.prems(3) has_failed_exec [OF _ u1] race_delete_call [OF ns _ Cons.prems(2) u1] by blast
    with Cons.IH [OF _ racing_exec(2) [OF Cons.prems(2) u1]] Cons.prems(1) u1 2 show ?thesis by simp
  qed
qed simp

end

text \<open>
  C18: A \<open>Run\<close> and a \<open>Delete\<close> of the same name, interleaved in any of the ten orders of their calls, on
  any API server and from any state, both returning nil. The Secret is there afterwards only if the
  deletion made both its calls before the dispatch made any; and unless the dispatch made its two
  creations before the deletion began, the Job is there. So in the six orders in which each makes
  one of the first two calls, the Job is left without its Secret and its pod cannot start, although
  both were told nil: the order of the calls does not protect a dispatch from a concurrent deletion.
  (Of the three calls listed for the dispatch the last is the adoption; a dispatch that met a Job of
  its name has returned by then, and makes none.)
\<close>
theorem Run_Delete_race:
  assumes "api_server L A view" "ns \<noteq> ''''" "names_job A spec ns" "jspSecrets spec \<noteq> []"
    and "is \<in> shuffles [0, 0, 0] [1, 1]"
    and "schedule (kubernetesClientImpl L) A is ([new_thread OpRun ns spec, new_thread OpDelete ns spec], s) = (ts, s')"
    and "map thPc ts = [Returned None, Returned None]"
  shows "(cvSecrets (view s') (ns, jspName spec) \<noteq> None \<longleftrightarrow> take 2 is = [1, 1]) \<and>
    (take 2 is \<noteq> [0, 0] \<longrightarrow> cvJobs (view s') (ns, jspName spec) \<noteq> None)"
proof -
  let ?t = "new_thread OpRun ns spec" and ?u = "new_thread OpDelete ns spec"
  note store = api_server.job_store_impl [OF assms(1)]
  have "race_rel (ns, jspName spec) (0, 0, False, None) (thPc ?t) (thPc ?u) (view s)"
    using assms(4) by (simp add: race_rel_def new_thread_def run_at_def delete_at_def run_entry_def)
  note start = disjI2 [OF disjI2 [OF this]]
  have both: "racing ns spec ?t ?u" by (simp add: racing_def new_thread_def)
  have calls: "set is \<subseteq> {0, 1}" using set_shuffles [OF assms(5)] by auto
  obtain t u where "ts = [t, u]" "has_failed t \<or> has_failed u \<or>
      race_rel (ns, jspName spec) (fold race_next is (0, 0, False, None)) (thPc t) (thPc u) (view s')"
    using job_store.race_schedule [OF store assms(2-4) calls both start] assms(6) by auto
  with assms(7) have rel: "race_rel (ns, jspName spec) (fold race_next is (0, 0, False, None))
      (Returned None) (Returned None) (view s')"
    by (auto simp: has_failed_def)
  from assms(5) show ?thesis
    by (simp, elim disjE) (use rel in \<open>simp_all add: race_rel_def domIff ex_bool_eq\<close>)
qed

theorem Run_Delete_race_witness:
  "\<exists>ts s'. schedule mem_client mem_objects [1, 0, 1, 0, 0]
      ([new_thread OpRun ''rg-1'' demo_spec, new_thread OpDelete ''rg-1'' demo_spec], mem_init) = (ts, s') \<and>
     map thPc ts = [Returned None, Returned None] \<and>
     cvJobs (mem_view s') (''rg-1'', jspName demo_spec) \<noteq> None \<and>
     \<not> cvSecrets (mem_view s') (''rg-1'', jspName demo_spec) \<noteq> None"
proof -
  let ?init = "([new_thread OpRun ''rg-1'' demo_spec, new_thread OpDelete ''rg-1'' demo_spec], mem_init)"
  let ?is = "[1, 0, 1, 0, 0] :: nat list"
  obtain ts s' where r: "schedule mem_client mem_objects ?is ?init = (ts, s')" by force
  from r have pcs: "map thPc ts = [Returned None, Returned None]"
    by (auto simp: demo_race_defs)
  have ns: "''rg-1'' \<noteq> ''''" and secs: "jspSecrets demo_spec \<noteq> []"
    and calls: "?is \<in> shuffles [0, 0, 0] [1, 1]" and first: "take 2 ?is \<noteq> [1, 1]" "take 2 ?is \<noteq> [0, 0]"
    by (simp_all add: demo_spec_def)
  note race = Run_Delete_race [OF mem.api_server_axioms ns demo_names secs calls r pcs]
  have gone: "\<not> cvSecrets (mem_view s') (''rg-1'', jspName demo_spec) \<noteq> None"
    by (subst conjunct1 [OF race]) (rule first(1))
  have there: "cvJobs (mem_view s') (''rg-1'', jspName demo_spec) \<noteq> None"
    by (rule mp [OF conjunct2 [OF race] first(2)])
  from r pcs there gone show ?thesis by (intro exI [of _ ts] exI [of _ s'] conjI)
qed

theorem callers_terminate_witness:
  "\<exists>ts s'. sys_run mem_client mem_objects (\<lambda>_ _. False) 2 (map (\<lambda>(op, ns, spec). new_thread op ns spec)
      [(OpRun, ''rg-1'', demo_spec), (OpDelete, ''rg-1'', demo_spec)], mem_init) (ts, s') \<and>
     2 + work ts \<le> 10 \<and> length ts = 2"
proof -
  let ?init = "(map (\<lambda>(op, ns, spec). new_thread op ns spec)
      [(OpRun, ''rg-1'', demo_spec), (OpDelete, ''rg-1'', demo_spec)], mem_init)"
  obtain ts s' where r: "schedule mem_client mem_objects [1, 0] ?init = (ts, s')" by force
  have "schedulable mem_client mem_objects [1, 0] ?init"
    by (simp add: demo_race_defs)
  then have run: "sys_run mem_client mem_objects (\<lambda>_ _. False) 2 ?init (ts, s')"
    by (rule schedule_runs) (use r in simp_all)
  from callers_terminate [OF run] run show ?thesis by (intro exI [of _ ts] exI [of _ s']) simp
qed

end
