(* ===== verification/JobPhases.thy ===== *)
theory JobPhases
  imports JobProtocol
begin

text \<open>
  What the API calls of the Job runner (\<open>client/jobrunner.go\<close>) do to the phases of all Jobs; the phase of
  a Job is defined in JobState. The locale \<open>job_reads\<close> adds to the contract of
  Cluster what a read returns: the Job that is stored, and, for a new Job, an empty status.
\<close>

subsection \<open>The phases of all Jobs\<close>

definition phases :: "('u \<Rightarrow> 'r Job) \<Rightarrow> 'u cluster_view \<Rightarrow> string \<times> string \<Rightarrow> JobPhase" where
  "phases typed v k = (case cvJobs v k of None \<Rightarrow> JobNotFound | Some u \<Rightarrow> phase_of (typed u))"

lemma phase_of_new: "jobStatus job = empty_status \<Longrightarrow> phase_of job = JobPending"
  by (simp add: phase_of_eq jobConditionTrue_def empty_status_def)

lemma phases_not_found: "phases typed v k = JobNotFound \<longleftrightarrow> cvJobs v k = None"
  by (simp add: phases_def split: option.splits)

lemma phases_cong: "cvJobs v k = cvJobs w k \<Longrightarrow> phases typed v k = phases typed w k"
  by (simp add: phases_def)

text \<open>What \<open>State\<close> reports of a Job it has read.\<close>

lemma State_found_phase:
  assumes "kcGetJob K ns name s = (Inr job, s1)" "JobRunner_State K sort_Slice ns name s = (Inr st, s')"
  shows "jstPhase st = phase_of job"
  using assms(2) unfolding State_found [OF assms(1)] by (auto simp: phase_of_eq split: if_splits)

subsection \<open>The contract of reads\<close>

locale job_reads = job_store K A view
  for K :: "('s, 'u, 'r) KubernetesClient" and A :: "('u, 'r) object_libs" and view :: "'s \<Rightarrow> 'u cluster_view" +
  fixes typed :: "'u \<Rightarrow> 'r Job"
  assumes get_job_ok: "ns \<noteq> '''' \<Longrightarrow> kcGetJob K ns name s = (Inr job, s') \<Longrightarrow>
      \<exists>u. cvJobs (view s) (ns, name) = Some u \<and> typed u = job"
    and create_new: "ns \<noteq> '''' \<Longrightarrow> kcCreate K JobAPI ns u s = (c, s') \<Longrightarrow>
      cvJobs (view s) (ns, obj_GetName A u) = None \<Longrightarrow> cvJobs (view s') (ns, obj_GetName A u) = Some u' \<Longrightarrow>
      jobStatus (typed u') = empty_status"

locale api_reads = api_server L A view
  for L :: "('s, 'u, 'r, 'e) client_libs" and A :: "('u, 'r) object_libs" and view :: "'s \<Rightarrow> 'u cluster_view" +
  fixes typed :: "'u \<Rightarrow> 'r Job"
  assumes get_job_ok: "csGetJob L ns name s = (Inr job, s') \<Longrightarrow>
      \<exists>u. cvJobs (view s) (ns, name) = Some u \<and> typed u = job"
    and create_new: "dynCreate L (toGVR JobAPI) (Some ns) u s = (c, s') \<Longrightarrow>
      cvJobs (view s) (ns, obj_GetName A u) = None \<Longrightarrow> cvJobs (view s') (ns, obj_GetName A u) = Some u' \<Longrightarrow>
      jobStatus (typed u') = empty_status"

sublocale api_reads \<subseteq> reads: job_reads "kubernetesClientImpl L" A view typed
proof (unfold_locales, goal_cases)
  case (1 ns name s job s')
  then show ?case using get_job_ok by (simp add: impl_sel impl_op_defs wrap_iffs)
next
  case (2 ns u s c s' u')
  obtain c0 s0 where "dynCreate L (toGVR JobAPI) (Some ns) u s = (c0, s0)" by force
  from 2 create_new [OF this] this show ?case
    by (auto simp: impl_sel impl_op_defs ns_scope_def wrap_result_def split: sum.splits)
qed

interpretation mem_reads: api_reads mem_libs mem_objects mem_view "\<lambda>j. j"
  by unfold_locales (auto simp: mem_defs mem_view_def split: if_splits option.splits)

context api_reads
begin

lemma job_reads_impl: "job_reads (kubernetesClientImpl L) A view typed"
  by (rule reads.job_reads_axioms)

end

subsection \<open>What one call does to the phases\<close>

text \<open>
  A call moves only the phase of its own Job: from missing to pending, or, for a deletion, to missing.
  A dispatch that runs alone is a sequence of such calls.
\<close>

definition valid_thread :: "('u, 'r) object_libs \<Rightarrow> 'r thread \<Rightarrow> bool" where
  "valid_thread A t \<longleftrightarrow> thNamespace t \<noteq> '''' \<and> names_job A (thSpec t) (thNamespace t)"

lemma valid_thread_exec: "thread_exec K A t s = (t', s') \<Longrightarrow> valid_thread A t \<Longrightarrow> valid_thread A t'"
  by (simp add: valid_thread_def thread_exec_frame)

lemma thread_key_exec: "thread_exec K A t s = (t', s') \<Longrightarrow> thread_key t' = thread_key t"
  by (simp add: thread_key_def thread_exec_frame)

lemma dispatch_never_deletes:
  "thread_exec K A t s = (t', s') \<Longrightarrow> thPc t \<noteq> AtDeleteJob \<Longrightarrow> thPc t \<noteq> AtDeleteSecret \<Longrightarrow>
   thPc t' \<noteq> AtDeleteJob \<and> thPc t' \<noteq> AtDeleteSecret"
  by (auto simp: thread_exec_unfold Let_def split: pc.splits prod.splits option.splits sum.splits if_splits)

context job_reads
begin

abbreviation ph :: "'s \<Rightarrow> string \<times> string \<Rightarrow> JobPhase" where
  "ph s \<equiv> phases typed (view s)"

lemma adoptSecret_jobs [simp]: "ns \<noteq> '''' \<Longrightarrow> cvJobs (view (adoptSecret K ns name uid s)) = cvJobs (view s)"
  by (metis adoptSecret_view set_owners_simps(1))

lemma create_phases:
  assumes ns: "ns \<noteq> ''''" and c: "kcCreate K JobAPI ns u s = (c, s')" and k: "k = (ns, obj_GetName A u)"
  shows "ph s' = ph s \<or> ph s k = JobNotFound \<and> ph s' = (ph s)(k := JobPending)"
proof -
  have adds: "only_adds k (cvJobs (view s)) (cvJobs (view s'))"
    using create_ok [OF ns, of u s _ s'] create_fail [OF ns, of u s _ s'] c k
    by (cases c) (simp_all add: only_adds_insert)
  have "ph s' k' = ph s k'" if "k' \<noteq> k \<or> ph s k \<noteq> JobNotFound" for k'
    using only_addsD [OF adds, of k'] that by (cases "k' = k") (auto intro: phases_cong simp: phases_not_found)
  moreover have "ph s' k = JobPending" if "ph s k = JobNotFound" "ph s' k \<noteq> JobNotFound"
    using create_new [OF ns c] that k by (auto simp: phases_def phase_of_new split: option.splits)
  ultimately have "ph s' = (ph s)(k := ph s' k)" "ph s k = JobNotFound \<longrightarrow> ph s' k \<in> {JobNotFound, JobPending}"
    "ph s k \<noteq> JobNotFound \<longrightarrow> ph s' k = ph s k"
    by (auto simp: fun_eq_iff)
  then show ?thesis by (metis fun_upd_triv insertE singletonD)
qed

lemma thread_phases:
  assumes "valid_thread A t" "thread_exec K A t s = (t', s')"
  shows "ph s' = ph s \<or> ph s (thread_key t) = JobNotFound \<and> ph s' = (ph s)(thread_key t := JobPending) \<or>
    thPc t = AtDeleteJob \<and> ph s' = (ph s)(thread_key t := JobNotFound)"
proof -
  have ns: "thNamespace t \<noteq> ''''" and named: "names_job A (thSpec t) (thNamespace t)"
    using assms(1) by (simp_all add: valid_thread_def)
  have same: "ph s' = ph s" if "cvJobs (view s') = cvJobs (view s)"
    using that by (simp add: phases_def fun_eq_iff)
  show ?thesis
  proof (cases "thPc t")
    case AtDeleteJob
    obtain c s1 where c: "kcDelete K \<lparr>rrAPIResource = JobAPI, rrName = jspName (thSpec t), rrNamespace = thNamespace t\<rparr> s = (c, s1)"
      by force
    have "s' = s1" using assms(2) AtDeleteJob c
      by (auto simp: thread_exec_unfold Let_def split: option.splits if_splits)
    with delete_frame [OF ns c] AtDeleteJob show ?thesis
      by (auto simp: only_removes_def phases_def thread_key_def fun_eq_iff)
  next
    case AtDeleteSecret
    obtain c s1 where c: "kcDeleteSecret K (thNamespace t) (jspName (thSpec t)) s = (c, s1)" by force
    have "s' = s1" using assms(2) AtDeleteSecret c
      by (auto simp: thread_exec_unfold Let_def split: option.splits if_splits)
    with delete_secret_frame [OF ns c] same show ?thesis by simp
  next
    case AtCreateSecret
    let ?sec = "buildJobSecret (thSpec t) (thNamespace t)"
    obtain c s1 where c: "kcCreateSecret K (thNamespace t) ?sec s = (c, s1)" by force
    have "s' = s1" using assms(2) AtCreateSecret c
      by (auto simp: thread_exec_unfold Let_def split: sum.splits if_splits)
    with create_secret_ok [OF ns, of ?sec s _ s1] create_secret_fail [OF ns, of ?sec s _ s1] c same show ?thesis
      by (cases c) simp_all
  next
    case AtCreateJob
    show ?thesis
    proof (cases "buildJob A (thSpec t) (thNamespace t)")
      case (Inl e)
      with assms(2) AtCreateJob show ?thesis by (auto simp: thread_exec_unfold Let_def)
    next
      case (Inr u)
      obtain c s1 where c: "kcCreate K JobAPI (thNamespace t) u s = (c, s1)" by force
      have "s' = s1" using assms(2) AtCreateJob Inr c
        by (auto simp: thread_exec_unfold Let_def split: sum.splits if_splits)
      moreover have "thread_key t = (thNamespace t, obj_GetName A u)"
        using names_jobD [OF named Inr] by (simp add: thread_key_def)
      ultimately show ?thesis using create_phases [OF ns c] by blast
    qed
  next
    case (AtAdopt uid)
    with assms(2) have "s' = adoptSecret K (thNamespace t) (jspName (thSpec t)) uid s"
      by (auto simp: thread_exec_unfold Let_def)
    with ns same show ?thesis by simp
  next
    case (Returned r)
    with assms(2) show ?thesis by (simp add: thread_exec_unfold Let_def)
  qed
qed

lemma thread_alone_phases:
  assumes "valid_thread A t" "thOp t = OpRun" "thPc t \<noteq> AtDeleteJob" "thPc t \<noteq> AtDeleteSecret"
    and "thread_run K A t s = (r, s')"
  shows "ph s' = ph s \<or> ph s (thread_key t) = JobNotFound \<and> ph s' = (ph s)(thread_key t := JobPending)"
  using assms(5,1-4)
proof (induction rule: thread_run_induct)
  case (go t s t1 s1)
  have "ph s' = ph s1 \<or> ph s1 (thread_key t1) = JobNotFound \<and> ph s' = (ph s1)(thread_key t1 := JobPending)"
    by (rule go.IH) (use go.prems(2) valid_thread_exec [OF go.hyps(2) go.prems(1)] thread_exec_frame(1) [OF go.hyps(2)]
      dispatch_never_deletes [OF go.hyps(2) go.prems(3,4)] in simp_all)
  with thread_phases [OF go.prems(1) go.hyps(2)] go.prems(3) thread_key_exec [OF go.hyps(2)] show ?case by auto
qed simp

end

end
