(* ===== verification/JobLifecycle.thy ===== *)
theory JobLifecycle
  imports JobPhases
begin

text \<open>
  The life of a Job as the callers of \<open>client/jobrunner.go\<close> see it. The abstract machine knows only
  the phase of every Job and what each call reports; \<open>lifecycle_refinement\<close> shows that \<open>Run\<close>,
  \<open>State\<close>, \<open>Delete\<close> and \<open>Replace\<close>, interleaved with the rest of the world, take only steps of that
  machine. The rest is what follows for a history of calls: what two polls tell of each other, and
  that an operation whose Job the cluster works on is reported finished in the end.
\<close>

subsection \<open>The abstract machine\<close>

text \<open>
  What a caller sees of one call: whose Job it was for, and the answer. \<open>Elsewhere\<close> is a step of the
  rest of the world: the Job controller, garbage collection, users.
\<close>

datatype job_event =
    Dispatched "string \<times> string" "go_error option"
  | Polled "string \<times> string" "go_error + JobPhase"
  | Deleted "string \<times> string" "go_error option"
  | Replaced "string \<times> string" "go_error option"
  | Elsewhere

text \<open>
  The steps of the machine, given how the rest of the world may move the phase of a Job. A dispatch
  creates a pending Job or leaves everything as it is, and a poll tells the phase. A call that failed
  may still have had its effect. A deletion may be accepted and not finished, so a replacement may
  meet the old Job.
\<close>

fun life_step ::
  "(JobPhase \<Rightarrow> JobPhase \<Rightarrow> bool) \<Rightarrow> job_event \<Rightarrow> (string \<times> string \<Rightarrow> JobPhase) \<Rightarrow>
   (string \<times> string \<Rightarrow> JobPhase) \<Rightarrow> bool" where
  "life_step W (Dispatched k r) m m' \<longleftrightarrow>
     (m' = m \<or> m k = JobNotFound \<and> m' = m(k := JobPending)) \<and> (r = None \<longrightarrow> m' k \<noteq> JobNotFound)"
| "life_step W (Polled k r) m m' \<longleftrightarrow> m' = m \<and> (\<forall>p. r = Inr p \<longrightarrow> p = m k)"
| "life_step W (Deleted k r) m m' \<longleftrightarrow> m' = m \<or> m' = m(k := JobNotFound)"
| "life_step W (Replaced k r) m m' \<longleftrightarrow>
     (m' = m \<or> m' = m(k := JobNotFound) \<or> m' = m(k := JobPending)) \<and> (r = None \<longrightarrow> m' k \<noteq> JobNotFound)"
| "life_step W Elsewhere m m' \<longleftrightarrow> (\<forall>k. W (m k) (m' k))"

text \<open>Runs of a labelled transition system.\<close>

inductive runs :: "('e \<Rightarrow> 's \<Rightarrow> 's \<Rightarrow> bool) \<Rightarrow> 'e list \<Rightarrow> 's \<Rightarrow> 's \<Rightarrow> bool" for step where
  stop: "runs step [] s s"
| go: "step e s s' \<Longrightarrow> runs step es s' s'' \<Longrightarrow> runs step (e # es) s s''"

inductive_simps runs_Nil [simp]: "runs step [] s s'"
inductive_simps runs_Cons: "runs step (e # es) s s'"

lemma runs_append: "runs step (es @ fs) s s'' \<longleftrightarrow> (\<exists>s'. runs step es s s' \<and> runs step fs s' s'')"
  by (induction es arbitrary: s) (auto simp: runs_Cons)

lemma runs_simulated:
  assumes "\<And>e s s'. step e s s' \<Longrightarrow> step' e (f s) (f s')"
  shows "runs step es s s' \<Longrightarrow> runs step' es (f s) (f s')"
  by (induction rule: runs.induct) (auto intro: runs.intros assms)

subsection \<open>The calls refine the machine\<close>

inductive job_step ::
  "('s, 'u, 'r) KubernetesClient \<Rightarrow> ('u, 'r) object_libs \<Rightarrow> slice_sorter \<Rightarrow> ('s \<Rightarrow> 's \<Rightarrow> bool) \<Rightarrow>
   job_event \<Rightarrow> 's \<Rightarrow> 's \<Rightarrow> bool" for K A sort_Slice env where
  run: "ns \<noteq> '''' \<Longrightarrow> names_job A spec ns \<Longrightarrow> JobRunner_Run K A ns spec s = (r, s') \<Longrightarrow>
    job_step K A sort_Slice env (Dispatched (ns, jspName spec) r) s s'"
| state: "ns \<noteq> '''' \<Longrightarrow> JobRunner_State K sort_Slice ns name s = (r, s') \<Longrightarrow>
    job_step K A sort_Slice env (Polled (ns, name) (map_sum (\<lambda>e. e) jstPhase r)) s s'"
| delete: "ns \<noteq> '''' \<Longrightarrow> JobRunner_Delete K ns name s = (r, s') \<Longrightarrow>
    job_step K A sort_Slice env (Deleted (ns, name) r) s s'"
| replace: "ns \<noteq> '''' \<Longrightarrow> names_job A spec ns \<Longrightarrow> JobRunner_Replace K A ns spec s = (r, s') \<Longrightarrow>
    job_step K A sort_Slice env (Replaced (ns, jspName spec) r) s s'"
| world: "env s s' \<Longrightarrow> job_step K A sort_Slice env Elsewhere s s'"

definition world_moves ::
  "(JobPhase \<Rightarrow> JobPhase \<Rightarrow> bool) \<Rightarrow> ('u \<Rightarrow> 'r Job) \<Rightarrow> ('s \<Rightarrow> 'u cluster_view) \<Rightarrow> ('s \<Rightarrow> 's \<Rightarrow> bool) \<Rightarrow> bool" where
  "world_moves W typed view env \<longleftrightarrow>
     (\<forall>s s' k. env s s' \<longrightarrow> W (phases typed (view s) k) (phases typed (view s') k))"

context job_reads
begin

lemma Run_life:
  assumes "ns \<noteq> ''''" "names_job A spec ns" "JobRunner_Run K A ns spec s = (r, s')"
  shows "life_step W (Dispatched (ns, jspName spec) r) (ph s) (ph s')"
  using thread_alone_phases [of "new_thread OpRun ns spec" s r s'] assms(1,2) Run_effect(2) [OF assms]
    thread_run_entry [of "new_thread OpRun ns spec" K A s] assms(3)
  by (auto simp: valid_thread_def new_thread_def thread_key_def run_entry_def phases_not_found)

lemma Delete_life:
  assumes "ns \<noteq> ''''" "JobRunner_Delete K ns name s = (r, s')"
  shows "life_step W (Deleted (ns, name) r) (ph s) (ph s')"
  using Delete_effect(1) [OF assms] by (auto simp: only_removes_def phases_def fun_eq_iff)

lemma Replace_life:
  assumes "ns \<noteq> ''''" "names_job A spec ns" "JobRunner_Replace K A ns spec s = (r, s')"
  shows "life_step W (Replaced (ns, jspName spec) r) (ph s) (ph s')"
proof -
  obtain r1 s1 where del: "JobRunner_Delete K ns (jspName spec) s = (r1, s1)" by force
  note d = Delete_life [OF assms(1) del, of W]
  show ?thesis
  proof (cases r1)
    case None
    with assms(3) del have "JobRunner_Run K A ns spec s1 = (r, s')" by (simp add: JobRunner_Replace_def)
    from Run_life [OF assms(1,2) this, of W] d show ?thesis by auto
  next
    case (Some e)
    with assms(3) del d show ?thesis by (auto simp: JobRunner_Replace_def)
  qed
qed

lemma State_life:
  assumes "ns \<noteq> ''''" "JobRunner_State K sort_Slice ns name s = (r, s')"
  shows "life_step W (Polled (ns, name) (map_sum (\<lambda>e. e) jstPhase r)) (ph s) (ph s')"
proof -
  have "jstPhase st = ph s (ns, name)" if "r = Inr st" for st
    using assms(2) [unfolded that]
  proof (cases rule: State_cases)
    case (missing e)
    then show ?thesis using get_job_missing by (simp add: phases_def)
  next
    case (found job s1)
    then show ?thesis
      using get_job_ok [OF assms(1) found(1)] State_found_phase [OF found(1)] assms(2) that
      by (auto simp: phases_def)
  qed
  then show ?thesis using State_frame [OF assms(2)] by (cases r) simp_all
qed

lemma job_step_life:
  assumes "world_moves W typed view env" "job_step K A sort_Slice env e s s'"
  shows "life_step W e (ph s) (ph s')"
  using assms(2)
proof cases
  case (run ns spec r)
  show ?thesis unfolding run(1) by (rule Run_life [OF run(2-4)])
next
  case (state ns name r)
  show ?thesis unfolding state(1) by (rule State_life [OF state(2,3)])
next
  case (delete ns name r)
  show ?thesis unfolding delete(1) by (rule Delete_life [OF delete(2,3)])
next
  case (replace ns spec r)
  show ?thesis unfolding replace(1) by (rule Replace_life [OF replace(2-4)])
next
  case world
  with assms(1) show ?thesis by (simp add: world_moves_def)
qed

end

subsection \<open>What a sequence of reports can say\<close>

fun dispatches :: "string \<times> string \<Rightarrow> job_event \<Rightarrow> bool" where
  "dispatches k (Dispatched k' r) \<longleftrightarrow> k' = k"
| "dispatches k _ \<longleftrightarrow> False"

fun removes :: "string \<times> string \<Rightarrow> job_event \<Rightarrow> bool" where
  "removes k (Deleted k' r) \<longleftrightarrow> k' = k"
| "removes k (Replaced k' r) \<longleftrightarrow> k' = k"
| "removes k _ \<longleftrightarrow> False"

text \<open>
  What the Job controller documents: an unfinished Job may go on in any way, a finished one stays as
  it is; either may disappear (a user deletes it, or its TTL has passed). \<open>phase_kept\<close> is the world in
  which Jobs do not disappear, seen from a caller that may dispatch.
\<close>

definition phase_moves :: "JobPhase \<Rightarrow> JobPhase \<Rightarrow> bool" where
  "phase_moves p q \<longleftrightarrow> q = p \<or> q = JobNotFound \<or> p = JobPending \<or> p = JobRunning"

definition phase_kept :: "JobPhase \<Rightarrow> JobPhase \<Rightarrow> bool" where
  "phase_kept p q \<longleftrightarrow> q = p \<or> (p = JobNotFound \<or> p = JobPending \<or> p = JobRunning) \<and> q \<noteq> JobNotFound"

lemma phase_moves_preorder: "reflp phase_moves" "transp phase_moves"
  by (auto simp: reflp_def transp_def phase_moves_def)

lemma phase_kept_preorder: "reflp phase_kept" "transp phase_kept"
  by (auto simp: reflp_def transp_def phase_kept_def)

lemma life_step_moves:
  assumes "reflp W" "life_step W e m m'" "\<not> removes k e" "dispatches k e \<Longrightarrow> W JobNotFound JobPending"
  shows "W (m k) (m' k)"
  using assms by (cases e) (auto simp del: split_paired_All dest: reflpD)

lemma life_runs_move:
  assumes "reflp W" "transp W" "runs (life_step W) es m m'"
    and "\<forall>e \<in> set es. \<not> removes k e" "\<forall>e \<in> set es. dispatches k e \<longrightarrow> W JobNotFound JobPending"
  shows "W (m k) (m' k)"
  using assms(3-5)
proof (induction rule: runs.induct)
  case (stop m)
  then show ?case using assms(1) by (simp add: reflpD)
next
  case (go e m m1 es m2)
  have "W (m k) (m1 k)" using life_step_moves [OF assms(1) go.hyps(1), of k] go.prems by simp
  moreover have "W (m1 k) (m2 k)" using go.IH go.prems by simp
  ultimately show ?case using assms(2) by (blast dest: transpD)
qed

lemma life_reports:
  assumes "reflp W" "transp W"
    and "runs (life_step W) (es @ Polled k (Inr p) # fs @ [Polled k (Inr q)]) m m'"
    and "\<forall>e \<in> set fs. \<not> removes k e" "\<forall>e \<in> set fs. dispatches k e \<longrightarrow> W JobNotFound JobPending"
  shows "W p q"
proof -
  from assms(3) obtain m1 m2 where "p = m1 k" "runs (life_step W) fs m1 m2" "q = m2 k"
    by (auto simp: runs_append runs_Cons)
  with life_runs_move [OF assms(1,2) _ assms(4,5)] show ?thesis by simp
qed

lemma api_runs_life:
  assumes "api_reads L A view typed" "world_moves W typed view env"
    and "runs (job_step (kubernetesClientImpl L) A sort_Slice env) es s s'"
  shows "runs (life_step W) es (phases typed (view s)) (phases typed (view s'))"
  using assms(3)
  by (rule runs_simulated [where f = "\<lambda>s. phases typed (view s)", rotated])
     (rule job_reads.job_step_life [OF api_reads.job_reads_impl [OF assms(1)] assms(2)])

text \<open>A world that finishes every unfinished Job at once.\<close>

definition mem_finish :: "mem \<Rightarrow> mem" where
  "mem_finish s = s\<lparr>mJobs := (\<lambda>k. map_option (\<lambda>j.
     if phase_of j = JobPending \<or> phase_of j = JobRunning
     then j\<lparr>jobStatus := \<lparr>jsStartTime = Some 5, jsCompletionTime = Some 8, jsActive = 0, jsConditions =
       [\<lparr>jcType = JobComplete, jcStatus = ConditionTrue, jcReason = '''', jcMessage = '''', jcLastTransitionTime = 8\<rparr>]\<rparr>\<rparr>
     else j) (mJobs s k))\<rparr>"

definition demo_key :: "string \<times> string" where
  "demo_key = (''rg-1'', jspName demo_spec)"

lemma mem_finish_moves:
  "world_moves phase_moves (\<lambda>j. j) mem_view (\<lambda>s s'. s' = mem_finish s)"
  "world_moves phase_kept (\<lambda>j. j) mem_view (\<lambda>s s'. s' = mem_finish s)"
  by (auto simp: world_moves_def mem_finish_def mem_view_def phases_def phase_moves_def phase_kept_def
      split: option.splits)

abbreviation demo_runs :: "job_event list \<Rightarrow> mem \<Rightarrow> mem \<Rightarrow> bool" where
  "demo_runs \<equiv> runs (job_step mem_client mem_objects insertionSort (\<lambda>s s'. s' = mem_finish s))"

lemmas demo_poll_defs = JobRunner_State_def jobConditionTrue_def JobComplete_def JobFailedCondition_def
  ConditionTrue_def timePtr_def time_IsZero_def zero_time_def empty_status_def

lemma demo_life:
  "\<exists>s1 s2 st s3 q s4.
     JobRunner_Run mem_client mem_objects ''rg-1'' demo_spec mem_init = (None, s1) \<and>
     JobRunner_State mem_client insertionSort ''rg-1'' (jspName demo_spec) (mem_finish s1) = (Inr st, s2) \<and>
     jstPhase st = JobSucceeded \<and>
     JobRunner_Run mem_client mem_objects ''rg-1'' demo_spec s2 = (None, s3) \<and>
     JobRunner_State mem_client insertionSort ''rg-1'' (jspName demo_spec) s3 = (Inr q, s4)"
  by (simp add: demo_run_defs mem_defs buildJobObject_def Let_def demo_spec_def mem_finish_def phase_of_eq demo_poll_defs)

lemma demo_run_life:
  "\<exists>q s'. demo_runs [Dispatched demo_key None, Elsewhere, Polled demo_key (Inr JobSucceeded),
      Dispatched demo_key None, Polled demo_key (Inr q)] mem_init s'"
proof -
  let ?step = "job_step mem_client mem_objects insertionSort (\<lambda>s s'. s' = mem_finish s)"
  obtain s1 s2 st s3 q s4 where d:
    "JobRunner_Run mem_client mem_objects ''rg-1'' demo_spec mem_init = (None, s1)"
    "JobRunner_State mem_client insertionSort ''rg-1'' (jspName demo_spec) (mem_finish s1) = (Inr st, s2)"
    "jstPhase st = JobSucceeded"
    "JobRunner_Run mem_client mem_objects ''rg-1'' demo_spec s2 = (None, s3)"
    "JobRunner_State mem_client insertionSort ''rg-1'' (jspName demo_spec) s3 = (Inr q, s4)"
    using demo_life by blast
  have ns: "''rg-1'' \<noteq> ''''" by simp
  have "?step (Dispatched demo_key None) mem_init s1" "?step (Dispatched demo_key None) s2 s3"
    using job_step.run [OF ns demo_names d(1)] job_step.run [OF ns demo_names d(4)] by (simp_all add: demo_key_def)
  moreover have "?step Elsewhere s1 (mem_finish s1)" by (rule job_step.world) simp
  moreover have "?step (Polled demo_key (Inr JobSucceeded)) (mem_finish s1) s2"
    "?step (Polled demo_key (Inr (jstPhase q))) s3 s4"
    using job_step.state [OF ns d(2)] job_step.state [OF ns d(5)] d(3) by (simp_all add: demo_key_def)
  ultimately show ?thesis by (blast intro: runs.intros)
qed

subsection \<open>Properties\<close>

text \<open>
  C5: The Job runner refines the machine of phases: whatever sequence of \<open>Run\<close>, \<open>State\<close>, \<open>Delete\<close>
  and \<open>Replace\<close> calls is made, for any Jobs, interleaved with a world that moves phases as \<open>W\<close>
  allows, every call does and reports what the machine allows. A dispatch creates a pending Job or
  changes nothing, a poll that succeeds tells exactly the phase the Job has at that moment (not found
  when there is none), and only \<open>Delete\<close> and \<open>Replace\<close> make a Job disappear.
\<close>
theorem lifecycle_refinement:
  assumes "api_reads L A view typed" "world_moves W typed view env"
    and "runs (job_step (kubernetesClientImpl L) A sort_Slice env) es s s'"
  shows "runs (life_step W) es (phases typed (view s)) (phases typed (view s'))"
  by (rule api_runs_life [OF assms])

theorem lifecycle_refinement_witness:
  "\<exists>q s'. runs (life_step phase_moves) [Dispatched demo_key None, Elsewhere, Polled demo_key (Inr JobSucceeded),
      Dispatched demo_key None, Polled demo_key (Inr q)] (\<lambda>k. JobNotFound) (phases (\<lambda>j. j) (mem_view s'))"
proof -
  have "phases (\<lambda>j. j) (mem_view mem_init) = (\<lambda>k. JobNotFound)"
    by (simp add: phases_def mem_view_def mem_init_def fun_eq_iff)
  with demo_run_life lifecycle_refinement [OF mem_reads.api_reads_axioms mem_finish_moves(1)] show ?thesis
    by metis
qed

text \<open>
  C8: What two polls of one Job tell of each other, when its caller neither deletes nor replaces it in
  between. If it does not dispatch either, a Job reported finished is reported in the same phase again
  or has disappeared, and one reported missing stays missing. If Jobs do not disappear, dispatching
  again changes nothing of that: an operation once reported succeeded or failed is reported so for
  ever, so a retried dispatch never runs it twice.
\<close>
theorem poll_history:
  assumes "api_reads L A view typed"
    and "runs (job_step (kubernetesClientImpl L) A sort_Slice env)
      (es @ Polled k (Inr p) # fs @ [Polled k (Inr q)]) s s'"
    and "\<forall>e \<in> set fs. \<not> removes k e"
  shows "(world_moves phase_moves typed view env \<and> (\<forall>e \<in> set fs. \<not> dispatches k e) \<longrightarrow>
      q = p \<or> q = JobNotFound \<or> p = JobPending \<or> p = JobRunning) \<and>
    (world_moves phase_kept typed view env \<longrightarrow>
      q = p \<or> (p = JobNotFound \<or> p = JobPending \<or> p = JobRunning) \<and> q \<noteq> JobNotFound)"
proof -
  have "phase_moves p q" if "world_moves phase_moves typed view env" "\<forall>e \<in> set fs. \<not> dispatches k e"
    using life_reports [OF phase_moves_preorder api_runs_life [OF assms(1) that(1) assms(2)] assms(3)] that(2)
    by simp
  moreover have "phase_kept p q" if "world_moves phase_kept typed view env"
    using life_reports [OF phase_kept_preorder api_runs_life [OF assms(1) that assms(2)] assms(3)]
    by (simp add: phase_kept_def)
  ultimately show ?thesis unfolding phase_moves_def phase_kept_def by blast
qed

theorem poll_history_witness:
  "\<exists>s'. demo_runs [Dispatched demo_key None, Elsewhere, Polled demo_key (Inr JobSucceeded),
      Dispatched demo_key None, Polled demo_key (Inr JobSucceeded)] mem_init s'"
proof -
  obtain q s' where run: "demo_runs ([Dispatched demo_key None, Elsewhere] @ Polled demo_key (Inr JobSucceeded) #
      [Dispatched demo_key None] @ [Polled demo_key (Inr q)]) mem_init s'"
    using demo_run_life by auto
  have "q = JobSucceeded"
    using poll_history [OF mem_reads.api_reads_axioms run] mem_finish_moves(2) by simp
  with run show ?thesis by auto
qed

end
