(* ===== verification/JobIsolation.thy ===== *)
theory JobIsolation
  imports JobLifecycle
begin

text \<open>
  Callers of any kind, interleaved one API call at a time as in JobProtocol, and the phases of
  JobPhases: what the callers of other names, and the dispatches of one name among themselves, cannot
  do to a Job.
\<close>

text \<open>
  The invariant for the Job \<open>k\<close> that no caller deletes: callers of that name are dispatches, and those
  that have been told nil, or are adopting its Secret, find the Job.
\<close>

definition dispatched_only :: "('u, 'r) object_libs \<Rightarrow> string \<times> string \<Rightarrow> JobPhase \<Rightarrow> 'r thread \<Rightarrow> bool" where
  "dispatched_only A k p t \<longleftrightarrow> valid_thread A t \<and>
     (thread_key t = k \<longrightarrow> thOp t = OpRun \<and> thPc t \<noteq> AtDeleteJob \<and> thPc t \<noteq> AtDeleteSecret \<and>
        (thPc t = Returned None \<or> (\<exists>uid. thPc t = AtAdopt uid) \<longrightarrow> p \<noteq> JobNotFound))"

lemma dispatched_only_kept: "dispatched_only A k p t \<Longrightarrow> phase_kept p q \<Longrightarrow> dispatched_only A k q t"
  by (auto simp: dispatched_only_def phase_kept_def)

lemma phase_kept_trans: "phase_kept p q \<Longrightarrow> phase_kept q r \<Longrightarrow> phase_kept p r"
  using phase_kept_preorder(2) by (rule transpD)

context job_reads
begin

lemma thread_keeps:
  assumes "dispatched_only A k (ph s k) t" "thread_exec K A t s = (t', s')"
  shows "phase_kept (ph s k) (ph s' k)"
proof -
  have valid: "valid_thread A t" and own: "thPc t = AtDeleteJob \<Longrightarrow> thread_key t \<noteq> k"
    using assms(1) by (auto simp: dispatched_only_def)
  from thread_phases [OF valid assms(2)] show ?thesis
    by (elim disjE) (use own in \<open>auto simp: phase_kept_def\<close>)
qed

lemma thread_dispatched_only:
  assumes d: "dispatched_only A k (ph s k) t" and run: "running t" and exec: "thread_exec K A t s = (t', s')"
  shows "dispatched_only A k (ph s' k) t'"
proof (cases "thread_key t = k")
  case False
  with d thread_key_exec [OF exec] valid_thread_exec [OF exec] show ?thesis
    by (simp add: dispatched_only_def)
next
  case True
  have ns: "thNamespace t \<noteq> ''''" and named: "names_job A (thSpec t) (thNamespace t)"
    and op: "thOp t = OpRun" and valid: "valid_thread A t"
    and pc: "thPc t \<noteq> AtDeleteJob" "thPc t \<noteq> AtDeleteSecret"
    and adopt: "thPc t = AtAdopt uid \<Longrightarrow> ph s k \<noteq> JobNotFound" for uid
    using d True by (auto simp: dispatched_only_def valid_thread_def)
  have kept: "phase_kept (ph s k) (ph s' k)" by (rule thread_keeps [OF d exec])
  have "thPc t' \<noteq> AtDeleteJob \<and> thPc t' \<noteq> AtDeleteSecret \<and>
      (thPc t' = Returned None \<or> (\<exists>uid. thPc t' = AtAdopt uid) \<longrightarrow> ph s' k \<noteq> JobNotFound)"
  proof (cases "thPc t")
    case AtCreateSecret
    with AtCreateSecret_step(2) [OF ns AtCreateSecret exec] show ?thesis by auto
  next
    case AtCreateJob
    from ns named AtCreateJob exec show ?thesis
      by (cases rule: AtCreateJob_step) (use True in \<open>auto simp: phases_not_found domIff\<close>)
  next
    case (AtAdopt uid)
    with AtAdopt_step [OF ns AtAdopt exec] adopt kept show ?thesis by (auto simp: phase_kept_def)
  qed (use pc run in simp_all)
  with True op valid valid_thread_exec [OF exec] thread_key_exec [OF exec] thread_exec_frame(1) [OF exec] show ?thesis
    by (simp add: dispatched_only_def)
qed

lemma sys_run_keeps:
  assumes world: "world_moves phase_kept typed view env"
    and "sys_run K A env n c c'" "\<forall>t \<in> set (fst c). dispatched_only A k (ph (snd c) k) t"
  shows "phase_kept (ph (snd c) k) (ph (snd c') k) \<and> (\<forall>t \<in> set (fst c'). dispatched_only A k (ph (snd c') k) t)"
  using assms(2,3)
proof (induction rule: sys_run.induct)
  case (start c)
  then show ?case by (simp add: phase_kept_def)
next
  case (more n c c' m c'')
  have IH: "phase_kept (ph (snd c) k) (ph (snd c') k)" "\<forall>t \<in> set (fst c'). dispatched_only A k (ph (snd c') k) t"
    using more.IH more.prems by simp_all
  from more.hyps(2) show ?case
  proof (cases rule: sys_step.cases)
    case (call i ts s t' s')
    have d: "dispatched_only A k (ph s k) (ts ! i)" using IH(2) call by simp
    have kept: "phase_kept (ph s k) (ph s' k)" by (rule thread_keeps [OF d call(6)])
    have "dispatched_only A k (ph s' k) t" if "t \<in> set (ts[i := t'])" for t
    proof -
      have "t = t' \<or> t \<in> set ts" using that set_update_subset_insert by fastforce
      then show ?thesis
      proof
        assume "t \<in> set ts"
        with IH(2) call have "dispatched_only A k (ph s k) t" by simp
        then show ?thesis by (rule dispatched_only_kept [OF _ kept])
      qed (use thread_dispatched_only [OF d call(5,6)] in simp)
    qed
    with kept IH(1) call phase_kept_trans show ?thesis by auto
  next
    case (world s s' ts)
    have kept: "phase_kept (ph s k) (ph s' k)"
      using assms(1) world unfolding world_moves_def by blast
    have "phase_kept (ph (snd c) k) (ph s' k)"
      using phase_kept_trans [OF _ kept] IH(1) world by simp
    moreover have "\<forall>t \<in> set ts. dispatched_only A k (ph s' k) t"
      using IH(2) world by (auto intro: dispatched_only_kept [OF _ kept])
    ultimately show ?thesis using world by simp
  qed
qed

end

text \<open>
  C11: Any number of \<open>Run\<close>, \<open>Replace\<close> and \<open>Delete\<close> calls, interleaved one API call at a time in a world
  where Jobs do not disappear by themselves: for a name that is only dispatched, the Job never
  disappears, and once finished it stays as it is, whatever callers of other names do; and whoever was
  told nil finds the Job.
\<close>
theorem concurrent_callers_isolated:
  assumes "api_reads L A view typed" "world_moves phase_kept typed view env"
    and "\<forall>(op, ns, spec) \<in> set ops. ns \<noteq> '''' \<and> names_job A spec ns \<and> ((ns, jspName spec) = k \<longrightarrow> op = OpRun)"
    and "sys_run (kubernetesClientImpl L) A env n
      (map (\<lambda>(op, ns, spec). new_thread op ns spec) ops, s) (ts, s')"
  shows "(let p = phases typed (view s) k; q = phases typed (view s') k
      in q = p \<or> (p = JobNotFound \<or> p = JobPending \<or> p = JobRunning) \<and> q \<noteq> JobNotFound) \<and>
    (\<forall>t \<in> set ts. thread_key t = k \<and> thPc t = Returned None \<longrightarrow> phases typed (view s') k \<noteq> JobNotFound)"
proof -
  note reads = api_reads.job_reads_impl [OF assms(1)]
  have "\<forall>t \<in> set (map (\<lambda>(op, ns, spec). new_thread op ns spec) ops). dispatched_only A k (phases typed (view s) k) t"
  proof
    fix t assume "t \<in> set (map (\<lambda>(op, ns, spec). new_thread op ns spec) ops)"
    then obtain op ns spec where t: "t = new_thread op ns spec" "(op, ns, spec) \<in> set ops" by auto
    from assms(3) t(2) have "ns \<noteq> ''''" "names_job A spec ns" "(ns, jspName spec) = k \<longrightarrow> op = OpRun" by blast+
    then show "dispatched_only A k (phases typed (view s) k) t"
      by (simp add: t(1) dispatched_only_def valid_thread_def new_thread_def thread_key_def run_entry_def)
  qed
  from job_reads.sys_run_keeps [OF reads assms(2,4), of k] this
  have "phase_kept (phases typed (view s) k) (phases typed (view s') k)"
    "\<forall>t \<in> set ts. dispatched_only A k (phases typed (view s') k) t" by simp_all
  then show ?thesis unfolding phase_kept_def dispatched_only_def Let_def by blast
qed

theorem concurrent_callers_isolated_witness:
  "\<exists>ts s'. sys_run mem_client mem_objects (\<lambda>s s'. s' = mem_finish s) 5
      (map (\<lambda>(op, ns, spec). new_thread op ns spec)
         [(OpRun, ''rg-1'', demo_spec), (OpDelete, ''rg-1'', demo_spec\<lparr>jspName := ''restore-b7''\<rparr>)], mem_init) (ts, s') \<and>
     map thPc ts = [Returned None, Returned None] \<and>
     phases (\<lambda>j. j) (mem_view s') (''rg-1'', ''backup-b7'') \<noteq> JobNotFound"
proof -
  let ?init = "(map (\<lambda>(op, ns, spec). new_thread op ns spec)
      [(OpRun, ''rg-1'', demo_spec), (OpDelete, ''rg-1'', demo_spec\<lparr>jspName := ''restore-b7''\<rparr>)], mem_init)"
  obtain ts s' where r: "schedule mem_client mem_objects [1, 0, 1, 0, 0] ?init = (ts, s')" by force
  have "schedulable mem_client mem_objects [1, 0, 1, 0, 0] ?init"
    by (simp add: demo_race_defs)
  then have run: "sys_run mem_client mem_objects (\<lambda>s s'. s' = mem_finish s) 5 ?init (ts, s')"
    by (rule schedule_runs) (use r in simp_all)
  have shape: "map thPc ts = [Returned None, Returned None]"
    "map thread_key ts = [(''rg-1'', ''backup-b7''), (''rg-1'', ''restore-b7'')]"
    using r by (auto simp: demo_race_defs thread_key_def)
  then have "ts ! 0 \<in> set ts" "thread_key (ts ! 0) = (''rg-1'', ''backup-b7'')" "thPc (ts ! 0) = Returned None"
    by (cases ts; auto)+
  moreover have "names_job mem_objects (demo_spec\<lparr>jspName := ''restore-b7''\<rparr>) ''rg-1''" "jspName demo_spec = ''backup-b7''"
    by (simp_all add: names_job_def buildJob_def mem_objects_def buildJobObject_def demo_spec_def Let_def)
  moreover from calculation(4,5) have "\<forall>t \<in> set ts. thread_key t = (''rg-1'', ''backup-b7'') \<and> thPc t = Returned None \<longrightarrow>
      phases (\<lambda>j. j) (mem_view s') (''rg-1'', ''backup-b7'') \<noteq> JobNotFound"
    using concurrent_callers_isolated [OF mem_reads.api_reads_axioms mem_finish_moves(2) _ run,
        of "(''rg-1'', ''backup-b7'')"] demo_names by simp
  ultimately have "phases (\<lambda>j. j) (mem_view s') (''rg-1'', ''backup-b7'') \<noteq> JobNotFound"
    by blast
  with run shape show ?thesis by (intro exI [of _ ts] exI [of _ s'] conjI) simp_all
qed

end
