(* ===== verification/JobDeadline.thy ===== *)
theory JobDeadline
  imports JobLifecycle
begin

text \<open>
  A detached Job must not run for ever: \<open>buildJob\<close> of \<open>client/jobrunner.go\<close> always sets a deadline, and
  a TTL that keeps the finished Job for a poll. This theory adds time to the life of a Job: the locale
  \<open>job_limits_kept\<close> says that the server stores the limits it is sent, \<open>job_round\<close> what the Job
  controller documents about them, and the property that every dispatched operation is reported
  finished once its deadline has passed, and not forgotten before its TTL.
\<close>

subsection \<open>The limits of a stored Job\<close>

definition limits :: "'r Job \<Rightarrow> int64 option \<times> int32 option" where
  "limits job = (bjActiveDeadlineSeconds (jobSpec job), bjTTLSecondsAfterFinished (jobSpec job))"

lemma built_limits:
  assumes "jspCustomize spec = None"
  obtains dl ttl where "limits (buildJobObject spec ns) = (Some dl, Some ttl)"
    "sint dl \<le> (if sint (jspTimeout spec) \<le> 0 then 21600 else sint (jspTimeout spec) div 10 ^ 9 + 1)"
    "sint (jspTTL spec) < 2147483647 * 10 ^ 9 \<longrightarrow>
      (if sint (jspTTL spec) \<le> 0 then 3600 else sint (jspTTL spec) div 10 ^ 9) \<le> sint ttl"
proof -
  obtain dl where dl: "bjActiveDeadlineSeconds (jobSpec (buildJobObject spec ns)) = Some dl"
    and d: "if sint (jspTimeout spec) \<le> 0 then sint dl = 21600
       else sint (jspTimeout spec) div 10 ^ 9 \<le> sint dl \<and> sint dl \<le> sint (jspTimeout spec) div 10 ^ 9 + 1 \<and>
         (10 ^ 9 dvd sint (jspTimeout spec) \<longrightarrow> sint dl = sint (jspTimeout spec) div 10 ^ 9)"
    using job_deadline_bounded [OF assms, of ns] by blast
  obtain ttl where ttl: "bjTTLSecondsAfterFinished (jobSpec (buildJobObject spec ns)) = Some ttl"
    and t: "sint (jspTTL spec) \<le> 0 \<longrightarrow> sint ttl = 3600"
      "0 < sint (jspTTL spec) \<and> sint (jspTTL spec) < 2147483647 * 10 ^ 9 \<longrightarrow>
        sint (jspTTL spec) div 10 ^ 9 \<le> sint ttl"
    using job_ttl_bounds [OF assms, of ns] by blast
  show ?thesis
    by (rule that [of dl ttl]) (use dl ttl d t in \<open>simp_all add: limits_def split: if_splits\<close>)
qed

locale job_limits_kept = job_reads K A view typed
  for K :: "('s, 'u, 'r) KubernetesClient" and A :: "('u, 'r) object_libs" and view :: "'s \<Rightarrow> 'u cluster_view"
    and typed :: "'u \<Rightarrow> 'r Job" +
  assumes create_limits: "ns \<noteq> '''' \<Longrightarrow> ToUnstructured A job = Inr u \<Longrightarrow> kcCreate K JobAPI ns u s = (c, s') \<Longrightarrow>
      cvJobs (view s) (ns, obj_GetName A u) = None \<Longrightarrow> cvJobs (view s') (ns, obj_GetName A u) = Some u' \<Longrightarrow>
      limits (typed u') = limits job"

locale api_limits_kept = api_reads L A view typed
  for L :: "('s, 'u, 'r, 'e) client_libs" and A :: "('u, 'r) object_libs" and view :: "'s \<Rightarrow> 'u cluster_view"
    and typed :: "'u \<Rightarrow> 'r Job" +
  assumes create_limits: "ToUnstructured A job = Inr u \<Longrightarrow> dynCreate L (toGVR JobAPI) (Some ns) u s = (c, s') \<Longrightarrow>
      cvJobs (view s) (ns, obj_GetName A u) = None \<Longrightarrow> cvJobs (view s') (ns, obj_GetName A u) = Some u' \<Longrightarrow>
      limits (typed u') = limits job"

sublocale api_limits_kept \<subseteq> kept: job_limits_kept "kubernetesClientImpl L" A view typed
proof (unfold_locales, goal_cases)
  case (1 ns job u s c s' u')
  obtain c0 s0 where "dynCreate L (toGVR JobAPI) (Some ns) u s = (c0, s0)" by force
  from 1 create_limits [OF _ this] this show ?case
    by (auto simp: impl_sel impl_op_defs ns_scope_def wrap_result_def split: sum.splits)
qed

interpretation mem_limits: api_limits_kept mem_libs mem_objects mem_view "\<lambda>j. j"
  by unfold_locales (auto simp: mem_defs mem_view_def limits_def split: if_splits option.splits)

context api_limits_kept
begin

lemma limits_kept_impl: "job_limits_kept (kubernetesClientImpl L) A view typed"
  by (rule kept.job_limits_kept_axioms)

end

context job_limits_kept
begin

text \<open>The Job that \<open>Run\<close> creates: nothing has happened to it, and it has the limits of its spec.\<close>

lemma Run_new_job:
  assumes ns: "ns \<noteq> ''''" and named: "names_job A spec ns" and run: "JobRunner_Run K A ns spec s = (r, s')"
    and before: "cvJobs (view s) (ns, jspName spec) = None"
    and after: "cvJobs (view s') (ns, jspName spec) = Some u'"
  shows "jobStatus (typed u') = empty_status \<and> limits (typed u') = limits (buildJobObject spec ns)"
proof -
  from before after have "cvJobs (view s') \<noteq> cvJobs (view s)" by auto
  from Run_creates [OF ns run this] obtain u c s1 s2 where u: "buildJob A spec ns = Inr u"
    and c: "kcCreate K JobAPI ns u s1 = (c, s2)"
    and v: "cvJobs (view s1) = cvJobs (view s)" "cvJobs (view s') = cvJobs (view s2)" .
  have k: "obj_GetName A u = jspName spec" by (rule names_jobD [OF named u])
  have "ToUnstructured A (buildJobObject spec ns) = Inr u"
    using u by (auto simp: buildJob_def split: sum.splits)
  then show ?thesis
    using create_new [OF ns c] create_limits [OF ns _ c] before after v k by simp
qed

text \<open>Between two steps of the rest of the world, only a dispatch, a deletion or a replacement touches a Job.\<close>

lemma calls_keep_job:
  assumes "job_step K A sort_Slice env e s s'" "e \<noteq> Elsewhere" "\<not> removes k e"
    and "dispatches k e \<Longrightarrow> cvJobs (view s) k \<noteq> None"
  shows "cvJobs (view s') k = cvJobs (view s) k"
  using assms(1)
proof cases
  case (run ns spec r)
  with only_addsD [OF Run_effect(1) [OF run(2-4)], of k] assms(4) show ?thesis by auto
next
  case (state ns name r)
  with State_frame [OF state(3)] show ?thesis by simp
next
  case (delete ns name r)
  with only_removesD [OF Delete_effect(1) [OF delete(2,3)], of k] assms(3) show ?thesis by auto
next
  case (replace ns spec r)
  obtain r1 s1 where del: "JobRunner_Delete K ns (jspName spec) s = (r1, s1)" by force
  have k: "k \<noteq> (ns, jspName spec)" using replace(1) assms(3) by auto
  have "cvJobs (view s1) k = cvJobs (view s) k"
    using only_removesD [OF Delete_effect(1) [OF replace(2) del]] k by blast
  moreover have "cvJobs (view s') k = cvJobs (view s1) k"
  proof (cases r1)
    case None
    with replace(4) del have "JobRunner_Run K A ns spec s1 = (r, s')" by (simp add: JobRunner_Replace_def)
    from only_addsD [OF Run_effect(1) [OF replace(2,3) this]] k show ?thesis by blast
  next
    case (Some e)
    with replace(4) del show ?thesis by (simp add: JobRunner_Replace_def)
  qed
  ultimately show ?thesis by simp
next
  case world
  with assms(2) show ?thesis by simp
qed

end

subsection \<open>What the Job controller documents about the limits\<close>

text \<open>
  Time is in nanoseconds, limits in seconds. One round of the controllers on a Job, between the times
  \<open>t\<close> and \<open>t'\<close>: the start of a Job that has not been seen before is noted, the limits are kept, a
  finished Job keeps its phase and the time of its end, a Job that has run for longer than its deadline
  is marked as failed. A Job is removed only once it has finished and its TTL has passed since.
\<close>

definition settled :: "'r Job \<Rightarrow> bool" where
  "settled job \<longleftrightarrow> phase_of job = JobSucceeded \<or> phase_of job = JobFailed"

definition finished_at :: "'r Job \<Rightarrow> go_time option" where
  "finished_at job = map_option jcLastTransitionTime
     (find (\<lambda>c. (jcType c = JobComplete \<or> jcType c = JobFailedCondition) \<and> jcStatus c = ConditionTrue)
       (jsConditions (jobStatus job)))"

definition due :: "go_time option \<Rightarrow> 'w::len word option \<Rightarrow> int \<Rightarrow> bool" where
  "due since limit t \<longleftrightarrow> (case (since, limit) of (Some t0, Some n) \<Rightarrow> t0 + sint n * 10 ^ 9 \<le> t | _ \<Rightarrow> False)"

fun job_round :: "int \<Rightarrow> int \<Rightarrow> 'r Job \<Rightarrow> 'r Job option \<Rightarrow> bool" where
  "job_round t t' job None \<longleftrightarrow> settled job \<and> due (finished_at job) (snd (limits job)) t'"
| "job_round t t' job (Some job') \<longleftrightarrow>
     limits job' = limits job \<and>
     (settled job \<longrightarrow> phase_of job' = phase_of job \<and> finished_at job' = finished_at job) \<and>
     (\<not> settled job \<longrightarrow> (case jsStartTime (jobStatus job) of
        Some t0 \<Rightarrow> jsStartTime (jobStatus job') = Some t0
      | None \<Rightarrow> \<exists>t0 \<le> t'. jsStartTime (jobStatus job') = Some t0)) \<and>
     (\<not> settled job \<and> settled job' \<longrightarrow> (\<exists>f \<ge> t. finished_at job' = Some f)) \<and>
     (settled job' \<or> \<not> due (jsStartTime (jobStatus job')) (fst (limits job')) t')"

text \<open>The rest of the world, as far as it concerns the Job \<open>k\<close>: it makes no Job of this name.\<close>

definition controlled ::
  "string \<times> string \<Rightarrow> ('s \<Rightarrow> int) \<Rightarrow> ('u \<Rightarrow> 'r Job) \<Rightarrow> ('s \<Rightarrow> 'u cluster_view) \<Rightarrow> ('s \<Rightarrow> 's \<Rightarrow> bool) \<Rightarrow> bool" where
  "controlled k now typed view env \<longleftrightarrow> (\<forall>s s'. env s s' \<longrightarrow>
     (case cvJobs (view s) k of
        None \<Rightarrow> cvJobs (view s') k = None
      | Some u \<Rightarrow> job_round (now s) (now s') (typed u) (map_option typed (cvJobs (view s') k))))"

lemma controlledD:
  "controlled k now typed view env \<Longrightarrow> env s s' \<Longrightarrow>
   (case cvJobs (view s) k of
      None \<Rightarrow> cvJobs (view s') k = None
    | Some u \<Rightarrow> job_round (now s) (now s') (typed u) (map_option typed (cvJobs (view s') k)))"
  unfolding controlled_def by blast

text \<open>
  The two facts that carry the proofs, of a Job that may have been removed. \<open>on_time\<close>: a Job that is
  not settled has started by \<open>t1\<close>. \<open>kept_for\<close>: a Job that was not settled at the time \<open>t0\<close> is still
  there, and has finished since if it has finished.
\<close>

definition on_time :: "int \<Rightarrow> int64 option \<times> int32 option \<Rightarrow> 'r Job option \<Rightarrow> bool" where
  "on_time t1 l j \<longleftrightarrow> pred_option (\<lambda>job. limits job = l \<and>
     (\<not> settled job \<longrightarrow> (\<exists>t \<le> t1. jsStartTime (jobStatus job) = Some t))) j"

definition kept_for :: "int \<Rightarrow> int32 \<Rightarrow> 'r Job option \<Rightarrow> bool" where
  "kept_for t0 ttl j \<longleftrightarrow> (\<exists>job. j = Some job \<and> snd (limits job) = Some ttl \<and>
     (settled job \<longrightarrow> (\<exists>f \<ge> t0. finished_at job = Some f)))"

lemma settled_phase: "phase_of job' = phase_of job \<Longrightarrow> settled job' = settled job"
  by (simp add: settled_def)

lemma round_limits:
  "job_round t t' job j \<Longrightarrow> pred_option (\<lambda>job. limits job = l) (Some job) \<Longrightarrow> pred_option (\<lambda>job. limits job = l) j"
  by (cases j) simp_all

lemma round_settled: "job_round t t' job j \<Longrightarrow> pred_option settled (Some job) \<Longrightarrow> pred_option settled j"
  by (cases j) (auto dest: settled_phase)

lemma round_on_time:
  assumes "job_round t t' job j"
  shows "on_time t1 l (Some job) \<Longrightarrow> on_time t1 l j"
    and "on_time t1 (Some dl, ttl) (Some job) \<Longrightarrow> t1 + sint dl * 10 ^ 9 \<le> t' \<Longrightarrow> pred_option settled j"
    and "jobStatus job = empty_status \<Longrightarrow> on_time t' (limits job) j"
proof -
  show 1: "on_time t1 l j" if "on_time t1 l (Some job)" for t1 l
    using assms that by (cases j) (auto simp: on_time_def dest: settled_phase split: option.splits)
  show "pred_option settled j" if "on_time t1 (Some dl, ttl) (Some job)" "t1 + sint dl * 10 ^ 9 \<le> t'"
    using assms that(2) 1 [OF that(1)] by (cases j) (auto simp: on_time_def due_def)
  show "on_time t' (limits job) j" if "jobStatus job = empty_status"
    using assms that phase_of_new [OF that]
    by (cases j) (auto simp: on_time_def settled_def empty_status_def)
qed

lemma round_kept_for:
  assumes "job_round t t' job j" "kept_for t0 ttl (Some job)" "t0 \<le> t" "t' < t0 + sint ttl * 10 ^ 9"
  shows "kept_for t0 ttl j"
proof (cases j)
  case None
  with assms show ?thesis by (auto simp: kept_for_def due_def)
next
  case (Some job')
  have "\<exists>f \<ge> t0. finished_at job' = Some f" if "settled job'"
  proof (cases "settled job")
    case True
    with assms Some show ?thesis by (auto simp: kept_for_def)
  next
    case False
    with assms(1) Some that obtain f where "finished_at job' = Some f" "t \<le> f" by auto
    with assms(3) show ?thesis by (intro exI [of _ f]) simp
  qed
  with assms Some show ?thesis by (auto simp: kept_for_def)
qed

context job_limits_kept
begin

abbreviation job_at :: "string \<times> string \<Rightarrow> 's \<Rightarrow> 'r Job option" where
  "job_at k s \<equiv> map_option typed (cvJobs (view s) k)"

lemma round_at: "controlled k now typed view env \<Longrightarrow> env s s' \<Longrightarrow> job_at k s = Some job \<Longrightarrow>
    job_round (now s) (now s') job (job_at k s')"
  using controlledD [of k now typed view env s s'] by (auto split: option.splits)

text \<open>
  What every round keeps of the Job, and what holds of a Job that is gone, holds after any calls that
  do not remove the Job, nor dispatch it while it is gone.
\<close>

lemma runs_keep:
  assumes world: "controlled k now typed view env"
    and round: "\<And>t t' job j. job_round t t' job j \<Longrightarrow> P (Some job) \<Longrightarrow> P j"
    and "runs (job_step K A sort_Slice env) es s s'" "\<forall>e \<in> set es. \<not> removes k e \<and> \<not> dispatches k e"
  shows "P (job_at k s) \<Longrightarrow> P (job_at k s')"
  using assms(3,4)
proof (induction rule: runs.induct)
  case (go e s s1 es s2)
  have "P (job_at k s1)"
  proof (cases "e = Elsewhere")
    case True
    with go.hyps(1) have "env s s1" by (auto elim: job_step.cases)
    with world go.prems(1) round controlledD [OF world this] show ?thesis
      by (cases "cvJobs (view s) k") auto
  next
    case False
    with go calls_keep_job [OF go.hyps(1) False, of k] show ?thesis by simp
  qed
  with go show ?case by simp
qed simp

lemma runs_keep_new:
  assumes "runs (job_step K A sort_Slice env) es s s'" "\<forall>e \<in> set es. \<not> removes k e \<and> e \<noteq> Elsewhere"
    and "cvJobs (view s) k \<noteq> None"
  shows "cvJobs (view s') k = cvJobs (view s) k"
  using assms
proof (induction rule: runs.induct)
  case (go e s s1 es s2)
  then show ?case using calls_keep_job [OF go.hyps(1), of k] by simp
qed simp

lemma runs_clock:
  assumes "\<forall>e s s'. job_step K A sort_Slice env e s s' \<longrightarrow> now s \<le> now s'"
  shows "runs (job_step K A sort_Slice env) es s s' \<Longrightarrow> (now s :: int) \<le> now s'"
  by (induction rule: runs.induct) (auto dest: assms [rule_format])

lemma runs_kept_for:
  assumes world: "controlled k now typed view env"
    and clock: "\<forall>e s s'. job_step K A sort_Slice env e s s' \<longrightarrow> now s \<le> now s'"
    and "runs (job_step K A sort_Slice env) es s s'" "\<forall>e \<in> set es. \<not> removes k e"
    and "kept_for t0 ttl (job_at k s)" "t0 \<le> now s" "now s' < t0 + sint ttl * 10 ^ 9"
  shows "kept_for t0 ttl (job_at k s')"
  using assms(3-7)
proof (induction rule: runs.induct)
  case (go e s s1 es s2)
  have later: "now s \<le> now s1" by (rule clock [rule_format, OF go.hyps(1)])
  have "now s1 \<le> now s2" by (rule runs_clock [OF clock go.hyps(2)])
  with go.prems have early: "now s1 < t0 + sint ttl * 10 ^ 9" by simp
  from go.prems(2) obtain job where job: "job_at k s = Some job" by (auto simp: kept_for_def)
  have "kept_for t0 ttl (job_at k s1)"
  proof (cases "e = Elsewhere")
    case True
    with go.hyps(1) have "env s s1" by (auto elim: job_step.cases)
    from round_kept_for [OF round_at [OF world this job] _ go.prems(3) early] go.prems(2) job show ?thesis by simp
  next
    case False
    have "cvJobs (view s1) k = cvJobs (view s) k"
      using calls_keep_job [OF go.hyps(1) False, of k] go.prems(1) job by auto
    with go.prems(2) show ?thesis by simp
  qed
  with go later show ?case by simp
qed simp

end

subsection \<open>Every dispatched operation is settled\<close>

text \<open>
  From \<open>s\<close> to \<open>s'\<close>, the deadline of the Job \<open>k\<close> passes: calls until the controller makes its first round,
  then anything until a round that is at least \<open>limit\<close> seconds later, then anything. The callers do not
  remove the Job, and do not dispatch it again after the first round.
\<close>

definition deadline_passes ::
  "string \<times> string \<Rightarrow> ('s \<Rightarrow> int) \<Rightarrow> (job_event \<Rightarrow> 's \<Rightarrow> 's \<Rightarrow> bool) \<Rightarrow> int \<Rightarrow> 's \<Rightarrow> 's \<Rightarrow> bool" where
  "deadline_passes k now step limit s s' \<longleftrightarrow> (\<exists>es1 s1 s2 es2 s3 s4 es3.
     runs step es1 s s1 \<and> step Elsewhere s1 s2 \<and> runs step es2 s2 s3 \<and> step Elsewhere s3 s4 \<and> runs step es3 s4 s' \<and>
     (\<forall>e \<in> set es1. \<not> removes k e \<and> e \<noteq> Elsewhere) \<and> (\<forall>e \<in> set es2. \<not> removes k e \<and> \<not> dispatches k e) \<and>
     (\<forall>e \<in> set es3. \<not> removes k e \<and> \<not> dispatches k e) \<and> now s2 + limit * 10 ^ 9 \<le> now s4)"

lemma deadline_passesE:
  assumes "deadline_passes k now step limit s s'"
  obtains es1 s1 s2 es2 s3 s4 es3 where
    "runs step es1 s s1" "step Elsewhere s1 s2" "runs step es2 s2 s3" "step Elsewhere s3 s4" "runs step es3 s4 s'"
    "\<forall>e \<in> set es1. \<not> removes k e \<and> e \<noteq> Elsewhere" "\<forall>e \<in> set es2. \<not> removes k e \<and> \<not> dispatches k e"
    "\<forall>e \<in> set es3. \<not> removes k e \<and> \<not> dispatches k e" "now s2 + limit * 10 ^ 9 \<le> now s4"
  using assms unfolding deadline_passes_def by (elim exE conjE) (rule that)

lemma deadline_passesI:
  assumes "runs step es1 s s1" "step Elsewhere s1 s2" "runs step es2 s2 s3" "step Elsewhere s3 s4" "runs step es3 s4 s'"
    and "\<forall>e \<in> set es1. \<not> removes k e \<and> e \<noteq> Elsewhere" "\<forall>e \<in> set es2. \<not> removes k e \<and> \<not> dispatches k e"
    and "\<forall>e \<in> set es3. \<not> removes k e \<and> \<not> dispatches k e" "now s2 + limit * 10 ^ 9 \<le> now s4"
  shows "deadline_passes k now step limit s s'"
  unfolding deadline_passes_def
  by (rule exI [of _ es1], rule exI [of _ s1], rule exI [of _ s2], rule exI [of _ es2], rule exI [of _ s3],
      rule exI [of _ s4], rule exI [of _ es3], intro conjI assms)

context job_limits_kept
begin

lemma dispatch_settles:
  assumes ns: "ns \<noteq> ''''" and named: "names_job A spec ns" and k: "k = (ns, jspName spec)"
    and before: "cvJobs (view s0) k = None" and run: "JobRunner_Run K A ns spec s0 = (None, s1)"
    and built: "limits (buildJobObject spec ns) = (Some dl, ttl)" "sint dl \<le> limit"
    and world: "controlled k now typed view env"
    and passes: "deadline_passes k now (job_step K A sort_Slice env) limit s1 s2"
  shows "pred_option settled (job_at k s2)"
proof -
  from Run_effect(2) [OF ns named run] obtain u where u: "cvJobs (view s1) k = Some u" by (auto simp: k)
  with Run_new_job [OF ns named run] before have new: "jobStatus (typed u) = empty_status"
    "limits (typed u) = (Some dl, ttl)" by (simp_all add: k built)
  from passes show ?thesis
  proof (rule deadline_passesE)
    fix es1 w1 w2 es2 w3 w4 es3
    assume early: "runs (job_step K A sort_Slice env) es1 s1 w1" "\<forall>e \<in> set es1. \<not> removes k e \<and> e \<noteq> Elsewhere"
      and first: "job_step K A sort_Slice env Elsewhere w1 w2"
      and mid: "runs (job_step K A sort_Slice env) es2 w2 w3" "\<forall>e \<in> set es2. \<not> removes k e \<and> \<not> dispatches k e"
      and last: "job_step K A sort_Slice env Elsewhere w3 w4" "now w2 + limit * 10 ^ 9 \<le> now w4"
      and late: "runs (job_step K A sort_Slice env) es3 w4 s2" "\<forall>e \<in> set es3. \<not> removes k e \<and> \<not> dispatches k e"
    have env: "env w1 w2" "env w3 w4" using first last(1) by (auto elim: job_step.cases)
    have "job_at k w1 = Some (typed u)" using runs_keep_new [OF early] u by simp
    from round_on_time(3) [OF round_at [OF world env(1) this] new(1)]
    have "on_time (now w2) (Some dl, ttl) (job_at k w2)" by (simp add: new(2))
    from runs_keep [where P = "on_time (now w2) (Some dl, ttl)", OF world round_on_time(1) mid this]
    have on_time: "on_time (now w2) (Some dl, ttl) (job_at k w3)" .
    have "now w2 + sint dl * 10 ^ 9 \<le> now w4" using last(2) built(2) by simp
    then have "pred_option settled (job_at k w4)"
      using controlledD [OF world env(2)] round_on_time(2) [OF round_at [OF world env(2)]] on_time
      by (cases "cvJobs (view w3) k") auto
    from runs_keep [where P = "pred_option settled", OF world round_settled late this] show ?thesis .
  qed
qed

lemma dispatch_kept_for:
  assumes ns: "ns \<noteq> ''''" and named: "names_job A spec ns" and k: "k = (ns, jspName spec)"
    and before: "cvJobs (view s0) k = None" and run: "JobRunner_Run K A ns spec s0 = (None, s1)"
    and built: "limits (buildJobObject spec ns) = (dl, Some ttl)"
    and world: "controlled k now typed view env"
    and clock: "\<forall>e s s'. job_step K A sort_Slice env e s s' \<longrightarrow> now s \<le> now s'"
    and first: "runs (job_step K A sort_Slice env) es1 s1 s2" "\<forall>e \<in> set es1. \<not> removes k e \<and> \<not> dispatches k e"
    and seen: "ph s2 k = JobPending \<or> ph s2 k = JobRunning"
    and wait: "runs (job_step K A sort_Slice env) es2 s2 s3" "\<forall>e \<in> set es2. \<not> removes k e"
      "now s3 < now s2 + sint ttl * 10 ^ 9"
  shows "ph s3 k \<noteq> JobNotFound"
proof -
  from Run_effect(2) [OF ns named run] obtain u where u: "cvJobs (view s1) k = Some u" by (auto simp: k)
  with Run_new_job [OF ns named run] before have "limits (typed u) = (dl, Some ttl)" by (simp add: k built)
  with u have sent: "pred_option (\<lambda>job. limits job = (dl, Some ttl)) (job_at k s1)" by simp
  from runs_keep [where P = "pred_option (\<lambda>job. limits job = (dl, Some ttl))", OF world round_limits first sent] seen have "kept_for (now s2) ttl (job_at k s2)"
    by (auto simp: kept_for_def phases_def settled_def split: option.splits)
  from runs_kept_for [OF world clock wait(1,2) this _ wait(3)] show ?thesis
    by (auto simp: kept_for_def phases_not_found)
qed

end

subsection \<open>A controller in memory\<close>

text \<open>One round of it, after the time \<open>d\<close>.\<close>

definition mem_job_round :: "int \<Rightarrow> unit Job \<Rightarrow> unit Job option" where
  "mem_job_round t job =
     (if settled job
      then if due (finished_at job) (snd (limits job)) t then None else Some job
      else let start = (case jsStartTime (jobStatus job) of None \<Rightarrow> t | Some t0 \<Rightarrow> t0)
           in Some (job\<lparr>jobStatus :=
                if due (Some start) (fst (limits job)) t
                then \<lparr>jsStartTime = Some start, jsCompletionTime = None, jsActive = 0, jsConditions =
                  [\<lparr>jcType = JobFailedCondition, jcStatus = ConditionTrue, jcReason = ''DeadlineExceeded'',
                    jcMessage = '''', jcLastTransitionTime = t\<rparr>]\<rparr>
                else (jobStatus job)\<lparr>jsStartTime := Some start, jsActive := 1\<rparr>\<rparr>))"

definition mem_controller :: "int \<Rightarrow> mem \<Rightarrow> mem" where
  "mem_controller d s =
     s\<lparr>mClock := mClock s + d, mJobs := (\<lambda>k. Option.bind (mJobs s k) (mem_job_round (mClock s + d)))\<rparr>"

definition mem_world :: "mem \<Rightarrow> mem \<Rightarrow> bool" where
  "mem_world s s' \<longleftrightarrow> (\<exists>d \<ge> 0. s' = mem_controller d s)"

lemma mem_job_round_ok:
  assumes "t \<le> t'"
  shows "job_round t t' job (mem_job_round t' job)"
proof (cases "settled job")
  case True
  then show ?thesis by (auto simp: mem_job_round_def due_def split: option.splits)
next
  case False
  define start where "start = (case jsStartTime (jobStatus job) of None \<Rightarrow> t' | Some t0 \<Rightarrow> t0)"
  have start: "case jsStartTime (jobStatus job) of Some t0 \<Rightarrow> start = t0 | None \<Rightarrow> start \<le> t'"
    by (simp add: start_def split: option.splits)
  show ?thesis
  proof (cases "due (Some start) (fst (limits job)) t'")
    case True
    with False assms start show ?thesis
      by (auto simp: mem_job_round_def Let_def start_def [symmetric] limits_def finished_at_def settled_def phase_of_eq
          jobConditionTrue_def JobComplete_def JobFailedCondition_def ConditionTrue_def split: option.splits)
  next
    case nd: False
    have "\<not> settled (job\<lparr>jobStatus := (jobStatus job)\<lparr>jsStartTime := Some start, jsActive := 1\<rparr>\<rparr>)"
      using False by (auto simp: settled_def phase_of_eq jobConditionTrue_def split: if_splits)
    with False nd start show ?thesis
      by (auto simp: mem_job_round_def Let_def start_def [symmetric] limits_def split: option.splits)
  qed
qed

lemma mem_controlled: "controlled k mClock (\<lambda>j. j) mem_view mem_world"
  unfolding controlled_def
proof (intro allI impI)
  fix s s' assume "mem_world s s'"
  then obtain d where "0 \<le> d" "s' = mem_controller d s" by (auto simp: mem_world_def)
  then show "case cvJobs (mem_view s) k of None \<Rightarrow> cvJobs (mem_view s') k = None
    | Some u \<Rightarrow> job_round (mClock s) (mClock s') u (map_option (\<lambda>j. j) (cvJobs (mem_view s') k))"
    by (cases "mJobs s k") (auto simp: mem_controller_def mem_view_def option.map_ident intro: mem_job_round_ok)
qed

interpretation mem_still: quiet_reads mem_client mClock
  by unfold_locales (auto simp: mem_defs split: option.splits prod.splits)

lemma mem_patch_clock [simp]: "mClock (snd (mem_patch gvr scope name p s)) = mClock s"
  by (simp add: mem_patch_def mem_adopt_def mem_annotate_def split: option.split json.split list.split prod.split)

lemma mem_ops_clock:
  "kcCreate mem_client a ns u s = (r1, s') \<Longrightarrow> mClock s' = mClock s"
  "kcDelete mem_client rr s = (r2, s') \<Longrightarrow> mClock s' = mClock s"
  "kcCreateSecret mem_client ns sec s = (r3, s') \<Longrightarrow> mClock s' = mClock s"
  "kcDeleteSecret mem_client ns name s = (r2, s') \<Longrightarrow> mClock s' = mClock s"
  by (auto simp: mem_defs split: option.splits if_splits sum.splits prod.splits)

lemma mem_adopt_clock: "mClock (adoptSecret mem_client ns name uid s) = mClock s"
proof -
  have "dynPatch mem_libs = mem_patch" by (simp add: mem_libs_def)
  then have "mClock (snd (kcPatch mem_client rr p s)) = mClock s" for rr p
    by (simp add: impl_sel Impl_Patch_def wrap_error_def case_prod_beta split: sum.split)
  then show ?thesis by (simp add: adoptSecret_def Let_def)
qed

lemma mem_exec_clock:
  assumes "thread_exec mem_client mem_objects t s = (t', s')"
  shows "mClock s' = mClock s"
  using assms
  by (auto simp: thread_exec_unfold Let_def mem_adopt_clock
      split: pc.splits option.splits sum.splits prod.splits dest: mem_ops_clock simp del: split_paired_All)

lemma mem_method_clock: "thread_run mem_client mem_objects t s = (r, s') \<Longrightarrow> mClock s' = mClock s"
  by (erule thread_run_keeps [where P = "\<lambda>w. mClock w = mClock s"]) (auto dest: mem_exec_clock)

lemmas mem_methods_clock =
  mem_method_clock [OF trans [OF thread_run_new [THEN conjunct1]]]
  mem_method_clock [OF trans [OF thread_run_new [THEN conjunct2, THEN conjunct1]]]
  mem_method_clock [OF trans [OF thread_run_new [THEN conjunct2, THEN conjunct2]]]

lemma mem_clock:
  assumes "job_step mem_client mem_objects sort_Slice mem_world e s s'"
  shows "mClock s \<le> mClock s'"
  using assms
proof cases
  case (run ns spec r)
  with mem_methods_clock show ?thesis by simp
next
  case (state ns name r)
  with mem_still.State_quiet show ?thesis by simp
next
  case (delete ns name r)
  with mem_methods_clock(3) [of ns "demo_spec\<lparr>jspName := name\<rparr>"] show ?thesis by simp
next
  case (replace ns spec r)
  with mem_methods_clock show ?thesis by simp
next
  case world
  then show ?thesis by (auto simp: mem_world_def mem_controller_def)
qed

subsection \<open>Properties\<close>

text \<open>
  C6: A detached Job does not run for ever. A new Job that \<open>Run\<close> has dispatched, in a world whose
  controller enforces deadlines as Kubernetes documents them: once a round of the controller has been
  made at least the requested timeout after its first round (six hours when none was requested, at
  most one second more when the double rounds up), a poll that succeeds never again reports the
  operation as pending or running: it has succeeded or failed, or its Job has been collected. The
  callers neither remove the Job nor dispatch it again, but may make any other calls.
\<close>
theorem dispatched_settles:
  assumes "api_limits_kept L A view typed" "controlled (ns, jspName spec) now typed view env"
    and "ns \<noteq> ''''" "names_job A spec ns" "jspCustomize spec = None"
    and "cvJobs (view s0) (ns, jspName spec) = None"
    and "JobRunner_Run (kubernetesClientImpl L) A ns spec s0 = (None, s1)"
    and "deadline_passes (ns, jspName spec) now (job_step (kubernetesClientImpl L) A sort_Slice env)
      (if sint (jspTimeout spec) \<le> 0 then 21600 else sint (jspTimeout spec) div 10 ^ 9 + 1) s1 s2"
    and "JobRunner_State (kubernetesClientImpl L) sort_Slice ns (jspName spec) s2 = (Inr st, s3)"
  shows "jstPhase st = JobSucceeded \<or> jstPhase st = JobFailed \<or> jstPhase st = JobNotFound"
proof -
  note kept = api_limits_kept.limits_kept_impl [OF assms(1)]
  obtain dl ttl where built: "limits (buildJobObject spec ns) = (Some dl, Some ttl)"
    and dl: "sint dl \<le> (if sint (jspTimeout spec) \<le> 0 then 21600 else sint (jspTimeout spec) div 10 ^ 9 + 1)"
    using built_limits [OF assms(5), where ns = ns] by blast
  have "jstPhase st = phases typed (view s2) (ns, jspName spec)"
    using job_reads.State_life [OF job_limits_kept.axioms(1) [OF kept] assms(3,9), of phase_moves] by simp
  with job_limits_kept.dispatch_settles [OF kept assms(3,4) refl assms(6,7) built dl assms(2,8)] show ?thesis
    by (auto simp: phases_def settled_def split: option.splits)
qed

text \<open>
  C9: The end of a Job is not missed: when one poll of a new Job that \<open>Run\<close> has dispatched reports it
  as pending or running, a second poll within the requested TTL of the first (one hour when none was
  requested) does not find the Job gone. So a caller that polls at shorter intervals learns how the
  operation ended. The callers do not remove the Job, but may make any other calls in between.
\<close>
theorem end_not_missed:
  assumes "api_limits_kept L A view typed" "controlled (ns, jspName spec) now typed view env"
    and "\<forall>e w w'. job_step (kubernetesClientImpl L) A sort_Slice env e w w' \<longrightarrow> now w \<le> now w'"
    and "ns \<noteq> ''''" "names_job A spec ns" "jspCustomize spec = None" "sint (jspTTL spec) < 2147483647 * 10 ^ 9"
    and "cvJobs (view s0) (ns, jspName spec) = None"
    and "JobRunner_Run (kubernetesClientImpl L) A ns spec s0 = (None, s1)"
    and "runs (job_step (kubernetesClientImpl L) A sort_Slice env) es1 s1 s2"
    and "\<forall>e \<in> set es1. \<not> removes (ns, jspName spec) e \<and> \<not> dispatches (ns, jspName spec) e"
    and "JobRunner_State (kubernetesClientImpl L) sort_Slice ns (jspName spec) s2 = (Inr st, s3)"
    and "jstPhase st = JobPending \<or> jstPhase st = JobRunning"
    and "runs (job_step (kubernetesClientImpl L) A sort_Slice env) es2 s3 s4"
    and "\<forall>e \<in> set es2. \<not> removes (ns, jspName spec) e"
    and "now s4 < now s2 + (if sint (jspTTL spec) \<le> 0 then 3600 else sint (jspTTL spec) div 10 ^ 9) * 10 ^ 9"
    and "JobRunner_State (kubernetesClientImpl L) sort_Slice ns (jspName spec) s4 = (Inr st', s5)"
  shows "jstPhase st' \<noteq> JobNotFound"
proof -
  let ?k = "(ns, jspName spec)" and ?step = "job_step (kubernetesClientImpl L) A sort_Slice env"
  note kept = api_limits_kept.limits_kept_impl [OF assms(1)]
  note reads = job_limits_kept.axioms(1) [OF kept]
  obtain dl ttl where built: "limits (buildJobObject spec ns) = (Some dl, Some ttl)"
    and ttl: "(if sint (jspTTL spec) \<le> 0 then 3600 else sint (jspTTL spec) div 10 ^ 9) \<le> sint ttl"
    using built_limits [OF assms(6), where ns = ns] assms(7) by blast
  have poll: "jstPhase st = phases typed (view s2) ?k" "jstPhase st' = phases typed (view s4) ?k"
    using job_reads.State_life [OF reads assms(4,12), of phase_moves]
      job_reads.State_life [OF reads assms(4,17), of phase_moves] by simp_all
  have "?step (Polled ?k (Inr (jstPhase st))) s2 s3"
    using job_step.state [OF assms(4,12)] by simp
  then have wait: "runs ?step (Polled ?k (Inr (jstPhase st)) # es2) s2 s4"
    using assms(14) by (rule runs.go)
  have late: "now s4 < now s2 + sint ttl * 10 ^ 9" using assms(16) ttl by (auto split: if_splits)
  have "\<forall>e \<in> set (Polled ?k (Inr (jstPhase st)) # es2). \<not> removes ?k e" using assms(15) by simp
  from job_limits_kept.dispatch_kept_for [OF kept assms(4,5) refl assms(8,9) built assms(2,3,10,11)
      assms(13) [unfolded poll(1)] wait this late] show ?thesis by (simp add: poll(2))
qed

text \<open>Both with the controller in memory, on a Job that is kept for a day.\<close>

lemma mem_polls: "\<exists>st s'. JobRunner_State mem_client sort_Slice ns name s = (Inr st, s')"
proof (cases "mJobs s (ns, name)")
  case None
  then show ?thesis
    by (simp add: JobRunner_State_def mem_defs wrapped_sentinel_def)
next
  case (Some job)
  then have "kcGetJob mem_client ns name s = (Inr job, s)" by (simp add: mem_defs)
  from State_found [OF this] show ?thesis by auto
qed

lemma mem_world_step: "0 \<le> d \<Longrightarrow> job_step mem_client mem_objects sort_Slice mem_world Elsewhere s (mem_controller d s)"
  by (rule job_step.world) (auto simp: mem_world_def)

lemma mem_deadline_passes:
  assumes "0 \<le> limit"
  shows "deadline_passes k mClock (job_step mem_client mem_objects sort_Slice mem_world) limit s
    (mem_controller (limit * 10 ^ 9) (mem_controller 1 s))"
  by (rule deadline_passesI [where ?es1.0 = "[]" and ?es2.0 = "[]" and ?es3.0 = "[]" and ?s1.0 = s and
        ?s2.0 = "mem_controller 1 s" and ?s3.0 = "mem_controller 1 s" and
        ?s4.0 = "mem_controller (limit * 10 ^ 9) (mem_controller 1 s)"])
    (use assms in \<open>simp_all add: mem_world_step, simp add: mem_controller_def\<close>)

definition day_spec :: "unit JobSpec" where
  "day_spec = demo_spec\<lparr>jspTTL := 86400000000000\<rparr>"

lemma day_spec: "jspName day_spec = ''backup-b7''" "jspCustomize day_spec = None" "sint (jspTimeout day_spec) = 0"
  "sint (jspTTL day_spec) = 86400000000000" "names_job mem_objects day_spec ''rg-1''"
  "cvJobs (mem_view mem_init) (''rg-1'', jspName day_spec) = None"
  "fst (JobRunner_Run mem_client mem_objects ''rg-1'' day_spec mem_init) = None"
  by (simp_all add: day_spec_def demo_spec_def names_job_def buildJob_def mem_objects_def buildJobObject_def Let_def
      mem_view_def mem_init_def demo_run_defs mem_defs)

theorem dispatched_settles_witness:
  "\<exists>s1 st s3. JobRunner_Run mem_client mem_objects ''rg-1'' day_spec mem_init = (None, s1) \<and>
     JobRunner_State mem_client insertionSort ''rg-1'' ''backup-b7''
       (mem_controller (21600 * 10 ^ 9) (mem_controller 1 s1)) = (Inr st, s3) \<and>
     jstPhase st \<noteq> JobPending \<and> jstPhase st \<noteq> JobRunning"
proof -
  obtain s1 where run: "JobRunner_Run mem_client mem_objects ''rg-1'' day_spec mem_init = (None, s1)"
    using day_spec(7) by (metis prod.collapse)
  define s2 where "s2 = mem_controller (21600 * 10 ^ 9) (mem_controller 1 s1)"
  obtain st s3 where poll: "JobRunner_State mem_client insertionSort ''rg-1'' (jspName day_spec) s2 = (Inr st, s3)"
    using mem_polls by blast
  have passed: "deadline_passes (''rg-1'', jspName day_spec) mClock (job_step mem_client mem_objects insertionSort mem_world)
      (if sint (jspTimeout day_spec) \<le> 0 then 21600 else sint (jspTimeout day_spec) div 10 ^ 9 + 1) s1 s2"
    using mem_deadline_passes [of 21600 "(''rg-1'', jspName day_spec)" insertionSort s1] unfolding s2_def day_spec(3) by simp
  have "''rg-1'' \<noteq> ''''" by simp
  from dispatched_settles [OF mem_limits.api_limits_kept_axioms mem_controlled this day_spec(5,2,6) run passed poll]
  have "jstPhase st \<noteq> JobPending \<and> jstPhase st \<noteq> JobRunning" by auto
  with run poll show ?thesis unfolding day_spec(1) s2_def by blast
qed

text \<open>After its first round, the controller in memory has a new Job running.\<close>

lemma mem_first_round:
  assumes "jobStatus job = empty_status" "bjActiveDeadlineSeconds (jobSpec job) = Some dl" "0 < sint dl"
  shows "map_option phase_of (mem_job_round t job) = Some JobRunning"
  using assms phase_of_new [OF assms(1)]
  by (auto simp: mem_job_round_def settled_def due_def limits_def phase_of_eq jobConditionTrue_def empty_status_def)

theorem end_not_missed_witness:
  "\<exists>s1 st s3 st' s5. JobRunner_Run mem_client mem_objects ''rg-1'' day_spec mem_init = (None, s1) \<and>
     JobRunner_State mem_client insertionSort ''rg-1'' ''backup-b7'' (mem_controller 1 s1) = (Inr st, s3) \<and>
     JobRunner_State mem_client insertionSort ''rg-1'' ''backup-b7'' (mem_controller (21600 * 10 ^ 9) s3) = (Inr st', s5) \<and>
     jstPhase st = JobRunning \<and> jstPhase st' \<noteq> JobNotFound"
proof -
  let ?step = "job_step mem_client mem_objects insertionSort mem_world" and ?k = "(''rg-1'', jspName day_spec)"
  have ns: "''rg-1'' \<noteq> ''''" by simp
  obtain s1 where run: "JobRunner_Run mem_client mem_objects ''rg-1'' day_spec mem_init = (None, s1)"
    using day_spec(7) by (metis prod.collapse)
  define s2 where "s2 = mem_controller 1 s1"
  obtain st s3 where poll: "JobRunner_State mem_client insertionSort ''rg-1'' (jspName day_spec) s2 = (Inr st, s3)"
    using mem_polls by blast
  define s4 where "s4 = mem_controller (21600 * 10 ^ 9) s3"
  obtain st' s5 where poll': "JobRunner_State mem_client insertionSort ''rg-1'' (jspName day_spec) s4 = (Inr st', s5)"
    using mem_polls by blast
  obtain job where job: "mJobs s1 ?k = Some job"
    using job_store.Run_effect(2) [OF mem.job_store_impl ns day_spec(5) run] by (auto simp: mem_view_def)
  have new: "jobStatus job = empty_status" "limits job = limits (buildJobObject day_spec ''rg-1'')"
    using mem_limits.kept.Run_new_job [OF ns day_spec(5) run day_spec(6), of job] job by (simp_all add: mem_view_def)
  have "mJobs s2 ?k = mem_job_round (mClock s1 + 1) job" using job by (simp add: s2_def mem_controller_def)
  moreover obtain dl where "bjActiveDeadlineSeconds (jobSpec job) = Some dl" "0 < sint dl"
    using job_deadline_bounded [OF day_spec(2), of "''rg-1''"] new(2) day_spec(3) by (auto simp: limits_def)
  ultimately have "map_option phase_of (mJobs s2 ?k) = Some JobRunning" using mem_first_round [OF new(1)] by simp
  then have st: "jstPhase st = JobRunning"
    using job_reads.State_life [OF mem_reads.job_reads_impl ns poll, of phase_moves] by (auto simp: phases_def mem_view_def)
  have clock: "mClock s1 = 0" "mClock s2 = 1" "mClock s3 = 1" "mClock s4 = 21600 * 10 ^ 9 + 1"
    using mem_methods_clock(1) [OF run] mem_still.State_quiet [OF poll]
    by (simp_all add: s2_def s4_def mem_controller_def mem_init_def)
  have runs: "runs ?step [Elsewhere] s1 s2" "runs ?step [Elsewhere] s3 s4"
    by (simp_all add: s2_def s4_def runs_Cons mem_world_step)
  have "jstPhase st' \<noteq> JobNotFound"
    by (rule end_not_missed [OF mem_limits.api_limits_kept_axioms mem_controlled _ ns day_spec(5,2) _ day_spec(6) run
        runs(1) _ poll _ runs(2) _ _ poll'])
       (use st mem_clock in \<open>simp_all add: clock day_spec\<close>)
  with run poll poll' st show ?thesis unfolding day_spec(1) s2_def s4_def by blast
qed

end
