(* ===== verification/ServiceObjects.thy ===== *)
theory ServiceObjects
  imports Base
begin

text \<open>
  The helpers of \<open>provider/base.go\<close> that work on the objects of a service (Deployments and the
  like): finding them by label and keeping a replica count in an annotation while a service is
  paused. \<open>object_server\<close> states what the API documents of selectors, of JSON patches that add an
  annotation, and of reads; \<open>object_store\<close> states it of a \<open>KubernetesClient\<close>.
\<close>

subsection \<open>The contract of objects\<close>

text \<open>
  \<open>annots\<close> reads the annotations of an object from the state. An \<open>add\<close> that is accepted sets the
  member its pointer names (RFC 6902, section 4.1); the parent must exist.
\<close>

definition add_annotation :: "string \<Rightarrow> string \<Rightarrow> K8sPatch" where
  "add_annotation path v = \<lparr>kpOp = ''add'', kpPath = path, kpValue = Some (PVJson (JStr v))\<rparr>"

definition annotation_path :: "string \<Rightarrow> string list" where
  "annotation_path key = [''metadata'', ''annotations'', key]"

definition plain_key :: "string \<Rightarrow> bool" where
  "plain_key k \<longleftrightarrow> (\<forall>c \<in> set k. plain_label [c] \<or> c = CHR ''/'')"

definition plain_requirements :: "(string \<times> string) list \<Rightarrow> bool" where
  "plain_requirements rs \<longleftrightarrow> rs \<noteq> [] \<and> (\<forall>(k, v) \<in> set rs. plain_key k \<and> plain_label v)"

locale object_store =
  fixes K :: "('s, 'u, 'r) KubernetesClient" and A :: "('u, 'r) object_libs"
    and annots :: "'s \<Rightarrow> ResourceRef \<Rightarrow> (string \<Rightarrow> string option) option"
  assumes get_annotations: "kcGet K ref s = (Inr u, s') \<Longrightarrow>
      annots s ref = Some (map_of (obj_GetAnnotations A u)) \<and> annots s' = annots s"
    and patch_annotation: "pointer_tokens path = annotation_path key \<Longrightarrow>
      kcPatch K ref [add_annotation path v] s = (None, s') \<Longrightarrow>
      \<exists>m. annots s ref = Some m \<and> annots s' = (annots s)(ref \<mapsto> m(key \<mapsto> v))"
    and list_selected: "plain_requirements rs \<Longrightarrow>
      kcList K \<lparr>loAPIResource = api, loNamespace = ns, loLabelSelector = selector_text rs, loFieldSelector = f\<rparr> s = (Inr us, s'') \<Longrightarrow>
      u \<in> set us \<Longrightarrow> \<exists>ls. obj_GetLabels A u = Some ls \<and> has_labels rs (map_of ls)"

locale object_server =
  fixes L :: "('s, 'u, 'r, 'e) client_libs" and A :: "('u, 'r) object_libs"
    and annots :: "'s \<Rightarrow> ResourceRef \<Rightarrow> (string \<Rightarrow> string option) option"
  assumes get_annotations:
      "dynGet L (toGVR (rrAPIResource ref)) (ns_scope (rrNamespace ref)) (rrName ref) s = (Inr u, s') \<Longrightarrow>
      annots s ref = Some (map_of (obj_GetAnnotations A u)) \<and> annots s' = annots s"
    and patch_annotation: "pointer_tokens path = annotation_path key \<Longrightarrow>
      dynPatch L (toGVR (rrAPIResource ref)) (ns_scope (rrNamespace ref)) (rrName ref)
        (JArr [JObj [(''op'', JStr ''add''), (''path'', JStr path), (''value'', JStr v)]]) s = (None, s') \<Longrightarrow>
      \<exists>m. annots s ref = Some m \<and> annots s' = (annots s)(ref \<mapsto> m(key \<mapsto> v))"
    and list_selected: "plain_requirements rs \<Longrightarrow>
      dynList L gvr scope (selector_text rs) f s = (Inr us, s'') \<Longrightarrow>
      u \<in> set us \<Longrightarrow> \<exists>ls. obj_GetLabels A u = Some ls \<and> has_labels rs (map_of ls)"

sublocale object_server \<subseteq> objects: object_store "kubernetesClientImpl L" A annots
proof (unfold_locales, goal_cases)
  case (1 ref s u s')
  then show ?case using get_annotations by (simp add: impl_sel impl_op_defs wrap_iffs)
next
  case (2 path key ref v s s')
  then show ?case using patch_annotation [OF 2(1)]
    by (simp add: impl_sel Impl_Patch_def add_annotation_def K8sPatch_json_def wrap_iffs)
next
  case (3 rs api ns f s us s'' u)
  then show ?case using list_selected [OF 3(1)] by (simp add: impl_sel impl_op_defs wrap_iffs)
qed

context object_server
begin

lemma object_store_impl: "object_store (kubernetesClientImpl L) A annots"
  by (rule objects.object_store_axioms)

end

definition mem_annots :: "mem \<Rightarrow> ResourceRef \<Rightarrow> (string \<Rightarrow> string option) option" where
  "mem_annots s ref =
     (if toGVR (rrAPIResource ref) = toGVR JobAPI \<and> rrNamespace ref \<noteq> ''''
      then map_option (\<lambda>j. map_of (jobLabels j)) (mJobs s (rrNamespace ref, rrName ref)) else None)"

lemma toGVR_inj [simp]: "toGVR a = toGVR b \<longleftrightarrow> a = b"
  by (auto simp: toGVR_def intro: APIResource.equality)

lemma plain_label_separators: "plain_label v \<Longrightarrow> {CHR '','', CHR ''=''} \<inter> set v = {}"
  by (fastforce simp: plain_label_def less_eq_char_def)

lemma plain_key_separators: "plain_key k \<Longrightarrow> {CHR '','', CHR ''=''} \<inter> set k = {}"
  by (fastforce simp: plain_key_def plain_label_def less_eq_char_def)

lemma plain_requirements_separators:
  "plain_requirements rs \<Longrightarrow> \<forall>(k, v) \<in> set rs. {CHR '','', CHR ''=''} \<inter> (set k \<union> set v) = {}"
  using plain_label_separators plain_key_separators by (fastforce simp: plain_requirements_def)

lemma mem_annots_annotate:
  assumes "mem_annotate (rrNamespace ref, rrName ref)
      (JArr [JObj [(''op'', JStr ''add''), (''path'', JStr path), (''value'', JStr v)]]) s = (None, s')"
    and "pointer_tokens path = annotation_path key" "rrAPIResource ref = JobAPI" "rrNamespace ref \<noteq> ''''"
  shows "\<exists>m. mem_annots s ref = Some m \<and> mem_annots s' ref = Some (m(key \<mapsto> v)) \<and>
    (\<forall>ref'. ref' \<noteq> ref \<longrightarrow> mem_annots s' ref' = mem_annots s ref')"
  using assms
  by (auto simp: mem_annotate_def annotation_path_def mem_annots_def update_conv intro: ResourceRef.equality
      split: option.splits)

interpretation mem_objs: object_server mem_libs mem_objects mem_annots
proof (unfold_locales, goal_cases)
  case (1 ref s u s')
  then show ?case by (auto simp: mem_defs mem_annots_def split: if_splits option.splits)
next
  case (2 path key ref v s s')
  from 2(2) have "mem_annotate (rrNamespace ref, rrName ref)
      (JArr [JObj [(''op'', JStr ''add''), (''path'', JStr path), (''value'', JStr v)]]) s = (None, s')"
    and "rrAPIResource ref = JobAPI" "rrNamespace ref \<noteq> ''''"
    by (auto simp: mem_defs split: if_splits option.splits prod.splits)
  from mem_annots_annotate [OF this(1) 2(1) this(2,3)] show ?case by (auto simp: fun_eq_iff)
next
  case (3 rs gvr scope f s us s'' u)
  then show ?case
    using reads_selector_text [OF _ plain_requirements_separators [OF 3(1)]]
    by (auto simp: mem_defs plain_requirements_def)
qed

subsection \<open>Finding a service\<close>

text \<open>The keys the library writes into selectors.\<close>

lemma label_keys_plain: "plain_key ProviderLabel" "plain_key ServiceIDLabel"
  by (simp_all add: plain_key_def plain_label_def ProviderLabel_def ServiceIDLabel_def LabelPrefix_def less_eq_char_def)

text \<open>
  An ID that is no label value is not refused, and can add requirements of its own: the selector of
  the ID \<open>a,x=b\<close> asks for the service \<open>a\<close> with the label \<open>x\<close>. \<open>added_requirements\<close> writes them.
\<close>

definition added_requirements :: "(string \<times> string) list \<Rightarrow> string" where
  "added_requirements rs = concat (map (\<lambda>(k, v). '','' @ k @ ''='' @ v) rs)"

definition service_requirements :: "string \<Rightarrow> string \<Rightarrow> (string \<times> string) list \<Rightarrow> (string \<times> string) list" where
  "service_requirements providerType a extra = (ProviderLabel, providerType) # (ServiceIDLabel, a) # extra"

lemma service_selector_eq:
  "service_selector providerType (a @ added_requirements extra) =
     selector_text (service_requirements providerType a extra)"
  by (simp add: service_selector_def selector_text_def added_requirements_def service_requirements_def)

lemma service_requirements_plain:
  "plain_label providerType \<Longrightarrow> plain_label a \<Longrightarrow> \<forall>(k, v) \<in> set extra. plain_key k \<and> plain_label v \<Longrightarrow>
   plain_requirements (service_requirements providerType a extra)"
  using label_keys_plain by (simp add: plain_requirements_def service_requirements_def)

context object_store
begin

lemma FindServiceNamespace_found:
  assumes "plain_requirements (service_requirements providerType a extra)"
    and "FindServiceNamespace (NewBase K) A api providerType (a @ added_requirements extra) s = (Inr ns, s')"
  shows "\<exists>u ls. obj_GetNamespace A u = ns \<and> obj_GetLabels A u = Some ls \<and>
    has_labels (service_requirements providerType a extra) (map_of ls)"
proof -
  let ?rs = "service_requirements providerType a extra"
  obtain u us where l: "kcList K \<lparr>loAPIResource = api, loNamespace = '''', loLabelSelector = selector_text ?rs,
      loFieldSelector = ''''\<rparr> s = (Inr (u # us), s')" and ns: "obj_GetNamespace A u = ns"
    using assms(2) by (auto simp: FindServiceNamespace_def NewBase_def service_selector_eq
        split: sum.splits prod.splits list.splits)
  from list_selected [OF assms(1) l] ns show ?thesis by fastforce
qed

lemma service_ids_mem:
  "i \<in> set (service_ids A us) \<Longrightarrow> \<exists>u \<in> set us. \<exists>ls. obj_GetLabels A u = Some ls \<and> map_of ls ServiceIDLabel = Some i"
  by (induction us) (auto split: option.splits)

lemma ListByLabel_selected:
  assumes "plain_requirements rs" "ListByLabel (NewBase K) A api (selector_text rs) s = (Inr ids, s')" "i \<in> set ids"
  shows "\<exists>u ls. obj_GetLabels A u = Some ls \<and> map_of ls ServiceIDLabel = Some i \<and> has_labels rs (map_of ls)"
proof -
  obtain us where l: "kcList K \<lparr>loAPIResource = api, loNamespace = '''', loLabelSelector = selector_text rs,
      loFieldSelector = ''''\<rparr> s = (Inr us, s')" and ids: "ids = service_ids A us"
    using assms(2) by (auto simp: ListByLabel_def NewBase_def split: sum.splits prod.splits)
  from service_ids_mem [of i us] assms(3) ids list_selected [OF assms(1) l] show ?thesis by fastforce
qed

subsection \<open>Replicas kept over a pause\<close>

lemma StoredReplicas_read:
  assumes "StoredReplicas (NewBase K) A ref key s = (Inr m, s')"
  shows "\<exists>old. annots s ref = Some old \<and> annots s' = annots s \<and>
    m = (case old key of None \<Rightarrow> 1 | Some t \<Rightarrow> case strconv_Atoi t of None \<Rightarrow> 1 | Some i \<Rightarrow> i)"
proof -
  obtain u where g: "kcGet K ref s = (Inr u, s')"
    and m: "m = ReplicasFromAnnotation (obj_GetAnnotations A u) key"
    using assms by (auto simp: StoredReplicas_def NewBase_def split: sum.splits prod.splits)
  show ?thesis using get_annotations [OF g] m
    by (auto simp: ReplicasFromAnnotation_def DefaultPausedReplicas_def split: option.splits)
qed

lemma pause_patch_effect:
  assumes "kcPatch K ref [add_annotation (''/metadata/annotations/'' @ EscapeJSONPointer key) v] s = (None, s')"
  shows "\<exists>old. annots s ref = Some old \<and> annots s' = (annots s)(ref \<mapsto> old(key \<mapsto> v))"
proof -
  have "pointer_tokens (''/metadata/annotations'' @ ''/'' @ EscapeJSONPointer key) = annotation_path key"
    unfolding EscapeJSONPointer_appended
    by (simp add: annotation_path_def pointer_tokens_def)
  then show ?thesis using patch_annotation [OF _ assms] by simp
qed

end

subsection \<open>Properties\<close>

text \<open>
  C32: A service is looked up by its labels. For an ID made of the characters of label values, the
  namespace returned is that of an object which carries the label of the provider and the label of
  that service. An ID with other characters is not refused: one that continues with requirements
  \<open>,k=v\<close> after the ID of a service \<open>a\<close> gives the namespace of an object of the service \<open>a\<close>, not of that
  ID, that has these labels too. For every ID, a service is reported as not found exactly when the
  cluster-wide listing worked and was empty, and every other failure is an infrastructure error.
\<close>
theorem FindServiceNamespace_exact:
  assumes "object_server L A annots"
    and "FindServiceNamespace (NewBase (kubernetesClientImpl L)) A api providerType sid s = (r, s')"
  shows "(\<forall>ns a extra. r = Inr ns \<and> sid = a @ added_requirements extra \<and>
        plain_label providerType \<and> plain_label a \<and> (\<forall>(k, v) \<in> set extra. plain_key k \<and> plain_label v) \<longrightarrow>
      (\<exists>u ls. obj_GetNamespace A u = ns \<and> obj_GetLabels A u = Some ls \<and>
         map_of ls ProviderLabel = Some providerType \<and> map_of ls ServiceIDLabel = Some a \<and>
         (\<forall>(k, v) \<in> set extra. map_of ls k = Some v) \<and> (a = sid \<longleftrightarrow> extra = []))) \<and>
    (\<forall>e. r = Inl e \<longrightarrow>
      (errors_Is e ErrServiceNotFound \<longleftrightarrow>
         fst (dynList L (toGVR api) None (service_selector providerType sid) '''' s) = Inr []) \<and>
      (\<not> errors_Is e ErrServiceNotFound \<longrightarrow> infra_error e))"
proof (intro conjI allI impI)
  fix ns a extra
  assume a: "r = Inr ns \<and> sid = a @ added_requirements extra \<and>
        plain_label providerType \<and> plain_label a \<and> (\<forall>(k, v) \<in> set extra. plain_key k \<and> plain_label v)"
  then have plain: "plain_requirements (service_requirements providerType a extra)"
    by (intro service_requirements_plain) blast+
  have find: "FindServiceNamespace (NewBase (kubernetesClientImpl L)) A api providerType
      (a @ added_requirements extra) s = (Inr ns, s')"
    using a assms(2) by blast
  have "added_requirements extra = '''' \<longleftrightarrow> extra = []"
    by (cases extra) (auto simp: added_requirements_def)
  then have "a = sid \<longleftrightarrow> extra = []" using a by auto
  with object_store.FindServiceNamespace_found [OF object_server.object_store_impl [OF assms(1)] plain find]
  show "\<exists>u ls. obj_GetNamespace A u = ns \<and> obj_GetLabels A u = Some ls \<and>
         map_of ls ProviderLabel = Some providerType \<and> map_of ls ServiceIDLabel = Some a \<and>
         (\<forall>(k, v) \<in> set extra. map_of ls k = Some v) \<and> (a = sid \<longleftrightarrow> extra = [])"
    by (fastforce simp: has_labels_def service_requirements_def)
next
  fix e assume "r = Inl e"
  with assms(2) have "fst (FindServiceNamespace (NewBase (kubernetesClientImpl L)) A api providerType sid s) = Inl e"
    by simp
  note not_found = FindServiceNamespace_not_found [OF this]
  show "errors_Is e ErrServiceNotFound \<longleftrightarrow>
      fst (dynList L (toGVR api) None (service_selector providerType sid) '''' s) = Inr []"
    and "\<not> errors_Is e ErrServiceNotFound \<Longrightarrow> infra_error e"
    using not_found by simp_all
qed

definition demo_services :: mem where
  "demo_services = mem_init\<lparr>mObjects :=
     [(buildJobObject demo_spec ''rg-1'')\<lparr>jobLabels := [(ProviderLabel, ''pg''), (ServiceIDLabel, ''ms-1'')]\<rparr>,
      (buildJobObject demo_spec ''rg-2'')\<lparr>jobLabels :=
        [(ProviderLabel, ''pg''), (ServiceIDLabel, ''ms-2''), (''tier'', ''b'')]\<rparr>]\<rparr>"

lemma demo_services_find:
  assumes "plain_requirements (service_requirements ''pg'' ''ms-2'' extra)" "set extra \<subseteq> {(''tier'', ''b'')}"
  shows "FindServiceNamespace (NewBase mem_client) mem_objects JobAPI ''pg'' (''ms-2'' @ added_requirements extra)
    demo_services = (Inr ''rg-2'', demo_services)"
proof -
  have sel: "reads_selector (service_selector ''pg'' (''ms-2'' @ added_requirements extra)) ls \<longleftrightarrow>
      has_labels (service_requirements ''pg'' ''ms-2'' extra) ls" for ls
    unfolding service_selector_eq
    by (rule reads_selector_text [OF _ plain_requirements_separators [OF assms(1)]]) (simp add: service_requirements_def)
  have one: "\<not> has_labels (service_requirements ''pg'' ''ms-2'' extra) [ProviderLabel \<mapsto> ''pg'', ServiceIDLabel \<mapsto> ''ms-1'']"
    by (simp add: has_labels_def service_requirements_def)
  have two: "has_labels (service_requirements ''pg'' ''ms-2'' extra)
      [''tier'' \<mapsto> ''b'', ServiceIDLabel \<mapsto> ''ms-2'', ProviderLabel \<mapsto> ''pg'']"
    using assms(2) labels_distinct
    by (auto simp: has_labels_def service_requirements_def ProviderLabel_def ServiceIDLabel_def LabelPrefix_def)
  have maps: "map_of [(ProviderLabel, ''pg''), (ServiceIDLabel, ''ms-1'')] =
      [ProviderLabel \<mapsto> ''pg'', ServiceIDLabel \<mapsto> ''ms-1'']"
    "map_of [(ProviderLabel, ''pg''), (ServiceIDLabel, ''ms-2''), (''tier'', ''b'')] =
      [''tier'' \<mapsto> ''b'', ServiceIDLabel \<mapsto> ''ms-2'', ProviderLabel \<mapsto> ''pg'']"
    using labels_distinct by (simp_all add: fun_eq_iff)
  show ?thesis
    by (simp add: FindServiceNamespace_def NewBase_def mem_defs demo_services_def buildJobObject_def Let_def
        demo_spec_def maps one two sel [simplified] del: map_of.simps)
qed

text \<open>The namespace of the service \<open>ms-2\<close>, found under its own ID and under another one.\<close>

theorem FindServiceNamespace_exact_witness:
  "(\<exists>u ls. FindServiceNamespace (NewBase mem_client) mem_objects JobAPI ''pg'' ''ms-2'' demo_services =
       (Inr ''rg-2'', demo_services) \<and>
     obj_GetNamespace mem_objects u = ''rg-2'' \<and> obj_GetLabels mem_objects u = Some ls \<and>
     map_of ls ServiceIDLabel = Some ''ms-2'') \<and>
   (\<exists>u ls. FindServiceNamespace (NewBase mem_client) mem_objects JobAPI ''pg'' ''ms-2,tier=b'' demo_services =
       (Inr ''rg-2'', demo_services) \<and>
     obj_GetNamespace mem_objects u = ''rg-2'' \<and> obj_GetLabels mem_objects u = Some ls \<and>
     map_of ls ServiceIDLabel = Some ''ms-2'')"
proof -
  have plain: "plain_label ''pg''" "plain_label ''ms-2''" "plain_key ''tier''" "plain_label ''b''"
    by (simp_all add: plain_label_def plain_key_def less_eq_char_def)
  let ?goal = "\<lambda>sid. \<exists>u ls. FindServiceNamespace (NewBase mem_client) mem_objects JobAPI ''pg'' sid demo_services =
       (Inr ''rg-2'', demo_services) \<and>
     obj_GetNamespace mem_objects u = ''rg-2'' \<and> obj_GetLabels mem_objects u = Some ls \<and>
     map_of ls ServiceIDLabel = Some ''ms-2''"
  have goal: "?goal (''ms-2'' @ added_requirements extra)" if "set extra \<subseteq> {(''tier'', ''b'')}" for extra
  proof -
    from that plain have extra: "\<forall>(k, v) \<in> set extra. plain_key k \<and> plain_label v" by auto
    note find = demo_services_find [OF service_requirements_plain [OF plain(1,2) extra] that]
    from FindServiceNamespace_exact [OF mem_objs.object_server_axioms find] plain(1,2) extra find
    show ?thesis by blast
  qed
  from goal [of "[]"] goal [of "[(''tier'', ''b'')]"] show ?thesis by (simp add: added_requirements_def)
qed

text \<open>
  C33: Pausing and resuming a service. When the patch that adds the replica count under an escaped key
  is accepted, that annotation and nothing else of any object has changed, and as long as the
  annotations of the object stay as they are, \<open>StoredReplicas\<close> gives exactly the count back, for any
  64-bit integer and any key, whatever slashes and tildes it has (keys are UTF-8, as JSON is). Without the annotation, or with one that is no integer, it
  gives one replica.
\<close>
theorem pause_resume_roundtrip:
  assumes "object_server L A annots" "in_int64 n"
    and "kcPatch (kubernetesClientImpl L) ref
      [add_annotation (''/metadata/annotations/'' @ EscapeJSONPointer key) (fmt_d n)] s = (None, s1)"
    and "StoredReplicas (NewBase (kubernetesClientImpl L)) A ref key t = (Inr m, t')"
  shows "(\<exists>old. annots s ref = Some old \<and> annots s1 = (annots s)(ref \<mapsto> old(key \<mapsto> fmt_d n))) \<and>
    (annots t ref = annots s1 ref \<longrightarrow> m = n) \<and> annots t' = annots t \<and>
    (\<forall>now. annots t ref = Some now \<and> (\<forall>v. now key = Some v \<longrightarrow> strconv_Atoi v = None) \<longrightarrow> m = 1)"
proof -
  note store = object_server.object_store_impl [OF assms(1)]
  obtain old where old: "annots s ref = Some old" "annots s1 = (annots s)(ref \<mapsto> old(key \<mapsto> fmt_d n))"
    using object_store.pause_patch_effect [OF store assms(3)] by blast
  obtain now where now: "annots t ref = Some now" "annots t' = annots t"
    "m = (case now key of None \<Rightarrow> 1 | Some v \<Rightarrow> case strconv_Atoi v of None \<Rightarrow> 1 | Some i \<Rightarrow> i)"
    using object_store.StoredReplicas_read [OF store assms(4)] by blast
  show ?thesis using old now Atoi_fmt_d [OF assms(2)] by (auto split: option.splits)
qed

theorem pause_resume_roundtrip_witness:
  "\<exists>s s1. kcPatch mem_client \<lparr>rrAPIResource = JobAPI, rrName = ''db'', rrNamespace = ''rg-1''\<rparr>
      [add_annotation (''/metadata/annotations/'' @ EscapeJSONPointer ''a~b/c'') (fmt_d 3)] s = (None, s1) \<and>
     StoredReplicas (NewBase mem_client) mem_objects \<lparr>rrAPIResource = JobAPI, rrName = ''db'', rrNamespace = ''rg-1''\<rparr>
       ''a~b/c'' s1 = (Inr 3, s1)"
proof -
  let ?ref = "\<lparr>rrAPIResource = JobAPI, rrName = ''db'', rrNamespace = ''rg-1''\<rparr>"
  define s where "s = mem_init\<lparr>mJobs := [(''rg-1'', ''db'') \<mapsto> (buildJobObject demo_spec ''rg-1'')\<lparr>jobLabels := [(''x'', ''y'')]\<rparr>]\<rparr>"
  define s1 where "s1 = snd (kcPatch mem_client ?ref
      [add_annotation (''/metadata/annotations/'' @ EscapeJSONPointer ''a~b/c'') (fmt_d 3)] s)"
  have p: "kcPatch mem_client ?ref
      [add_annotation (''/metadata/annotations/'' @ EscapeJSONPointer ''a~b/c'') (fmt_d 3)] s = (None, s1)"
    unfolding s1_def by (simp add: s_def mem_defs mem_annotate_def add_annotation_def K8sPatch_json_def
        pointer_tokens_def mem_init_def)
  obtain m where r: "StoredReplicas (NewBase mem_client) mem_objects ?ref ''a~b/c'' s1 = (Inr m, s1)"
    unfolding s1_def by (simp add: s_def mem_defs mem_annotate_def add_annotation_def K8sPatch_json_def
        pointer_tokens_def mem_init_def StoredReplicas_def NewBase_def)
  have "m = 3"
    using pause_resume_roundtrip [OF mem_objs.object_server_axioms _ p r] by (simp add: in_int64_def)
  with p r show ?thesis by blast
qed

end
