(* ===== verification/Serve.thy ===== *)
theory Serve
  imports Server
begin

text \<open>
  A request from the router to the provider and back: the middleware chain of \<open>api/server.go\<close> around
  the handler that gin finds in the route table, or around \<open>middleware.NotFound\<close>. The chain runs on
  the gin context together with the state of the providers, so that what a request does to the
  providers can be stated of the whole server. gin itself is a parameter: \<open>'c gin\<close> as before, \<open>c.Status\<close>, and
  the search in the route table; \<open>gin_engine\<close> states what is used of its documentation. Redirects
  that gin sends by itself for a trailing slash happen before any of this and are not included.
\<close>

subsection \<open>The engine\<close>

record ('c, 's) engine =
  enGin :: "'c gin"
  enStatus :: "nat \<Rightarrow> 'c \<Rightarrow> 'c"
  enBody :: "'c \<Rightarrow> string"
  enFind :: "'s route_table \<Rightarrow> 'c \<Rightarrow> ('s http_handler \<times> http_request) option"

text \<open>The calls of a context, on a context with a state beside it that they do not touch.\<close>

definition lift_gin :: "'c gin \<Rightarrow> ('c \<times> 's) gin" where
  "lift_gin G =
     \<lparr>gMethod = gMethod G \<circ> fst, gPath = gPath G \<circ> fst, gRawQuery = gRawQuery G \<circ> fst,
      gGetHeader = gGetHeader G \<circ> fst, gClientIP = gClientIP G \<circ> fst,
      gWriterStatus = gWriterStatus G \<circ> fst, gErrors = gErrors G \<circ> fst,
      gErrors_String = gErrors_String G, gNow = gNow G \<circ> fst,
      gHeader = (\<lambda>k v. apfst (gHeader G k v)), gJSON = (\<lambda>st j. apfst (gJSON G st j)),
      gAbort = apfst (gAbort G), gAbortWithStatus = (\<lambda>st. apfst (gAbortWithStatus G st)),
      gAbortWithStatusJSON = (\<lambda>st j. apfst (gAbortWithStatusJSON G st j))\<rparr>"

fun send :: "('c, 's) engine \<Rightarrow> reply \<Rightarrow> 'c \<Rightarrow> 'c" where
  "send E (ReplyJSON st j) c = gJSON (enGin E) st j c"
| "send E (ReplyStatus st) c = enStatus E st c"

definition route_request :: "('c, 's) engine \<Rightarrow> 's route_table \<Rightarrow> ('c \<times> 's) chain" where
  "route_request E table st =
     (case enFind E table (fst (fst st)) of
        None \<Rightarrow> NotFound (lift_gin (enGin E)) st
      | Some (h, rq) \<Rightarrow> (case h rq (snd (fst st)) of (rep, log, s) \<Rightarrow>
          (None, ((send E rep (fst (fst st)), s), snd st @ log))))"

definition serve ::
  "('c, 's) engine \<Rightarrow> (('c \<times> 's) chain \<Rightarrow> ('c \<times> 's) chain) \<Rightarrow> Config \<Rightarrow>
   (string, 's route_table) go_map \<Rightarrow> ('c \<times> 's) chain" where
  "serve E otelgin cfg providerRoutes =
     (case Server_Handler (snd (NewServer (lift_gin (enGin E)) otelgin cfg providerRoutes)) of
        (chain, table) \<Rightarrow> chain (route_request E table))"

lemma serve_eq:
  "serve E otelgin cfg routes =
   server_chain (lift_gin (enGin E)) otelgin cfg (route_request E (setupRoutes routes))"
  by (simp add: serve_def Server_Handler_def NewServer_def)

lemma lift_gin_sel [simp]:
  "gMethod (lift_gin G) p = gMethod G (fst p)" "gPath (lift_gin G) p = gPath G (fst p)"
  "gGetHeader (lift_gin G) p = gGetHeader G (fst p)" "gWriterStatus (lift_gin G) p = gWriterStatus G (fst p)"
  "gHeader (lift_gin G) k v p = (gHeader G k v (fst p), snd p)"
  "gJSON (lift_gin G) st j p = (gJSON G st j (fst p), snd p)"
  "gAbort (lift_gin G) p = (gAbort G (fst p), snd p)"
  "gAbortWithStatus (lift_gin G) st p = (gAbortWithStatus G st (fst p), snd p)"
  "gAbortWithStatusJSON (lift_gin G) st j p = (gAbortWithStatusJSON G st j (fst p), snd p)"
  by (simp_all add: lift_gin_def apfst_def map_prod_def split_beta)

lemma set_headers_lift [simp]: "set_headers (lift_gin G) hs (c, s) = (set_headers G hs c, s)"
  by (induction hs arbitrary: c) auto

lemma presented_key_lift [simp]: "presented_key (lift_gin G) p = presented_key G (fst p)"
  by (simp add: presented_key_def Let_def)

text \<open>The value of the parameter \<open>id\<close>: the segment of the path where the pattern has it.\<close>

fun param_id :: "string list \<Rightarrow> string list \<Rightarrow> string" where
  "param_id (p # ps) (s # ss) = (if p = '':id'' then s else param_id ps ss)"
| "param_id _ _ = ''''"

locale gin_engine = gin_context "enGin E" resp
  for E :: "('c, 's) engine" and resp :: "'c \<Rightarrow> string \<Rightarrow> string option" +
  assumes find_sound: "enFind E table c = Some (h, rq) \<Longrightarrow>
      \<exists>pat. (pat, h) \<in> set table \<and> route_matches pat (gMethod (enGin E) c, gPath (enGin E) c) \<and>
        rqParamID rq = param_id (split_slash (snd pat)) (split_slash (gPath (enGin E) c)) \<and>
        rqBody rq = enBody E c"
    and find_complete: "enFind E table c = None \<Longrightarrow> (pat, h) \<in> set table \<Longrightarrow>
      \<not> route_matches pat (gMethod (enGin E) c, gPath (enGin E) c)"
    and find_header: "enFind E table (gHeader (enGin E) k v c) = enFind E table c"

lemma lift_gin_context: "gin_context G resp \<Longrightarrow> gin_context (lift_gin G) (\<lambda>p. resp (fst p))"
  by (simp add: gin_context_def)

text \<open>A middleware that does nothing to the providers unless the rest of the chain does.\<close>

abbreviation provider_state :: "('c \<times> 's) \<times> log_record list \<Rightarrow> 's" where
  "provider_state st \<equiv> snd (fst st)"

locale state_middleware = middleware G resp M
  for G :: "('c \<times> 's) gin" and resp :: "'c \<times> 's \<Rightarrow> string \<Rightarrow> string option"
    and M :: "('c \<times> 's) chain \<Rightarrow> ('c \<times> 's) chain" +
  assumes keeps_state: "(\<And>st'. provider_state (snd (k st')) = provider_state st') \<Longrightarrow>
    provider_state (snd (M k st)) = provider_state st"

context gin_context
begin

lemmas lifted = lift_gin_context [OF gin_context_axioms]

lemma provider_middlewares:
  "state_middleware (lift_gin G) (\<lambda>p. resp (fst p)) (Logger (lift_gin G))"
  "state_middleware (lift_gin G) (\<lambda>p. resp (fst p)) (SecurityHeaders (lift_gin G))"
  "state_middleware (lift_gin G) (\<lambda>p. resp (fst p)) (CORS (lift_gin G))"
  "state_middleware (lift_gin G) (\<lambda>p. resp (fst p)) (Auth (lift_gin G) key)"
  "state_middleware (lift_gin G) (\<lambda>p. resp (fst p)) (ErrorHandler (lift_gin G))"
proof -
  note [intro!] = state_middleware.intro state_middleware_axioms.intro
  note ms = gin_context.middlewares [OF lifted]
  have fst_eq: "(fst p, snd p) = p" for p :: "'c \<times> 's" by simp
  show "state_middleware (lift_gin G) (\<lambda>p. resp (fst p)) (SecurityHeaders (lift_gin G))"
    by (rule, rule ms) (auto simp: SecurityHeaders_def)
  show "state_middleware (lift_gin G) (\<lambda>p. resp (fst p)) (CORS (lift_gin G))"
    by (rule, rule ms) (auto simp: CORS_def Let_def)
  show "state_middleware (lift_gin G) (\<lambda>p. resp (fst p)) (Auth (lift_gin G) key)"
    by (rule, rule ms) (auto simp: Auth_def)
  show "state_middleware (lift_gin G) (\<lambda>p. resp (fst p)) (Logger (lift_gin G))"
    by (rule, rule ms) (auto simp: Logger_def Let_def split_beta split: option.split)
  show "state_middleware (lift_gin G) (\<lambda>p. resp (fst p)) (ErrorHandler (lift_gin G))"
    by (rule, rule ms) (auto simp: ErrorHandler_def split_beta split: option.split)
qed

end

subsection \<open>The routes of a whole server\<close>

definition provider_patterns :: "(string \<times> string) list" where
  "provider_patterns =
     [(''GET'', ''''), (''POST'', ''''), (''PATCH'', ''/:id''), (''DELETE'', ''/:id''),
      (''PUT'', ''/backups/:id''), (''POST'', ''/backups/:id/status''), (''DELETE'', ''/backups/:id''),
      (''POST'', ''/:id/maintenance'')]"

lemma provider_table_patterns: "map fst (provider_table encP encC encD B P b m) = provider_patterns"
  by (simp add: table_defs provider_patterns_def)

text \<open>
  Providers mounted under different names without slashes, each with some of the routes the library
  registers.
\<close>

definition plain_name :: "string \<Rightarrow> bool" where
  "plain_name n \<longleftrightarrow> n \<noteq> '''' \<and> CHR ''/'' \<notin> set n \<and> \<not> strings_HasPrefix n '':''"

definition well_mounted :: "(string, 's route_table) go_map \<Rightarrow> bool" where
  "well_mounted routes \<longleftrightarrow> distinct (map fst routes) \<and>
     (\<forall>(n, t) \<in> set routes. plain_name n \<and> distinct (map fst t) \<and> set (map fst t) \<subseteq> set provider_patterns)"

lemma well_mountedD:
  "well_mounted routes \<Longrightarrow> (n, t) \<in> set routes \<Longrightarrow> plain_name n"
  "well_mounted routes \<Longrightarrow> (n, t) \<in> set routes \<Longrightarrow> distinct (map fst t)"
  "well_mounted routes \<Longrightarrow> (n, t) \<in> set routes \<Longrightarrow> (pat, h) \<in> set t \<Longrightarrow> pat \<in> set provider_patterns"
  "well_mounted routes \<Longrightarrow> (n, t) \<in> set routes \<Longrightarrow> (n, t') \<in> set routes \<Longrightarrow> t' = t"
  unfolding well_mounted_def by (force, force, force, metis eq_key_imp_eq_value)

text \<open>The segments of a pattern below its group.\<close>

definition below :: "string \<Rightarrow> string list" where
  "below p = (if p = '''' then [] else tl (split_slash p))"

lemma below_patterns:
  "p \<in> snd ` set provider_patterns \<Longrightarrow> p = '''' \<or> hd p = CHR ''/'' \<and> split_slash p = '''' # below p"
  by (auto simp: provider_patterns_def below_def)

lemma split_group:
  assumes "plain_name n" "p \<in> snd ` set provider_patterns"
  shows "split_slash (''/api/'' @ apiVersion @ ''/'' @ n @ p) = [[], ''api'', ''v1'', n] @ below p"
proof -
  have n: "split_slash n = [n]" using assms(1) by (simp add: plain_name_def split_slash_plain)
  have "split_slash (n @ p) = n # below p"
  proof (cases p)
    case Nil
    then show ?thesis by (simp add: below_def n)
  next
    case (Cons c q)
    with below_patterns [OF assms(2)] show ?thesis
      using split_slash_append [of n q] by (simp add: below_def n)
  qed
  then show ?thesis by (simp add: apiVersion_def)
qed

text \<open>No request matches two of the patterns a provider may have.\<close>

lemma provider_patterns_distinct:
  "distinct (map (\<lambda>pat. (fst pat, length (below (snd pat)))) provider_patterns)"
  by (simp add: provider_patterns_def below_def)

lemma provider_patterns_unique:
  assumes "pat \<in> set provider_patterns" "pat' \<in> set provider_patterns" "fst pat = fst pat'"
    and "segments_match (below (snd pat)) ss" "segments_match (below (snd pat')) ss"
  shows "pat = pat'"
proof (rule inj_onD)
  show "inj_on (\<lambda>pat. (fst pat, length (below (snd pat)))) (set provider_patterns)"
    using provider_patterns_distinct by (simp only: distinct_map)
  show "(fst pat, length (below (snd pat))) = (fst pat', length (below (snd pat')))"
    using assms(3-5) by (simp add: segments_match_length)
qed (use assms in simp_all)

lemma segments_match_Cons:
  "segments_match (p # ps) ss \<longleftrightarrow>
     (\<exists>s ss'. ss = s # ss' \<and> (strings_HasPrefix p '':'' \<and> s \<noteq> '''' \<or> p = s) \<and> segments_match ps ss')"
  by (cases ss) auto

lemma segments_match_Nil: "segments_match [] ss \<longleftrightarrow> ss = []"
  by (cases ss) auto

lemma setupRoutes_cases:
  assumes "(pat, h) \<in> set (setupRoutes routes)"
  obtains (base) "pat \<in> {(''GET'', ''/health''), (''GET'', ''/ready''), (''GET'', ''/api/v1/'')}"
      "h = (if snd pat = ''/health'' then healthHandler else if snd pat = ''/ready'' then readyHandler else rootHandler)"
    | (group) n t m p where "(n, t) \<in> set routes" "((m, p), h) \<in> set t"
      "pat = (m, ''/api/'' @ apiVersion @ ''/'' @ n @ p)"
  using assms by (auto simp: setupRoutes_def group_routes_def apiVersion_def Let_def)

lemma group_matches:
  assumes "well_mounted routes" "(n, t) \<in> set routes" "((m, p), h) \<in> set t"
    and "route_matches (m, ''/api/'' @ apiVersion @ ''/'' @ n @ p) rq"
  obtains ss where "split_slash (snd rq) = [[], ''api'', ''v1'', n] @ ss" "segments_match (below p) ss" "m = fst rq"
    "n \<noteq> ''''"
proof -
  note n = well_mountedD(1) [OF assms(1,2)] and p = well_mountedD(3) [OF assms(1-3)]
  from p have "p \<in> snd ` set provider_patterns" by force
  from split_group [OF n this] assms(4) n have "\<exists>ss. split_slash (snd rq) = [[], ''api'', ''v1'', n] @ ss \<and>
      segments_match (below p) ss \<and> m = fst rq \<and> n \<noteq> ''''"
    by (auto simp: route_matches_def segments_match_Cons plain_name_def strings_HasPrefix_def)
  with that show ?thesis by blast
qed

lemma base_matches:
  "pat \<in> {(''GET'', ''/health''), (''GET'', ''/ready''), (''GET'', ''/api/v1/'')} \<Longrightarrow> route_matches pat rq \<Longrightarrow>
   split_slash (snd rq) =
     (if snd pat = ''/health'' then ['''', ''health''] else if snd pat = ''/ready'' then ['''', ''ready'']
      else ['''', ''api'', ''v1'', ''''])"
  by (auto simp: route_matches_def segments_match_Cons segments_match_Nil strings_HasPrefix_def)

lemma setupRoutes_unique:
  assumes wm: "well_mounted routes"
    and "(pat, h) \<in> set (setupRoutes routes)" "route_matches pat rq"
    and "(pat', h') \<in> set (setupRoutes routes)" "route_matches pat' rq"
  shows "pat = pat' \<and> h = h'"
  using assms(2)
proof (cases rule: setupRoutes_cases)
  case b: base
  note rq = base_matches [OF b(1) assms(3)]
  show ?thesis using assms(4)
  proof (cases rule: setupRoutes_cases)
    case base
    with b rq base_matches [OF base(1) assms(5)] show ?thesis by (auto split: if_splits)
  next
    case (group n t m p)
    with group_matches [OF wm group(1,2), of rq] assms(5) rq show ?thesis by (auto split: if_splits)
  qed
next
  case g: (group n t m p)
  from group_matches [OF wm g(1,2), of rq] assms(3) g(3) obtain ss where
    ss: "split_slash (snd rq) = [[], ''api'', ''v1'', n] @ ss" "segments_match (below p) ss" "m = fst rq" "n \<noteq> ''''"
    by blast
  show ?thesis using assms(4)
  proof (cases rule: setupRoutes_cases)
    case base
    from base_matches [OF base(1) assms(5)] ss show ?thesis by (auto split: if_splits)
  next
    case (group n' t' m' p')
    from group_matches [OF wm group(1,2), of rq] assms(5) group(3) obtain ss' where
      ss': "split_slash (snd rq) = [[], ''api'', ''v1'', n'] @ ss'" "segments_match (below p') ss'" "m' = fst rq"
      by blast
    have "n' = n" "ss' = ss" using ss(1) ss'(1) by simp_all
    moreover from this have t: "t' = t" using well_mountedD(4) [OF wm g(1)] group(1) by blast
    moreover have "(m, p) = (m', p')"
      using well_mountedD(3) [OF wm] g(1,2) group(1,2) ss ss' \<open>ss' = ss\<close>
      by (intro provider_patterns_unique [of _ _ ss]) simp_all
    moreover note well_mountedD(2) [OF wm g(1)]
    ultimately show ?thesis using g group eq_key_imp_eq_value [of t "(m, p)" h h'] by simp
  qed
qed

subsection \<open>What a request does\<close>

context gin_context
begin

lemma server_chain_keeps:
  assumes "state_middleware (lift_gin G) (\<lambda>p. resp (fst p)) otelgin"
    and "\<And>st. provider_state (snd (h st)) = provider_state st"
  shows "provider_state (snd (server_chain (lift_gin G) otelgin cfg h st)) = provider_state st"
  unfolding server_chain_def
  by (intro state_middleware.keeps_state [OF assms(1)]
      provider_middlewares [THEN state_middleware.keeps_state])
    (auto intro: provider_middlewares(4) [THEN state_middleware.keeps_state] assms(2))

end

text \<open>What the chain does with a request it lets through.\<close>

definition admitted :: "'c gin \<Rightarrow> Config \<Rightarrow> 'c \<Rightarrow> bool" where
  "admitted G cfg c \<longleftrightarrow> gMethod G c \<noteq> ''OPTIONS'' \<and>
     (cfgAPIKey cfg = '''' \<or> gPath G c \<in> {''/health'', ''/ready''} \<or> presented_key G c = cfgAPIKey cfg)"

lemma set_headers_append: "set_headers G (hs @ hs') c = set_headers G hs' (set_headers G hs c)"
  by (induction hs arbitrary: c) auto

context gin_context
begin

text \<open>
  What an admitted request does in the middleware between \<open>Logger\<close> and the routes: it runs the routes
  with all response headers set, and returns or panics as they do.
\<close>

lemma admitted_reaches:
  assumes "admitted G cfg c"
  shows "SecurityHeaders G (CORS G (if cfgAPIKey cfg \<noteq> '''' then Auth G (cfgAPIKey cfg) h else h)) (c, log) =
    h (set_headers G (security_headers @ cors_headers) c, log)"
proof -
  have same: "same_request G resp c (set_headers G (security_headers @ cors_headers) c)"
    by (rule same_request_set_headers)
  then show ?thesis
    using assms presented_key_same [OF same]
    by (auto simp: SecurityHeaders_def CORS_def Let_def Auth_def ConstantTimeCompare_eq same_request_def admitted_def
        simp flip: set_headers_append)
qed

lemma panicking_chain:
  assumes "admitted G cfg c"
    and "h (set_headers G (security_headers @ cors_headers) c, log) = (Some panic, (c', log'))"
  shows "server_chain G (\<lambda>k. k) cfg h (c, log) =
    (None, (gAbort G (gJSON G StatusInternalServerError (error_body ''internal server error'') c'),
       log' @ [\<lparr>lrLevel = LevelError, lrMessage = ''panic recovered'',
         lrAttrs = [(''panic'', LogString panic), (''path'', LogString (gPath G c')),
           (''method'', LogString (gMethod G c'))]\<rparr>]))"
  using assms(2)
  by (simp add: server_chain_def ErrorHandler_def Logger_def Let_def admitted_reaches [OF assms(1)])

lemma admitted_chain:
  assumes "admitted G cfg c" and h: "h (set_headers G (security_headers @ cors_headers) c, log) = (None, (c', log'))"
  shows "\<exists>attrs. server_chain G (\<lambda>k. k) cfg h (c, log) = (None, (c', log' @ [\<lparr>lrLevel = status_level (gWriterStatus G c'),
    lrMessage = ''HTTP request'', lrAttrs = attrs\<rparr>]))"
proof -
  have same: "same_request G resp c (set_headers G (security_headers @ cors_headers) c)"
    by (rule same_request_set_headers)
  then have "CORS G (if cfgAPIKey cfg \<noteq> '''' then Auth G (cfgAPIKey cfg) h else h)
      (set_headers G security_headers c, log) = (None, (c', log'))"
    using assms presented_key_same [OF same]
    by (auto simp: CORS_def Let_def Auth_def ConstantTimeCompare_eq same_request_def admitted_def
        simp flip: set_headers_append)
  then show ?thesis
    by (simp add: server_chain_def ErrorHandler_def SecurityHeaders_def Logger_def Let_def)
qed

lemma refused_chain:
  assumes "cfgAPIKey cfg \<noteq> ''''" "gMethod G c \<noteq> ''OPTIONS''" "\<not> admitted G cfg c"
  shows "\<exists>attrs. server_chain G (\<lambda>k. k) cfg h (c, log) =
    (let c' = gAbortWithStatusJSON G StatusUnauthorized (error_body ''unauthorized'')
        (set_headers G (security_headers @ cors_headers) c)
     in (None, (c', log @ [\<lparr>lrLevel = status_level (gWriterStatus G c'),
       lrMessage = ''HTTP request'', lrAttrs = attrs\<rparr>])))"
proof -
  have same: "same_request G resp c (set_headers G (security_headers @ cors_headers) c)"
    by (rule same_request_set_headers)
  then have "CORS G (Auth G (cfgAPIKey cfg) h) (set_headers G security_headers c, log) =
      (None, (gAbortWithStatusJSON G StatusUnauthorized (error_body ''unauthorized'')
        (set_headers G (security_headers @ cors_headers) c), log))"
    using assms presented_key_same [OF same]
    by (auto simp: CORS_def Let_def Auth_def ConstantTimeCompare_eq same_request_def admitted_def
        simp flip: set_headers_append)
  with assms(1) show ?thesis
    by (simp add: server_chain_def ErrorHandler_def SecurityHeaders_def Logger_def Let_def)
qed

end

subsection \<open>A server in memory\<close>

text \<open>
  The demonstration context with the query and the body of the request; the router takes the first
  pattern of the table that matches.
\<close>

definition demo_engine :: "(demo_context \<times> string list \<times> string, 's) engine" where
  "demo_engine =
     \<lparr>enGin = lift_gin demo_gin, enStatus = (\<lambda>st. apfst (\<lambda>d. d\<lparr>dcStatus := st\<rparr>)),
      enBody = snd \<circ> snd,
      enFind = (\<lambda>table c. map_option
        (\<lambda>(pat, h). (h, \<lparr>rqIDs = fst (snd c),
           rqParamID = param_id (split_slash (snd pat)) (split_slash (dcPath (fst c))), rqBody = snd (snd c)\<rparr>))
        (find (\<lambda>(pat, h). route_matches pat (dcMethod (fst c), dcPath (fst c))) table))\<rparr>"

lemma demo_gin_sel [simp]:
  "gMethod demo_gin = dcMethod" "gPath demo_gin = dcPath"
  "gHeader demo_gin k v c = c\<lparr>dcHeaders := (dcHeaders c)(k \<mapsto> v)\<rparr>"
  "gGetHeader demo_gin c name = (case map_of (dcRequestHeaders c) name of None \<Rightarrow> '''' | Some v \<Rightarrow> v)"
  by (simp_all add: demo_gin_def)

interpretation demo_http: gin_engine demo_engine "\<lambda>c. dcHeaders (fst c)"
proof (unfold_locales, goal_cases)
  case (5 table c h rq)
  then obtain pat where "find (\<lambda>(pat, h). route_matches pat (dcMethod (fst c), dcPath (fst c))) table = Some (pat, h)"
    "rqParamID rq = param_id (split_slash (snd pat)) (split_slash (dcPath (fst c)))" "rqBody rq = snd (snd c)"
    by (auto simp: demo_engine_def)
  then show ?case by (intro exI [of _ pat]) (auto simp: demo_engine_def find_Some_iff in_set_conv_nth)
next
  case (6 table c pat h)
  then show ?case by (cases pat) (auto simp: demo_engine_def find_None_iff)
qed (simp_all add: demo_engine_def fun_eq_iff)

interpretation demo_recovery: state_middleware "lift_gin demo_gin"
    "\<lambda>p. dcHeaders (fst p)" "ErrorHandler (lift_gin demo_gin)"
  by (rule demo.provider_middlewares)

subsection \<open>What the server promises\<close>

lemma gin_engine_context: "gin_engine E resp \<Longrightarrow> gin_context (enGin E) resp"
  by (simp add: gin_engine_def)

lemma gin_engine_lifted: "gin_engine E resp \<Longrightarrow> gin_context (lift_gin (enGin E)) (\<lambda>p. resp (fst p))"
  by (simp add: gin_engine_context lift_gin_context)

lemma admitted_lift [simp]: "admitted (lift_gin G) cfg p = admitted G cfg (fst p)"
  by (simp add: admitted_def)

definition plain_demo_routes :: "(string, string list route_table) go_map" where
  "plain_demo_routes = [(''pg'', provider_table (\<lambda>_. JNull) (\<lambda>_. JNull) (\<lambda>_. JNull) demo_binders demo_provider
     demo_backups \<lparr>mtApplyMaintenance = \<lambda>sid s. (None, s)\<rparr>)]"

definition demo_request :: "string \<Rightarrow> string \<Rightarrow> string \<Rightarrow> string \<Rightarrow> demo_context \<times> string list \<times> string" where
  "demo_request key meth path body =
     ((demo_call [(''X-API-Key'', key)])\<lparr>dcMethod := meth, dcPath := path\<rparr>, [], body)"

lemmas demo_serve_defs = demo_request_def demo_call_def demo_cfg_def demo_engine_def presented_key_def

text \<open>
  C35: No panic leaves the server: whatever the routes do, for every request the whole chain returns.
  An admitted request runs the routes once, with all eight response headers set. If they panic, the
  client gets the 500 with the fixed document and the context is aborted, without the text of the
  panic; that goes, with the path and the method, into one error record, which is the only record
  the middleware adds: the request log has no record of such a request. If they return, the request
  log has exactly one record, whose level tells the status.
\<close>
theorem panics_contained:
  assumes "gin_context (G :: 'c gin) resp" "admitted G cfg c"
  shows "(\<forall>h st. fst (server_chain G (\<lambda>k. k) cfg h st) = None) \<and>
    set (map fst (security_headers @ cors_headers)) \<subseteq> dom (resp (set_headers G (security_headers @ cors_headers) c)) \<and>
    (\<forall>h log. case h (set_headers G (security_headers @ cors_headers) c, log) of
        (Some panic, (c', log')) \<Rightarrow>
          server_chain G (\<lambda>k. k) cfg h (c, log) =
            (None, (gAbort G (gJSON G StatusInternalServerError (error_body ''internal server error'') c'),
               log' @ [\<lparr>lrLevel = LevelError, lrMessage = ''panic recovered'',
                 lrAttrs = [(''panic'', LogString panic), (''path'', LogString (gPath G c')),
                   (''method'', LogString (gMethod G c'))]\<rparr>]))
      | (None, (c', log')) \<Rightarrow>
          (\<exists>attrs. server_chain G (\<lambda>k. k) cfg h (c, log) =
            (None, (c', log' @ [\<lparr>lrLevel = status_level (gWriterStatus G c'), lrMessage = ''HTTP request'',
               lrAttrs = attrs\<rparr>]))))"
proof (intro conjI allI)
  show "fst (server_chain G (\<lambda>k. k) cfg h st) = None" for h st
    by (simp add: server_chain_def ErrorHandler_def split: prod.split option.split)
  show "set (map fst (security_headers @ cors_headers)) \<subseteq> dom (resp (set_headers G (security_headers @ cors_headers) c))"
    unfolding gin_context.resp_set_headers [OF assms(1)] by (auto simp: dom_map_of_conv_image_fst)
  fix h :: "'c chain" and log :: "log_record list"
  obtain r c' log' where h: "h (set_headers G (security_headers @ cors_headers) c, log) = (r, (c', log'))"
    by (metis surj_pair)
  show "case h (set_headers G (security_headers @ cors_headers) c, log) of
        (Some panic, (c', log')) \<Rightarrow>
          server_chain G (\<lambda>k. k) cfg h (c, log) =
            (None, (gAbort G (gJSON G StatusInternalServerError (error_body ''internal server error'') c'),
               log' @ [\<lparr>lrLevel = LevelError, lrMessage = ''panic recovered'',
                 lrAttrs = [(''panic'', LogString panic), (''path'', LogString (gPath G c')),
                   (''method'', LogString (gMethod G c'))]\<rparr>]))
      | (None, (c', log')) \<Rightarrow>
          (\<exists>attrs. server_chain G (\<lambda>k. k) cfg h (c, log) =
            (None, (c', log' @ [\<lparr>lrLevel = status_level (gWriterStatus G c'), lrMessage = ''HTTP request'',
               lrAttrs = attrs\<rparr>])))"
  proof (cases r)
    case None
    with gin_context.admitted_chain [OF assms, of h log c' log'] h show ?thesis by simp
  next
    case (Some panic)
    with gin_context.panicking_chain [OF assms, of h log panic c' log'] h show ?thesis by simp
  qed
qed

theorem panics_contained_witness:
  "\<exists>c'. server_chain demo_gin (\<lambda>k. k) demo_cfg (\<lambda>st. (Some ''boom'', st)) (demo_call [(''X-API-Key'', ''k3y'')], []) =
     (None, (c', [\<lparr>lrLevel = LevelError, lrMessage = ''panic recovered'',
       lrAttrs = [(''panic'', LogString ''boom''), (''path'', LogString ''/api/v1/pg''),
         (''method'', LogString ''GET'')]\<rparr>])) \<and> dcStatus c' = 500 \<and> dcAborted c'"
proof -
  let ?c = "demo_call [(''X-API-Key'', ''k3y'')]"
  let ?c' = "set_headers demo_gin (security_headers @ cors_headers) ?c"
  have adm: "admitted demo_gin demo_cfg ?c"
    by (simp add: admitted_def demo_gin_def demo_serve_defs)
  have req: "dcPath ?c' = ''/api/v1/pg''" "dcMethod ?c' = ''GET''"
    by (simp_all add: demo_gin_def security_headers_def cors_headers_def Let_def demo_call_def)
  note panics_contained [OF demo.gin_context_axioms adm, THEN conjunct2, THEN conjunct2, rule_format,
      of "\<lambda>st. (Some ''boom'', st)" "[]"]
  then have "server_chain demo_gin (\<lambda>k. k) demo_cfg (\<lambda>st. (Some ''boom'', st)) (?c, []) =
      (None, (gAbort demo_gin (gJSON demo_gin StatusInternalServerError (error_body ''internal server error'') ?c'),
        [\<lparr>lrLevel = LevelError, lrMessage = ''panic recovered'',
          lrAttrs = [(''panic'', LogString ''boom''), (''path'', LogString ''/api/v1/pg''),
            (''method'', LogString ''GET'')]\<rparr>]))"
    by (simp add: req)
  moreover have "dcStatus (gAbort demo_gin (gJSON demo_gin StatusInternalServerError d ?c')) = 500 \<and>
      dcAborted (gAbort demo_gin (gJSON demo_gin StatusInternalServerError d ?c'))" for d
    by (simp add: demo_gin_def security_headers_def cors_headers_def Let_def demo_call_def)
  ultimately show ?thesis by blast
qed

text \<open>
  C21: With an API key configured, a request that does not present it (health paths aside), and a
  CORS preflight in any case, leaves every provider as it is, and gets an answer that does not
  depend on the providers or their routes; a missing key is answered with 401.
\<close>
theorem unauthenticated_request:
  assumes "gin_engine E resp" "state_middleware (lift_gin (enGin E)) (\<lambda>p. resp (fst p)) otelgin"
    and "gMethod (enGin E) c = ''OPTIONS'' \<or> cfgAPIKey cfg \<noteq> '''' \<and>
      gPath (enGin E) c \<noteq> ''/health'' \<and> gPath (enGin E) c \<noteq> ''/ready'' \<and>
      presented_key (enGin E) c \<noteq> cfgAPIKey cfg"
  shows "provider_state (snd (serve E otelgin cfg routes ((c, s), log))) = s \<and>
    serve E otelgin cfg routes ((c, s), log) = serve E otelgin cfg routes' ((c, s), log) \<and>
    (gMethod (enGin E) c \<noteq> ''OPTIONS'' \<longrightarrow>
      fst (fst (snd (serve E (\<lambda>k. k) cfg routes ((c, s), log)))) =
      gAbortWithStatusJSON (enGin E) StatusUnauthorized (error_body ''unauthorized'')
        (set_headers (enGin E) (security_headers @ cors_headers) c))"
proof (intro conjI impI)
  let ?G = "lift_gin (enGin E)"
  note gin = gin_engine_lifted [OF assms(1)]
  have same: "server_chain ?G otelgin cfg h ((c, s), log) = server_chain ?G otelgin cfg h' ((c, s), log)" for h h'
    by (rule unauthenticated_chain [OF gin state_middleware.axioms(1) [OF assms(2)]]) (use assms(3) in simp)
  have "provider_state (snd (server_chain ?G otelgin cfg (\<lambda>st. (None, st)) ((c, s), log))) = s"
    by (simp add: gin_context.server_chain_keeps [OF gin_engine_context [OF assms(1)] assms(2)])
  then show "provider_state (snd (serve E otelgin cfg routes ((c, s), log))) = s"
    unfolding serve_eq by (simp only: same [of "route_request E (setupRoutes routes)" "\<lambda>st. (None, st)"])
  show "serve E otelgin cfg routes ((c, s), log) = serve E otelgin cfg routes' ((c, s), log)"
    unfolding serve_eq by (rule same)
  assume "gMethod (enGin E) c \<noteq> ''OPTIONS''"
  with assms(3) have "cfgAPIKey cfg \<noteq> ''''" "\<not> admitted ?G cfg (c, s)" "gMethod ?G (c, s) \<noteq> ''OPTIONS''"
    by (simp_all add: admitted_def)
  from gin_context.refused_chain [OF gin this(1,3,2)] obtain attrs where
    "serve E (\<lambda>k. k) cfg routes ((c, s), log) =
      (let c' = gAbortWithStatusJSON ?G StatusUnauthorized (error_body ''unauthorized'')
          (set_headers ?G (security_headers @ cors_headers) (c, s))
       in (None, (c', log @ [\<lparr>lrLevel = status_level (gWriterStatus ?G c'),
         lrMessage = ''HTTP request'', lrAttrs = attrs\<rparr>])))"
    unfolding serve_eq by blast
  then show "fst (fst (snd (serve E (\<lambda>k. k) cfg routes ((c, s), log)))) =
      gAbortWithStatusJSON (enGin E) StatusUnauthorized (error_body ''unauthorized'')
        (set_headers (enGin E) (security_headers @ cors_headers) c)"
    by (simp add: Let_def)
qed

theorem unauthenticated_request_witness:
  "provider_state (snd (serve demo_engine (\<lambda>k. k) demo_cfg plain_demo_routes
     ((demo_request ''k3'' ''DELETE'' ''/api/v1/pg/ms-1'' '''', [''ms-1'']), []))) = [''ms-1'']"
proof -
  have "state_middleware (lift_gin (enGin demo_engine)) (\<lambda>p. dcHeaders (fst (fst p))) (\<lambda>k. k)"
    by unfold_locales simp_all
  then show ?thesis
    by (rule unauthenticated_request [OF demo_http.gin_engine_axioms, THEN conjunct1])
      (simp add: demo_serve_defs)
qed

text \<open>An admitted request, as the search in the route table decides.\<close>

lemma enFind_headers:
  "gin_engine E resp \<Longrightarrow> enFind E table (set_headers (enGin E) hs c) = enFind E table c"
  by (induction hs arbitrary: c) (auto simp: gin_engine.find_header)

lemma serve_admitted:
  assumes "gin_engine E resp" "admitted (enGin E) cfg c"
    and "route_request E (setupRoutes routes) ((set_headers (enGin E) (security_headers @ cors_headers) c, s), log) =
      (None, (p, log'))"
  shows "\<exists>attrs. serve E (\<lambda>k. k) cfg routes ((c, s), log) =
    (None, (p, log' @ [\<lparr>lrLevel = status_level (gWriterStatus (enGin E) (fst p)),
       lrMessage = ''HTTP request'', lrAttrs = attrs\<rparr>]))"
  unfolding serve_eq
  using gin_context.admitted_chain [OF gin_engine_lifted [OF assms(1)], of cfg "(c, s)"] assms(2,3) by simp

lemma enFind_unique:
  assumes "gin_engine E resp" "well_mounted routes" "(pat, h) \<in> set (setupRoutes routes)"
    and "route_matches pat (gMethod (enGin E) c, gPath (enGin E) c)"
  shows "\<exists>rq. enFind E (setupRoutes routes) c = Some (h, rq) \<and>
    rqParamID rq = param_id (split_slash (snd pat)) (split_slash (gPath (enGin E) c)) \<and> rqBody rq = enBody E c"
proof (cases "enFind E (setupRoutes routes) c")
  case None
  with gin_engine.find_complete [OF assms(1) None assms(3)] assms(4) show ?thesis by simp
next
  case (Some x)
  then obtain h' rq where "enFind E (setupRoutes routes) c = Some (h', rq)" by (cases x) auto
  with gin_engine.find_sound [OF assms(1) this] setupRoutes_unique [OF assms(2) _ _ assms(3,4)] show ?thesis
    by blast
qed

text \<open>What the server answers with the handler \<open>h\<close> on the request \<open>rq\<close>.\<close>

definition handled ::
  "('c, 's) engine \<Rightarrow> 's http_handler \<Rightarrow> http_request \<Rightarrow> 'c \<Rightarrow> 's \<Rightarrow> log_record list \<Rightarrow>
   (string \<times> log_value) list \<Rightarrow> string option \<times> ('c \<times> 's) \<times> log_record list" where
  "handled E h rq c s log attrs =
     (case h rq s of (rep, hlog, s') \<Rightarrow>
        let c' = send E rep (set_headers (enGin E) (security_headers @ cors_headers) c)
        in (None, ((c', s'), log @ hlog @ [\<lparr>lrLevel = status_level (gWriterStatus (enGin E) c'),
             lrMessage = ''HTTP request'', lrAttrs = attrs\<rparr>])))"

lemma serve_handler:
  assumes "gin_engine E resp" "admitted (enGin E) cfg c" "well_mounted routes"
    and "(pat, h) \<in> set (setupRoutes routes)" "route_matches pat (gMethod (enGin E) c, gPath (enGin E) c)"
  shows "\<exists>rq attrs. rqParamID rq = param_id (split_slash (snd pat)) (split_slash (gPath (enGin E) c)) \<and>
    rqBody rq = enBody E c \<and> serve E (\<lambda>k. k) cfg routes ((c, s), log) = handled E h rq c s log attrs"
proof -
  let ?c = "set_headers (enGin E) (security_headers @ cors_headers) c"
  obtain rq where f: "enFind E (setupRoutes routes) c = Some (h, rq)"
    and rq: "rqParamID rq = param_id (split_slash (snd pat)) (split_slash (gPath (enGin E) c))" "rqBody rq = enBody E c"
    using enFind_unique [OF assms(1,3-5)] by blast
  obtain rep hlog s' where r: "h rq s = (rep, hlog, s')" using prod_cases3 by blast
  from f r have "route_request E (setupRoutes routes) ((?c, s), log) = (None, ((send E rep ?c, s'), log @ hlog))"
    by (simp add: route_request_def enFind_headers [OF assms(1)])
  from serve_admitted [OF assms(1,2) this] r rq show ?thesis
    by (intro exI [of _ rq]) (auto simp: Let_def handled_def)
qed

text \<open>The same for a route of a provider, by the segments of the path below its group.\<close>

lemma serve_provider_route:
  assumes "gin_engine E resp" "admitted (enGin E) cfg c" "well_mounted routes"
    and "(n, t) \<in> set routes" "((meth, p), h) \<in> set t"
    and "gMethod (enGin E) c = meth" "split_slash (gPath (enGin E) c) = ['''', ''api'', ''v1'', n] @ ss"
    and "segments_match (below p) ss"
  shows "\<exists>rq attrs. rqParamID rq = param_id (below p) ss \<and> rqBody rq = enBody E c \<and>
    serve E (\<lambda>k. k) cfg routes ((c, s), log) = handled E h rq c s log attrs"
proof -
  let ?pat = "(meth, ''/api/'' @ apiVersion @ ''/'' @ n @ p)"
  have n: "plain_name n" and "(meth, p) \<in> set provider_patterns"
    using well_mountedD(1,3) [OF assms(3,4)] assms(5) by blast+
  then have pat: "split_slash (snd ?pat) = ['''', ''api'', ''v1'', n] @ below p"
    using split_group [OF n, of p] by force
  have "(?pat, h) \<in> set (setupRoutes routes)"
    using assms(4,5) by (force simp: setupRoutes_def group_routes_def Let_def)
  moreover have "route_matches ?pat (gMethod (enGin E) c, gPath (enGin E) c)"
    unfolding route_matches_def fst_conv snd_conv assms(7) pat [unfolded snd_conv] using assms(6,8) by simp
  moreover have "n \<noteq> '':id''" using n by (auto simp: plain_name_def strings_HasPrefix_def)
  ultimately show ?thesis
    using serve_handler [OF assms(1-3), of ?pat h s log] unfolding pat assms(7) by simp
qed

lemma split_path:
  assumes "plain_name n"
  shows "split_slash (''/api/'' @ apiVersion @ ''/'' @ n @ ''/'' @ q) = ['''', ''api'', ''v1'', n] @ split_slash q"
  using assms split_slash_append [of n q] by (simp add: apiVersion_def split_slash_plain plain_name_def)

lemma serve_unmatched:
  assumes "gin_engine E resp" "admitted (enGin E) cfg c"
    and "\<forall>(pat, h) \<in> set (setupRoutes routes). \<not> route_matches pat (gMethod (enGin E) c, gPath (enGin E) c)"
  shows "fst (snd (serve E (\<lambda>k. k) cfg routes ((c, s), log))) =
    (gJSON (enGin E) StatusNotFound (error_body ''not found'')
       (set_headers (enGin E) (security_headers @ cors_headers) c), s)"
proof -
  let ?c = "set_headers (enGin E) (security_headers @ cors_headers) c"
  have "enFind E (setupRoutes routes) c = None"
  proof (cases "enFind E (setupRoutes routes) c")
    case (Some x)
    then show ?thesis
      using gin_engine.find_sound [OF assms(1), of "setupRoutes routes" c "fst x" "snd x"] assms(3) by auto
  qed
  then have "route_request E (setupRoutes routes) ((?c, s), log) =
      (None, ((gJSON (enGin E) StatusNotFound (error_body ''not found'') ?c, s), log))"
    by (simp add: route_request_def enFind_headers [OF assms(1)] NotFound_def)
  from serve_admitted [OF assms(1,2) this] show ?thesis by auto
qed

text \<open>
  C15: An admitted request runs exactly the handler of the route it matches, once, with the
  value of \<open>:id\<close> from its path and after all eight response headers are set; the reply is that
  handler's, what happens to the providers is what it did, and one request record follows its own
  records in the log, at the level of the status. A request that matches no route is answered with
  404 and touches no provider.
\<close>
theorem admitted_request:
  assumes "gin_engine E resp" "admitted (enGin E) cfg c" "well_mounted routes"
  shows "(\<forall>pat h. (pat, h) \<in> set (setupRoutes routes) \<and> route_matches pat (gMethod (enGin E) c, gPath (enGin E) c) \<longrightarrow>
      (\<exists>rq attrs. rqParamID rq = param_id (split_slash (snd pat)) (split_slash (gPath (enGin E) c)) \<and>
        rqBody rq = enBody E c \<and> serve E (\<lambda>k. k) cfg routes ((c, s), log) = handled E h rq c s log attrs)) \<and>
    ((\<forall>(pat, h) \<in> set (setupRoutes routes). \<not> route_matches pat (gMethod (enGin E) c, gPath (enGin E) c)) \<longrightarrow>
      fst (snd (serve E (\<lambda>k. k) cfg routes ((c, s), log))) =
        (gJSON (enGin E) StatusNotFound (error_body ''not found'')
           (set_headers (enGin E) (security_headers @ cors_headers) c), s))"
  using serve_handler [OF assms] serve_unmatched [OF assms(1,2)] by blast

lemma fst_provider_table: "fst ` set (provider_table encP encC encD B P b m) = set provider_patterns"
  by (metis list.set_map provider_table_patterns)

lemma demo_mounted: "well_mounted plain_demo_routes"
  by (simp add: well_mounted_def plain_demo_routes_def provider_table_patterns fst_provider_table plain_name_def
      strings_HasPrefix_def) (simp add: provider_patterns_def)

theorem admitted_request_witness:
  "provider_state (snd (serve demo_engine (\<lambda>k. k) demo_cfg plain_demo_routes
     ((demo_request ''k3y'' ''DELETE'' ''/api/v1/pg/ms-1'' '''', [''ms-1'', ''ms-2'']), []))) = [''ms-2'']"
proof -
  let ?c = "demo_request ''k3y'' ''DELETE'' ''/api/v1/pg/ms-1'' ''''"
  have c: "admitted (enGin demo_engine) demo_cfg ?c" "gMethod (enGin demo_engine) ?c = ''DELETE''"
    "gPath (enGin demo_engine) ?c = ''/api/v1/pg/ms-1''"
    by (simp_all add: admitted_def demo_serve_defs)
  have "((''DELETE'', ''/api/v1/pg/:id''), handle_delete demo_provider) \<in> set (setupRoutes plain_demo_routes) \<and>
      route_matches (''DELETE'', ''/api/v1/pg/:id'') (gMethod (enGin demo_engine) ?c, gPath (enGin demo_engine) ?c)"
    by (simp add: setupRoutes_def plain_demo_routes_def table_defs group_routes_def apiVersion_def c route_matches_def
        strings_HasPrefix_def)
  from admitted_request [where s = "[''ms-1'', ''ms-2'']" and log = "[]", OF demo_http.gin_engine_axioms c(1)
      demo_mounted, THEN conjunct1, rule_format, OF this]
  obtain rq attrs where "rqParamID rq = ''ms-1''"
    "serve demo_engine (\<lambda>k. k) demo_cfg plain_demo_routes ((?c, [''ms-1'', ''ms-2'']), []) =
       handled demo_engine (handle_delete demo_provider) rq ?c [''ms-1'', ''ms-2''] [] attrs"
    by (auto simp: c)
  then show ?thesis
    by (simp add: handled_def handle_delete_def demo_provider_def finish_def Let_def)
qed

text \<open>
  C36: The routes of a server whose providers are mounted under different plain names do not
  overlap: no request matches two of them, so the order in which the map of providers is visited
  does not matter, and every method they use is one that the CORS preflight allows.
\<close>
theorem server_routes_unambiguous:
  assumes "well_mounted routes" "mset routes' = mset routes"
  shows "(\<forall>r \<in> set (setupRoutes routes). \<forall>r' \<in> set (setupRoutes routes').
      route_matches (fst r) rq \<and> route_matches (fst r') rq \<longrightarrow> r = r') \<and>
    set (setupRoutes routes') = set (setupRoutes routes) \<and>
    (\<forall>r \<in> set (setupRoutes routes).
       fst (fst r) \<in> set (split_comma (the (map_of cors_headers ''Access-Control-Allow-Methods''))))"
proof (intro conjI ballI impI)
  show same: "set (setupRoutes routes') = set (setupRoutes routes)"
    using mset_eq_setD [OF assms(2)] by (simp add: setupRoutes_def Let_def)
  fix r assume r: "r \<in> set (setupRoutes routes)"
  show "r = r'" if "r' \<in> set (setupRoutes routes')" "route_matches (fst r) rq \<and> route_matches (fst r') rq" for r'
    using setupRoutes_unique [OF assms(1), of "fst r" "snd r" rq "fst r'" "snd r'"] r that same
    by (simp add: prod_eq_iff)
  have "(fst r, snd r) \<in> set (setupRoutes routes)" using r by simp
  then have "fst (fst r) \<in> {''GET''} \<union> fst ` set provider_patterns"
    using well_mountedD(3) [OF assms(1)] by (cases rule: setupRoutes_cases) (auto, force)
  then show "fst (fst r) \<in> set (split_comma (the (map_of cors_headers ''Access-Control-Allow-Methods'')))"
    by (auto simp: provider_patterns_def cors_headers_def)
qed

theorem server_routes_unambiguous_witness:
  "set (setupRoutes (rev (plain_demo_routes @ [(''mysql'', [])]))) =
   set (setupRoutes (plain_demo_routes @ [(''mysql'', [] :: string list route_table)]))"
proof -
  have "well_mounted (plain_demo_routes @ [(''mysql'', [] :: string list route_table)])"
    using demo_mounted by (auto simp: well_mounted_def plain_demo_routes_def plain_name_def strings_HasPrefix_def)
  from server_routes_unambiguous [OF this mset_rev, THEN conjunct2, THEN conjunct1] show ?thesis .
qed

text \<open>
  C24: A PATCH of \<open>/api/v1/<provider>/<id>\<close> whose body binds and names that ID calls \<open>Update\<close> of the
  provider of that name once, with exactly that ID, a positive team and the values of the body, and
  answers with what came of it; any other leaves every provider as it is and is answered with 400.
\<close>
theorem PATCH_end_to_end:
  assumes "gin_engine E resp" "admitted (enGin E) cfg c" "well_mounted routes" "json_binding B is_url"
    and "(n, provider_table encP encC encD B P b m) \<in> set routes"
    and "gMethod (enGin E) c = ''PATCH''" "gPath (enGin E) c = ''/api/'' @ apiVersion @ ''/'' @ n @ ''/'' @ sid"
    and "sid \<noteq> ''''" "CHR ''/'' \<notin> set sid"
  shows "\<exists>rep s'. fst (snd (serve E (\<lambda>k. k) cfg routes ((c, s), log))) =
      (send E rep (set_headers (enGin E) (security_headers @ cors_headers) c), s') \<and>
    ((\<forall>upd args. bindUpdateFields B (enBody E c) = Inr upd \<and> bindParams B (enBody E c) = Inr args \<longrightarrow>
        sfID upd \<noteq> sid) \<and> s' = s \<and> (\<exists>msg. rep = ReplyJSON StatusBadRequest (error_body msg)) \<or>
     (\<exists>upd args r. bindUpdateFields B (enBody E c) = Inr upd \<and> bindParams B (enBody E c) = Inr args \<and>
        sfID upd = sid \<and> 0 < sfTeamID upd \<and>
        pvUpdate P \<lparr>urID = sid, urTeamID = sfTeamID upd, urCustomSubdomain = sfCustomSubdomain upd,
          urPause = ufPause upd, urParams = args, urBackups = ufBackups upd\<rparr> s = (r, s') \<and>
        rep = (case r of None \<Rightarrow> ReplyStatus StatusNoContent | Some e \<Rightarrow> fst (HandleError e))))"
proof -
  have "split_slash (gPath (enGin E) c) = ['''', ''api'', ''v1'', n] @ [sid]"
    using split_path [OF well_mountedD(1) [OF assms(3,5)], of sid] assms(7,9) by (simp add: split_slash_plain)
  from serve_provider_route [OF assms(1-3,5) _ assms(6) this, of "''/:id''" "handle_update B P" s log] assms(8)
  obtain rq attrs where rq: "rqParamID rq = sid" "rqBody rq = enBody E c"
    and serve: "serve E (\<lambda>k. k) cfg routes ((c, s), log) = handled E (handle_update B P) rq c s log attrs"
    by (auto simp: table_defs below_def strings_HasPrefix_def)
  obtain rep hlog s' where h: "handle_update B P rq s = (rep, hlog, s')" using prod_cases3 by blast
  have reply: "fst (snd (serve E (\<lambda>k. k) cfg routes ((c, s), log))) =
      (send E rep (set_headers (enGin E) (security_headers @ cors_headers) c), s')"
    by (simp add: serve handled_def h Let_def)
  from update_only_own_service [OF assms(4), of rq P s] show ?thesis
  proof (elim disjE exE conjE)
    fix msg assume "handle_update B P rq s = (ReplyJSON StatusBadRequest (error_body msg), [], s)"
      "\<forall>upd args. bindUpdateFields B (rqBody rq) = Inr upd \<and> bindParams B (rqBody rq) = Inr args \<longrightarrow>
        sfID upd \<noteq> rqParamID rq"
    with h reply rq show ?thesis
      by (intro exI [of _ rep] exI [of _ s'] conjI disjI1 reply exI [of _ msg]) simp_all
  next
    fix upd args
    assume a: "bindUpdateFields B (rqBody rq) = Inr upd" "bindParams B (rqBody rq) = Inr args" "sfID upd = rqParamID rq"
      "0 < sfTeamID upd"
      and upd: "handle_update B P rq s = finish (ReplyStatus StatusNoContent)
        (pvUpdate P \<lparr>urID = rqParamID rq, urTeamID = sfTeamID upd,
           urCustomSubdomain = sfCustomSubdomain upd, urPause = ufPause upd, urParams = args,
           urBackups = ufBackups upd\<rparr> s)"
    obtain r s1 where r: "pvUpdate P \<lparr>urID = rqParamID rq, urTeamID = sfTeamID upd,
           urCustomSubdomain = sfCustomSubdomain upd, urPause = ufPause upd, urParams = args,
           urBackups = ufBackups upd\<rparr> s = (r, s1)" by force
    have "s1 = s'" "rep = (case r of None \<Rightarrow> ReplyStatus StatusNoContent | Some e \<Rightarrow> fst (HandleError e))"
      using h unfolding upd r by (cases r; simp add: finish_def split_beta)+
    with a r rq reply show ?thesis
      by (intro exI [of _ rep] exI [of _ s'] conjI disjI2 exI [of _ upd] exI [of _ args] exI [of _ r]) simp_all
  qed
qed

theorem PATCH_end_to_end_witness:
  "provider_state (snd (serve demo_engine (\<lambda>k. k) demo_cfg plain_demo_routes
      ((demo_request ''k3y'' ''PATCH'' ''/api/v1/pg/ms-1'' ''ms-1'', [''ms-2'']), []))) = [''ms-1'', ''ms-2'']"
proof -
  have c: "admitted (enGin demo_engine) demo_cfg (demo_request ''k3y'' ''PATCH'' ''/api/v1/pg/ms-1'' ''ms-1'')"
    "gMethod (enGin demo_engine) (demo_request ''k3y'' ''PATCH'' ''/api/v1/pg/ms-1'' ''ms-1'') = ''PATCH''"
    "gPath (enGin demo_engine) (demo_request ''k3y'' ''PATCH'' ''/api/v1/pg/ms-1'' ''ms-1'') =
       ''/api/'' @ apiVersion @ ''/'' @ ''pg'' @ ''/'' @ ''ms-1''"
    by (simp_all add: admitted_def demo_serve_defs apiVersion_def)
  have "(''pg'', provider_table (\<lambda>_. JNull) (\<lambda>_. JNull) (\<lambda>_. JNull) demo_binders demo_provider
     demo_backups \<lparr>mtApplyMaintenance = \<lambda>sid s. (None, s)\<rparr>) \<in> set plain_demo_routes"
    by (simp add: plain_demo_routes_def)
  from PATCH_end_to_end [OF demo_http.gin_engine_axioms c(1) demo_mounted demo_binding this c(2,3), of "[''ms-2'']" "[]"]
  moreover have "bindUpdateFields demo_binders ''ms-1'' = Inr \<lparr>sfID = ''ms-1'', sfTeamID = 7, sfCustomSubdomain = None,
      ufPause = Some True, ufBackups = None\<rparr>" "bindParams demo_binders ''ms-1'' = Inr ''ms-1''"
    by (simp_all add: demo_binders_def validating_def validated_def serviceFields_tags_def)
  moreover have "enBody (demo_engine :: (_, string list) engine) (demo_request ''k3y'' ''PATCH'' ''/api/v1/pg/ms-1'' ''ms-1'') = ''ms-1''"
    by (simp add: demo_serve_defs)
  ultimately show ?thesis
    by (auto simp: demo_provider_def)
qed

subsection \<open>What a client can get\<close>

definition success_status :: "((string \<times> string) \<times> nat) list" where
  "success_status =
     [((''GET'', ''''), StatusOK), ((''POST'', ''''), StatusCreated), ((''PATCH'', ''/:id''), StatusNoContent),
      ((''DELETE'', ''/:id''), StatusNoContent), ((''PUT'', ''/backups/:id''), StatusAccepted),
      ((''POST'', ''/backups/:id/status''), StatusOK), ((''DELETE'', ''/backups/:id''), StatusAccepted),
      ((''POST'', ''/:id/maintenance''), StatusAccepted)]"

text \<open>The three ways a handler ends.\<close>

definition well_answered :: "nat \<Rightarrow> 's \<Rightarrow> reply \<times> log_record list \<times> 's \<Rightarrow> bool" where
  "well_answered ok s r \<longleftrightarrow> (case r of (rep, log, s') \<Rightarrow>
     reply_status rep = ok \<and> log = [] \<or>
     (\<exists>msg. rep = ReplyJSON StatusBadRequest (error_body msg)) \<and> log = [] \<and> s' = s \<or>
     (\<exists>e. (rep, log) = HandleError e))"

lemma well_answered_refuse: "well_answered ok s (ReplyJSON StatusBadRequest (error_body msg), [], s)"
  by (simp add: well_answered_def)

lemma well_answered_finish: "well_answered (reply_status ok) s (finish ok r)"
  by (auto simp: well_answered_def finish_def split_beta split: option.split)

lemma well_answered_finish_json: "well_answered StatusOK s (finish_json enc r)"
  by (auto simp: well_answered_def finish_json_def split_beta split: sum.split)

lemmas well_answered = well_answered_refuse well_answered_finish_json
  well_answered_finish [of "ReplyStatus st" for st, unfolded reply_status.simps]

lemma handlers_answer:
  "well_answered StatusOK s (handle_get encP encC encD P rq s)"
  "well_answered StatusCreated s (handle_create B P rq s)"
  "well_answered StatusNoContent s (handle_update B P rq s)"
  "well_answered StatusNoContent s (handle_delete P rq s)"
  "well_answered StatusAccepted s (handle_take_backup B b rq s)"
  "well_answered StatusOK s (handle_backup_status B b rq s)"
  "well_answered StatusAccepted s (handle_delete_backup B b rq s)"
  "well_answered StatusAccepted s (handle_maintenance m rq s)"
  by (simp_all add: handle_get_def handle_create_def handle_update_def handle_delete_def handle_take_backup_def
      handle_backup_status_def handle_delete_backup_def handle_maintenance_def with_backup_def well_answered
      split: sum.split)

lemma HandleError_typed:
  "\<exists>st m l. HandleError e = (ReplyJSON st (error_body m), [l]) \<and>
     st \<in> {400, 404, 409, 422, 500, 501, 502, 503} \<and> LevelWarn \<le> lrLevel l \<and> (LevelError \<le> lrLevel l \<longrightarrow> 500 \<le> st)"
  by (simp add: HandleError_def Let_def log_error_def less_eq_slog_Level_def)

text \<open>
  C23: Every provider route answers in one of three ways: with its own success status and nothing
  logged; with 400 and an error document, nothing logged and the provider untouched; or with what
  \<open>HandleError\<close> makes of an error, which is always an error document with one of eight statuses and
  exactly one record in the log, at warning level or, only for a 5xx, at error level.
\<close>
theorem replies_typed:
  assumes "(pat, h) \<in> set (provider_table encP encC encD B P b m)"
  shows "well_answered (the (map_of success_status pat)) s (h rq s) \<and>
    (\<exists>st msg l. HandleError e = (ReplyJSON st (error_body msg), [l]) \<and>
       st \<in> {400, 404, 409, 422, 500, 501, 502, 503} \<and> LevelWarn \<le> lrLevel l \<and> (LevelError \<le> lrLevel l \<longrightarrow> 500 \<le> st))"
proof (intro conjI HandleError_typed)
  have "((pat, h) = ((''GET'', ''''), handle_get encP encC encD P) \<or> (pat, h) = ((''POST'', ''''), handle_create B P) \<or>
    (pat, h) = ((''PATCH'', ''/:id''), handle_update B P) \<or> (pat, h) = ((''DELETE'', ''/:id''), handle_delete P) \<or>
    (pat, h) = ((''PUT'', ''/backups/:id''), handle_take_backup B b) \<or>
    (pat, h) = ((''POST'', ''/backups/:id/status''), handle_backup_status B b) \<or>
    (pat, h) = ((''DELETE'', ''/backups/:id''), handle_delete_backup B b) \<or>
    (pat, h) = ((''POST'', ''/:id/maintenance''), handle_maintenance m))"
    using assms by (simp add: table_defs)
  then show "well_answered (the (map_of success_status pat)) s (h rq s)"
    by (elim disjE) (simp_all only: prod.inject, simp_all add: success_status_def handlers_answer)
qed

theorem replies_typed_witness:
  "well_answered StatusAccepted [''ms-1''] (handle_take_backup demo_binders demo_backups
     \<lparr>rqIDs = [], rqParamID = ''b7'', rqBody = ''''\<rparr> [''ms-1''])"
proof -
  have "((''PUT'', ''/backups/:id''), handle_take_backup demo_binders demo_backups) \<in>
      set (provider_table (\<lambda>_. JNull) (\<lambda>_. JNull) (\<lambda>_. JNull) demo_binders demo_provider demo_backups
        \<lparr>mtApplyMaintenance = \<lambda>sid s. (None, s)\<rparr>)"
    by (simp add: table_defs)
  from replies_typed [OF this, THEN conjunct1] show ?thesis by (simp add: success_status_def)
qed

end
