(* ===== verification/BackupFlow.thy ===== *)
theory BackupFlow
  imports Serve JobDeadline
begin

text \<open>
  The worked example of the library (README, section Detached Jobs): a provider whose backups are
  Jobs. \<open>TakeBackup\<close> runs the Job of the backup in the namespace of the team, \<open>GetBackupStatus\<close> reads
  the state of that Job, \<open>DeleteBackup\<close> runs the Job that deletes the backup. What the Jobs run (image,
  command, environment, secrets) is the parameter \<open>payload\<close>. The properties follow requests from the
  router to the cluster, through every part of the library in between: one that takes a backup, one
  that asks for its status, and the first followed by the second once the Job has had its time.
\<close>

definition backup_job ::
  "(BackupRequest \<Rightarrow> 'r ServiceJob) \<Rightarrow> string \<Rightarrow> BackupRequest \<Rightarrow> 'r ServiceJob" where
  "backup_job payload op req =
     (payload req)\<lparr>sjOperation := op, sjMsID := brServiceID req, sjKey := brBackupID req\<rparr>"

definition job_backups ::
  "('s, 'u, 'r) Base \<Rightarrow> ('u, 'r) object_libs \<Rightarrow> ((Pod \<Rightarrow> Pod \<Rightarrow> bool) \<Rightarrow> Pod list \<Rightarrow> Pod list) \<Rightarrow>
   (BackupRequest \<Rightarrow> 'r ServiceJob) \<Rightarrow> 's Backups" where
  "job_backups p A sort_Slice payload =
     \<lparr>bkTakeBackup = (\<lambda>req. JobRunner_Run (jrKube (bJobs p)) A (NamespaceForTeam (brTeamID req))
        (ServiceJobSpec (backup_job payload JobOpBackup req))),
      bkGetBackupStatus = (\<lambda>req s.
        case JobRunner_State (jrKube (bJobs p)) sort_Slice (NamespaceForTeam (brTeamID req)) (BackupJobName (brBackupID req)) s of
          (Inl e, s') \<Rightarrow> (Inl e, s')
        | (Inr st, s') \<Rightarrow> (Inr (BackupStatusFromJob st), s')),
      bkDeleteBackup = (\<lambda>req. JobRunner_Run (jrKube (bJobs p)) A (NamespaceForTeam (brTeamID req))
        (ServiceJobSpec (backup_job payload JobOpDeleteBackup req)))\<rparr>"

lemma backup_job_name: "jspName (ServiceJobSpec (backup_job payload JobOpBackup req)) = BackupJobName (brBackupID req)"
  by (simp add: backup_job_def BackupJobName_def)

text \<open>A request whose body binds runs the Job of its backup, with the limits of the library.\<close>

definition backup_of :: "http_request \<Rightarrow> backupBody \<Rightarrow> BackupRequest" where
  "backup_of rq body = \<lparr>brBackupID = rqParamID rq, brServiceID = bbMsID body, brTeamID = bbTeamID body,
     brConfig = bbConfig body, brSecrets = bbSecrets body, brRetentionDays = bbRetentionDays body\<rparr>"

lemma taken_job:
  fixes payload :: "BackupRequest \<Rightarrow> 'r ServiceJob"
  defines "spec \<equiv> \<lambda>rq body. ServiceJobSpec (backup_job payload JobOpBackup (backup_of rq body))"
  shows "jspName (spec rq body) = BackupJobName (rqParamID rq)" "jspTimeout (spec rq body) = 0"
    "jspCustomize (spec rq body) = None" "converter_ok A \<Longrightarrow> names_job A (spec rq body) ns"
  unfolding spec_def backup_job_name
  by (simp add: backup_of_def) (simp_all add: ServiceJobSpec_names, simp add: ServiceJobSpec_def Let_def)

lemma handle_take_job:
  "bindBackup B (rqBody rq) = Inr body \<Longrightarrow>
   handle_take_backup B (job_backups (NewBase K) A sort_Slice payload) rq s =
     finish (ReplyStatus StatusAccepted) (JobRunner_Run K A (NamespaceForTeam (bbTeamID body))
       (ServiceJobSpec (backup_job payload JobOpBackup (backup_of rq body))) s)"
  by (simp add: handle_take_backup_def with_backup_def parseBackup_def job_backups_def backup_of_def
      NewBase_def NewJobRunner_def)

lemma handle_take_job_backup:
  assumes "api_server L A view" "converter_ok A"
    and "handle_take_backup B (job_backups (NewBase (kubernetesClientImpl L)) A sort_Slice payload) rq s = (rep, log, s')"
  shows "(\<exists>body. rep = ReplyStatus StatusAccepted \<and> bindBackup B (rqBody rq) = Inr body \<and>
      cvJobs (view s') (NamespaceForTeam (bbTeamID body), BackupJobName (rqParamID rq)) \<noteq> None \<and>
      (\<forall>k. k \<noteq> (NamespaceForTeam (bbTeamID body), BackupJobName (rqParamID rq)) \<longrightarrow>
         cvJobs (view s') k = cvJobs (view s) k \<and> cvSecrets (view s') k = cvSecrets (view s) k)) \<or>
    rep \<in> set infra_replies \<or> (\<exists>msg. rep = ReplyJSON StatusBadRequest (error_body msg)) \<and> s' = s"
proof (cases "bindBackup B (rqBody rq)")
  case (Inl msg)
  with assms(3) show ?thesis by (auto simp: handle_take_backup_def with_backup_def parseBackup_def)
next
  case (Inr body)
  let ?ns = "NamespaceForTeam (bbTeamID body)"
  let ?spec = "ServiceJobSpec (backup_job payload JobOpBackup (backup_of rq body))"
  note spec = taken_job(1) [of payload rq body] taken_job(4) [OF assms(2), of payload rq body ?ns]
  obtain r s1 where run: "JobRunner_Run (kubernetesClientImpl L) A ?ns ?spec s = (r, s1)" by force
  have h: "(rep, log, s') = finish (ReplyStatus StatusAccepted) (r, s1)" using assms(3) run unfolding handle_take_job [OF Inr] by simp
  show ?thesis
  proof (cases r)
    case None
    have ns: "?ns \<noteq> ''''" by (simp add: NamespaceForTeam_def)
    from h None have "rep = ReplyStatus StatusAccepted" "s' = s1" by (simp_all add: finish_def)
    moreover note eff = job_store.Run_effect [OF api_server.job_store_impl [OF assms(1)] ns spec(2) run]
    ultimately show ?thesis using Inr None only_addsD [OF eff(1)] spec(1) by auto
  next
    case (Some e)
    then have "infra_error e" using runner_errors_infra [of L A ?ns ?spec s e] run by simp
    with h Some HandleError_infra [of e] show ?thesis by (simp add: finish_def split_beta)
  qed
qed

text \<open>How the server answers a request that the middleware admits.\<close>

abbreviation answers ::
  "('c, 's) engine \<Rightarrow> Config \<Rightarrow> (string, 's route_table) go_map \<Rightarrow> log_record list \<Rightarrow> 'c \<Rightarrow> 's \<Rightarrow> reply \<Rightarrow> 's \<Rightarrow> bool" where
  "answers E cfg routes log c s rep s' \<equiv>
     fst (snd (serve E (\<lambda>k. k) cfg routes ((c, s), log))) =
       (send E rep (set_headers (enGin E) (security_headers @ cors_headers) c), s')"

text \<open>The two routes, from the server down to the handler.\<close>

lemma serve_take_backup:
  assumes "gin_engine E resp" "admitted (enGin E) cfg c" "well_mounted routes"
    and "(n, provider_table encP encC encD B P bks m) \<in> set routes"
    and "gMethod (enGin E) c = ''PUT''" "gPath (enGin E) c = ''/api/'' @ apiVersion @ ''/'' @ n @ ''/backups/'' @ b"
    and "b \<noteq> ''''" "CHR ''/'' \<notin> set b"
  obtains rq rep hlog s' where "rqParamID rq = b" "rqBody rq = enBody E c"
    "handle_take_backup B bks rq s = (rep, hlog, s')"
    "answers E cfg routes log c s rep s'"
proof -
  let ?h = "handle_take_backup B bks"
  have "split_slash (''backups/'' @ b) = [''backups'', b]"
    using split_slash_append [of "''backups''" b] assms(8) by (simp add: split_slash_plain)
  then have "split_slash (gPath (enGin E) c) = ['''', ''api'', ''v1'', n] @ [''backups'', b]"
    using split_path [OF well_mountedD(1) [OF assms(3,4)], of "''backups/'' @ b"] assms(6) by simp
  from serve_provider_route [OF assms(1-4) _ assms(5) this, of "''/backups/:id''" ?h s log] assms(7)
  obtain rq attrs where rq: "rqParamID rq = b" "rqBody rq = enBody E c"
    and serve: "serve E (\<lambda>k. k) cfg routes ((c, s), log) = handled E ?h rq c s log attrs"
    by (auto simp: table_defs below_def strings_HasPrefix_def)
  obtain rep hlog s' where h: "?h rq s = (rep, hlog, s')" using prod_cases3 by blast
  show ?thesis by (rule that [OF rq h]) (simp add: serve handled_def h Let_def)
qed

text \<open>
  C2: The worked example from end to end: a PUT of \<open>/api/v1/<provider>/backups/<id>\<close> that is answered
  with 202 has left the Job of that backup in the namespace of the team the body names, and touched
  no other Job or Secret of the cluster; any other answer is one of the five fixed documents for
  failures of the cluster, or a 400 that changed nothing.
\<close>
theorem PUT_backup_dispatches:
  assumes "api_server L A view" "converter_ok A"
    and "gin_engine E resp" "admitted (enGin E) cfg c" "well_mounted routes"
    and "(n, provider_table encP encC encD B P (job_backups (NewBase (kubernetesClientImpl L)) A sort_Slice payload) m) \<in> set routes"
    and "gMethod (enGin E) c = ''PUT''" "gPath (enGin E) c = ''/api/'' @ apiVersion @ ''/'' @ n @ ''/backups/'' @ b"
    and "b \<noteq> ''''" "CHR ''/'' \<notin> set b"
  shows "\<exists>rep s'. answers E cfg routes log c s rep s' \<and>
    ((\<exists>body. rep = ReplyStatus StatusAccepted \<and> bindBackup B (enBody E c) = Inr body \<and>
      cvJobs (view s') (NamespaceForTeam (bbTeamID body), BackupJobName b) \<noteq> None \<and>
      (\<forall>k. k \<noteq> (NamespaceForTeam (bbTeamID body), BackupJobName b) \<longrightarrow>
         cvJobs (view s') k = cvJobs (view s) k \<and> cvSecrets (view s') k = cvSecrets (view s) k)) \<or>
    rep \<in> set infra_replies \<or> (\<exists>msg. rep = ReplyJSON StatusBadRequest (error_body msg)) \<and> s' = s)"
proof -
  obtain rq rep hlog s' where rq: "rqParamID rq = b" "rqBody rq = enBody E c"
    and h: "handle_take_backup B (job_backups (NewBase (kubernetesClientImpl L)) A sort_Slice payload) rq s = (rep, hlog, s')"
    and reply: "answers E cfg routes log c s rep s'"
    by (rule serve_take_backup [OF assms(3-10)])
  from reply handle_take_job_backup [OF assms(1,2) h] show ?thesis unfolding rq by blast
qed

subsection \<open>Asking for the status of a backup\<close>

lemma handle_job_backup_status:
  assumes "api_reads L A view typed"
    and "handle_backup_status B (job_backups (NewBase (kubernetesClientImpl L)) A sort_Slice payload) rq s = (rep, log, s')"
  shows "view s' = view s \<and>
    ((\<exists>body st. rep = ReplyJSON StatusOK (BackupStatus_json st) \<and> bindBackup B (rqBody rq) = Inr body \<and>
      (let p = phases typed (view s) (NamespaceForTeam (bbTeamID body), BackupJobName (rqParamID rq))
       in (bsExists st \<longleftrightarrow> p = JobSucceeded) \<and> (bsError st \<noteq> '''' \<longleftrightarrow> p = JobFailed))) \<or>
    rep \<in> set infra_replies \<or>
    (\<exists>msg. bindBackup B (rqBody rq) = Inl msg \<and> rep = ReplyJSON StatusBadRequest (error_body msg)))"
proof (cases "bindBackup B (rqBody rq)")
  case (Inl msg)
  with assms(2) show ?thesis by (auto simp: handle_backup_status_def with_backup_def parseBackup_def)
next
  case (Inr body)
  let ?ns = "NamespaceForTeam (bbTeamID body)" and ?name = "BackupJobName (rqParamID rq)"
  note reads = api_reads.job_reads_impl [OF assms(1)]
  obtain r s1 where state: "JobRunner_State (kubernetesClientImpl L) sort_Slice ?ns ?name s = (r, s1)" by force
  have ns: "?ns \<noteq> ''''" by (simp add: NamespaceForTeam_def)
  from job_reads.State_life [OF reads ns state, of phase_moves]
  have phase: "jstPhase st = phases typed (view s) (?ns, ?name)" if "r = Inr st" for st
    using that by simp
  have same: "view s1 = view s"
    using job_store.State_frame [OF job_reads.axioms(1) [OF reads] state] .
  have h: "(rep, log, s') = finish_json BackupStatus_json (case r of Inl e \<Rightarrow> (Inl e, s1) | Inr st \<Rightarrow> (Inr (BackupStatusFromJob st), s1))"
    using assms(2) Inr state
    by (simp add: handle_backup_status_def with_backup_def parseBackup_def job_backups_def NewBase_def NewJobRunner_def)
  show ?thesis
  proof (cases r)
    case (Inl e)
    then have "infra_error e"
      using runner_errors_infra [of L A ?ns undefined s e ?name sort_Slice] state by simp
    with h Inl same HandleError_infra [of e] show ?thesis by (simp add: finish_json_def split_beta)
  next
    case r: (Inr st)
    have "rep = ReplyJSON StatusOK (BackupStatus_json (BackupStatusFromJob st))" "s' = s1"
      using h r by (simp_all add: finish_json_def)
    moreover have "bsExists (BackupStatusFromJob st) \<longleftrightarrow> jstPhase st = JobSucceeded"
      "bsError (BackupStatusFromJob st) \<noteq> '''' \<longleftrightarrow> jstPhase st = JobFailed"
      using backup_status_exact [OF state [unfolded r]] by simp_all
    ultimately show ?thesis using Inr same phase [OF r] by (auto simp: Let_def)
  qed
qed

lemma serve_backup_status:
  assumes "gin_engine E resp" "admitted (enGin E) cfg c" "well_mounted routes"
    and "(n, provider_table encP encC encD B P bks m) \<in> set routes"
    and "gMethod (enGin E) c = ''POST''"
    and "gPath (enGin E) c = ''/api/'' @ apiVersion @ ''/'' @ n @ ''/backups/'' @ b @ ''/status''"
    and "b \<noteq> ''''" "CHR ''/'' \<notin> set b"
  obtains rq rep hlog s' where "rqParamID rq = b" "rqBody rq = enBody E c"
    "handle_backup_status B bks rq s = (rep, hlog, s')"
    "answers E cfg routes log c s rep s'"
proof -
  let ?h = "handle_backup_status B bks"
  have "split_slash (''backups/'' @ b @ ''/status'') = [''backups'', b, ''status'']"
    using split_slash_append [of "''backups''" "b @ ''/status''"] split_slash_append [of b "''status''"] assms(8)
    by (simp add: split_slash_plain)
  then have "split_slash (gPath (enGin E) c) = ['''', ''api'', ''v1'', n] @ [''backups'', b, ''status'']"
    using split_path [OF well_mountedD(1) [OF assms(3,4)], of "''backups/'' @ b @ ''/status''"] assms(6) by simp
  from serve_provider_route [OF assms(1-4) _ assms(5) this, of "''/backups/:id/status''" ?h s log] assms(7)
  obtain rq attrs where rq: "rqParamID rq = b" "rqBody rq = enBody E c"
    and serve: "serve E (\<lambda>k. k) cfg routes ((c, s), log) = handled E ?h rq c s log attrs"
    by (auto simp: table_defs below_def strings_HasPrefix_def)
  obtain rep hlog s' where h: "?h rq s = (rep, hlog, s')" using prod_cases3 by blast
  show ?thesis by (rule that [OF rq h]) (simp add: serve handled_def h Let_def)
qed

text \<open>
  C3: The worked example from end to end, the other way: a POST of
  \<open>/api/v1/<provider>/backups/<id>/status\<close> changes no Job and no Secret. When it is answered with 200,
  the backup is said to exist exactly if the Job of that backup, in the namespace of the team that the
  body names, has succeeded at that moment, and to have failed exactly if that Job has failed; any
  other answer is one of the five fixed documents or a 400.
\<close>
theorem POST_backup_status_tells:
  assumes "api_reads L A view typed"
    and "gin_engine E resp" "admitted (enGin E) cfg c" "well_mounted routes"
    and "(n, provider_table encP encC encD B P (job_backups (NewBase (kubernetesClientImpl L)) A sort_Slice payload) m) \<in> set routes"
    and "gMethod (enGin E) c = ''POST''"
    and "gPath (enGin E) c = ''/api/'' @ apiVersion @ ''/'' @ n @ ''/backups/'' @ b @ ''/status''"
    and "b \<noteq> ''''" "CHR ''/'' \<notin> set b"
  shows "\<exists>rep s'. answers E cfg routes log c s rep s' \<and> view s' = view s \<and>
    ((\<exists>body st. rep = ReplyJSON StatusOK (BackupStatus_json st) \<and> bindBackup B (enBody E c) = Inr body \<and>
      (let p = phases typed (view s) (NamespaceForTeam (bbTeamID body), BackupJobName b)
       in (bsExists st \<longleftrightarrow> p = JobSucceeded) \<and> (bsError st \<noteq> '''' \<longleftrightarrow> p = JobFailed))) \<or>
    rep \<in> set infra_replies \<or> (\<exists>msg. rep = ReplyJSON StatusBadRequest (error_body msg)))"
proof -
  obtain rq rep hlog s' where rq: "rqParamID rq = b" "rqBody rq = enBody E c"
    and h: "handle_backup_status B (job_backups (NewBase (kubernetesClientImpl L)) A sort_Slice payload) rq s = (rep, hlog, s')"
    and reply: "answers E cfg routes log c s rep s'"
    by (rule serve_backup_status [OF assms(2-9)])
  from reply handle_job_backup_status [OF assms(1) h] show ?thesis unfolding rq by blast
qed

subsection \<open>A backup is not pending for ever\<close>

lemma take_backup_runs:
  assumes "bindBackup B (rqBody rq) = Inr body"
    and "handle_take_backup B (job_backups (NewBase (kubernetesClientImpl L)) A sort_Slice payload) rq s =
      (ReplyStatus StatusAccepted, log, s')"
  shows "JobRunner_Run (kubernetesClientImpl L) A (NamespaceForTeam (bbTeamID body))
    (ServiceJobSpec (backup_job payload JobOpBackup (backup_of rq body))) s = (None, s')"
proof -
  let ?ns = "NamespaceForTeam (bbTeamID body)"
  let ?spec = "ServiceJobSpec (backup_job payload JobOpBackup (backup_of rq body))"
  obtain r w where run: "JobRunner_Run (kubernetesClientImpl L) A ?ns ?spec s = (r, w)" by force
  have answer: "(ReplyStatus StatusAccepted, log, s') = finish (ReplyStatus StatusAccepted) (r, w)"
    using assms(2) run unfolding handle_take_job [OF assms(1)] by simp
  have "r = None"
  proof (rule ccontr)
    assume "r \<noteq> None"
    then obtain e where e: "r = Some e" by blast
    then have "infra_error e" using runner_errors_infra [of L A ?ns ?spec s e] run by simp
    with answer e HandleError_infra [of e] show False by (auto simp: finish_def split_beta infra_replies_def)
  qed
  with run answer show ?thesis by (simp add: finish_def)
qed

text \<open>The two handlers, once the deadline of the Job has passed in between.\<close>

lemma handlers_settle:
  assumes "api_limits_kept L A view typed" "converter_ok A" "controlled k now typed view env"
    and "bindBackup B (rqBody rq) = Inr body" "bindBackup B (rqBody rq') = Inr body'" "bbTeamID body' = bbTeamID body"
    and "rqParamID rq' = rqParamID rq" "k = (NamespaceForTeam (bbTeamID body), BackupJobName (rqParamID rq))"
    and "cvJobs (view s) k = None"
    and "handle_take_backup B (job_backups (NewBase (kubernetesClientImpl L)) A sort_Slice payload) rq s =
      (ReplyStatus StatusAccepted, log, s1)"
    and "deadline_passes k now (job_step (kubernetesClientImpl L) A sort_Slice env) 21600 s1 s2"
    and "handle_backup_status B (job_backups (NewBase (kubernetesClientImpl L)) A sort_Slice payload) rq' s2 =
      (rep', log', s3)"
  shows "(\<exists>st. rep' = ReplyJSON StatusOK (BackupStatus_json st) \<and>
      (bsExists st \<or> bsError st \<noteq> '''' \<or> cvJobs (view s2) k = None)) \<or> rep' \<in> set infra_replies"
proof -
  let ?ns = "NamespaceForTeam (bbTeamID body)"
  let ?spec = "ServiceJobSpec (backup_job payload JobOpBackup (backup_of rq body))"
  note kept = api_limits_kept.limits_kept_impl [OF assms(1)]
  have k: "k = (?ns, jspName ?spec)" using assms(8) by (simp add: taken_job(1) del: ServiceJobSpec_sel)
  have ns: "?ns \<noteq> ''''" by (simp add: NamespaceForTeam_def)
  note run = take_backup_runs [OF assms(4,10)]
  obtain dl ttl where built: "limits (buildJobObject ?spec ?ns) = (Some dl, Some ttl)"
    and "sint dl \<le> (if sint (jspTimeout ?spec) \<le> 0 then 21600 else sint (jspTimeout ?spec) div 10 ^ 9 + 1)"
    using built_limits [OF taken_job(3) [of payload rq body], where ns = ?ns] by blast
  then have limit: "sint dl \<le> 21600" by (simp add: taken_job(2))
  have settled: "pred_option settled (map_option typed (cvJobs (view s2) k))"
    by (rule job_limits_kept.dispatch_settles [OF kept ns taken_job(4) [OF assms(2)] k assms(9) run built limit assms(3,11)])
  from handle_job_backup_status [OF api_limits_kept.axioms(1) [OF assms(1)] assms(12)]
  have "(\<exists>st. rep' = ReplyJSON StatusOK (BackupStatus_json st) \<and>
      (bsExists st \<longleftrightarrow> phases typed (view s2) k = JobSucceeded) \<and>
      (bsError st \<noteq> '''' \<longleftrightarrow> phases typed (view s2) k = JobFailed)) \<or> rep' \<in> set infra_replies"
    using assms(5-8) by (auto simp: Let_def)
  moreover have "phases typed (view s2) k \<in> {JobSucceeded, JobFailed} \<or> cvJobs (view s2) k = None"
    using settled by (auto simp: phases_def settled_def split: option.splits)
  ultimately show ?thesis by blast
qed

text \<open>
  C4: The worked example from end to end, in time: when a PUT of a new backup is answered with 202, and
  then, in a world that enforces deadlines, six hours pass between two rounds of the Job controller
  while nobody removes or repeats the backup, a POST for its status that is answered with 200 says
  that the backup exists or says why it failed, unless its Job has been collected by then.
\<close>
theorem backup_settles:
  assumes "api_limits_kept L A view typed" "converter_ok A" "controlled k now typed view env"
    and "gin_engine E resp" "well_mounted routes"
    and "(n, provider_table encP encC encD B P (job_backups (NewBase (kubernetesClientImpl L)) A sort_Slice payload) m) \<in> set routes"
    and "admitted (enGin E) cfg c" "gMethod (enGin E) c = ''PUT''"
    and "gPath (enGin E) c = ''/api/'' @ apiVersion @ ''/'' @ n @ ''/backups/'' @ b"
    and "admitted (enGin E) cfg c'" "gMethod (enGin E) c' = ''POST''"
    and "gPath (enGin E) c' = ''/api/'' @ apiVersion @ ''/'' @ n @ ''/backups/'' @ b @ ''/status''"
    and "b \<noteq> ''''" "CHR ''/'' \<notin> set b"
    and "bindBackup B (enBody E c) = Inr body" "bindBackup B (enBody E c') = Inr body'" "bbTeamID body' = bbTeamID body"
    and "k = (NamespaceForTeam (bbTeamID body), BackupJobName b)" "cvJobs (view s) k = None"
  shows "\<exists>rep s1. answers E cfg routes log c s rep s1 \<and>
    (rep = ReplyStatus StatusAccepted \<longrightarrow>
     (\<forall>s2. deadline_passes k now (job_step (kubernetesClientImpl L) A sort_Slice env) 21600 s1 s2 \<longrightarrow>
       (\<exists>rep' s3. answers E cfg routes log' c' s2 rep' s3 \<and>
        ((\<exists>st. rep' = ReplyJSON StatusOK (BackupStatus_json st) \<and>
            (bsExists st \<or> bsError st \<noteq> '''' \<or> cvJobs (view s2) k = None)) \<or>
         rep' \<in> set infra_replies))))"
proof -
  obtain rq rep hlog s1 where rq: "rqParamID rq = b" "rqBody rq = enBody E c"
    and h: "handle_take_backup B (job_backups (NewBase (kubernetesClientImpl L)) A sort_Slice payload) rq s = (rep, hlog, s1)"
    and reply: "answers E cfg routes log c s rep s1"
    by (rule serve_take_backup [OF assms(4,7,5,6,8,9,13,14)])
  have "\<exists>rep' s3. answers E cfg routes log' c' s2 rep' s3 \<and>
    ((\<exists>st. rep' = ReplyJSON StatusOK (BackupStatus_json st) \<and>
        (bsExists st \<or> bsError st \<noteq> '''' \<or> cvJobs (view s2) k = None)) \<or> rep' \<in> set infra_replies)"
    if acc: "rep = ReplyStatus StatusAccepted"
      and passes: "deadline_passes k now (job_step (kubernetesClientImpl L) A sort_Slice env) 21600 s1 s2" for s2
  proof -
    obtain rq' rep' hlog' s3 where rq': "rqParamID rq' = b" "rqBody rq' = enBody E c'"
      and h': "handle_backup_status B (job_backups (NewBase (kubernetesClientImpl L)) A sort_Slice payload) rq' s2 = (rep', hlog', s3)"
      and reply': "answers E cfg routes log' c' s2 rep' s3"
      by (rule serve_backup_status [OF assms(4,10,5,6,11,12,13,14)])
    have "bindBackup B (rqBody rq) = Inr body" "bindBackup B (rqBody rq') = Inr body'" "rqParamID rq' = rqParamID rq"
      "k = (NamespaceForTeam (bbTeamID body), BackupJobName (rqParamID rq))"
      using assms(15,16,18) rq rq' by simp_all
    from handlers_settle [OF assms(1-3) this(1,2) assms(17) this(3,4) assms(19) h [unfolded acc] passes h'] reply'
    show ?thesis by blast
  qed
  with reply show ?thesis by blast
qed

subsection \<open>The worked example in memory\<close>

definition mem_provider :: "(mem, unit, unit, unit, unit, string) Provider" where
  "mem_provider =
     \<lparr>pvCreate = (\<lambda>r s. (None, s)), pvList = (\<lambda>s. (Inr (Some []), s)),
      pvGetStatus = (\<lambda>ids s. (Inr None, s)), pvUpdate = (\<lambda>r s. (None, s)), pvDelete = (\<lambda>sid s. (None, s))\<rparr>"

definition mem_routes :: "(string, mem route_table) go_map" where
  "mem_routes = [(''pg'', provider_table (\<lambda>_. JNull) (\<lambda>_. JNull) (\<lambda>_. JNull) demo_binders mem_provider
     (job_backups (NewBase mem_client) mem_objects insertionSort (\<lambda>_. demo_job)) \<lparr>mtApplyMaintenance = \<lambda>sid s. (None, s)\<rparr>)]"

abbreviation mem_engine :: "(demo_context \<times> string list \<times> string, mem) engine" where
  "mem_engine \<equiv> demo_engine"

abbreviation put_b7 :: "demo_context \<times> string list \<times> string" where
  "put_b7 \<equiv> demo_request ''k3y'' ''PUT'' ''/api/v1/pg/backups/b7'' ''ms-1''"

abbreviation post_b7 :: "demo_context \<times> string list \<times> string" where
  "post_b7 \<equiv> demo_request ''k3y'' ''POST'' ''/api/v1/pg/backups/b7/status'' ''ms-1''"

definition demo_body :: backupBody where
  "demo_body = \<lparr>bbMsID = ''ms-1'', bbTeamID = 7, bbConfig = demo_store, bbSecrets = \<lparr>bssSecretKey = ''k''\<rparr>,
     bbRetentionDays = None\<rparr>"

lemma mem_mounted: "well_mounted mem_routes"
  by (simp add: well_mounted_def mem_routes_def provider_table_patterns fst_provider_table plain_name_def
      strings_HasPrefix_def) (simp add: provider_patterns_def)

lemma mem_table:
  "(''pg'', provider_table (\<lambda>_. JNull) (\<lambda>_. JNull) (\<lambda>_. JNull) demo_binders mem_provider
     (job_backups (NewBase mem_client) mem_objects insertionSort (\<lambda>_. demo_job)) \<lparr>mtApplyMaintenance = \<lambda>sid s. (None, s)\<rparr>)
   \<in> set mem_routes"
  by (simp add: mem_routes_def)

lemma put_b7:
  "admitted (enGin mem_engine) demo_cfg put_b7" "gMethod (enGin mem_engine) put_b7 = ''PUT''"
  "gPath (enGin mem_engine) put_b7 = ''/api/'' @ apiVersion @ ''/'' @ ''pg'' @ ''/backups/'' @ ''b7''"
  by (simp_all add: admitted_def demo_serve_defs apiVersion_def)

lemma post_b7:
  "admitted (enGin mem_engine) demo_cfg post_b7" "gMethod (enGin mem_engine) post_b7 = ''POST''"
  "gPath (enGin mem_engine) post_b7 = ''/api/'' @ apiVersion @ ''/'' @ ''pg'' @ ''/backups/'' @ ''b7'' @ ''/status''"
  by (simp_all add: admitted_def demo_serve_defs apiVersion_def)

lemma b7: "''b7'' \<noteq> ''''" "CHR ''/'' \<notin> set ''b7''"
  by simp_all

lemma b7_body:
  "bindBackup demo_binders (enBody mem_engine put_b7) = Inr demo_body"
  "bindBackup demo_binders (enBody mem_engine post_b7) = Inr demo_body"
  using demo_store_tags
  by (simp_all add: demo_serve_defs demo_binders_def validating_def validated_def backupBody_tags_def
      BackupStoreSecrets_tags_def demo_body_def)

lemma b7_names: "NamespaceForTeam (bbTeamID demo_body) = ''rg-7''" "BackupJobName ''b7'' = ''backup-b7''"
proof -
  have "NamespaceForTeam 7 = ''rg-7''" by code_simp
  then show "NamespaceForTeam (bbTeamID demo_body) = ''rg-7''" by (simp add: demo_body_def)
qed code_simp

theorem PUT_backup_dispatches_witness:
  "\<exists>rep s'. answers mem_engine demo_cfg mem_routes [] put_b7 mem_init rep s' \<and>
     (rep = ReplyStatus StatusAccepted \<and> cvJobs (mem_view s') (''rg-7'', ''backup-b7'') \<noteq> None \<or>
      rep \<in> set infra_replies \<or> (\<exists>msg. rep = ReplyJSON StatusBadRequest (error_body msg)))"
proof -
  from PUT_backup_dispatches [OF mem.api_server_axioms demo_converter demo_http.gin_engine_axioms put_b7(1) mem_mounted
      mem_table put_b7(2,3) b7, of mem_init "[]", unfolded b7_body]
  obtain rep s' where r: "answers mem_engine demo_cfg mem_routes [] put_b7 mem_init rep s'"
    and d: "(\<exists>body. rep = ReplyStatus StatusAccepted \<and> Inr demo_body = Inr body \<and>
        cvJobs (mem_view s') (NamespaceForTeam (bbTeamID body), BackupJobName ''b7'') \<noteq> None) \<or>
      rep \<in> set infra_replies \<or> (\<exists>msg. rep = ReplyJSON StatusBadRequest (error_body msg))"
    by blast
  from d have "rep = ReplyStatus StatusAccepted \<and> cvJobs (mem_view s') (''rg-7'', ''backup-b7'') \<noteq> None \<or>
      rep \<in> set infra_replies \<or> (\<exists>msg. rep = ReplyJSON StatusBadRequest (error_body msg))"
    unfolding sum.inject using b7_names by auto
  with r show ?thesis by blast
qed

definition mem_done :: mem where
  "mem_done = mem_finish (mem_init\<lparr>mJobs := [(''rg-7'', ''backup-b7'') \<mapsto> buildJobObject demo_spec ''rg-7'']\<rparr>)"

lemma mem_done_phase: "phases (\<lambda>j. j) (mem_view mem_done) (''rg-7'', ''backup-b7'') = JobSucceeded"
  by (simp add: mem_done_def mem_finish_def phases_def mem_view_def phase_of_eq buildJobObject_def Let_def
      demo_spec_def demo_poll_defs)

theorem POST_backup_status_tells_witness:
  "\<exists>rep s'. answers mem_engine demo_cfg mem_routes [] post_b7 mem_done rep s' \<and>
     ((\<exists>st. rep = ReplyJSON StatusOK (BackupStatus_json st) \<and> bsExists st \<and> bsError st = '''') \<or>
      rep \<in> set infra_replies \<or> (\<exists>msg. rep = ReplyJSON StatusBadRequest (error_body msg)))"
proof -
  from POST_backup_status_tells [OF mem_reads.api_reads_axioms demo_http.gin_engine_axioms post_b7(1) mem_mounted
      mem_table post_b7(2,3) b7, of mem_done "[]", unfolded b7_body]
  obtain rep s' where r: "answers mem_engine demo_cfg mem_routes [] post_b7 mem_done rep s'"
    and d: "(\<exists>body st. rep = ReplyJSON StatusOK (BackupStatus_json st) \<and> Inr demo_body = Inr body \<and>
       (let p = phases (\<lambda>j. j) (mem_view mem_done) (NamespaceForTeam (bbTeamID body), BackupJobName ''b7'')
        in (bsExists st \<longleftrightarrow> p = JobSucceeded) \<and> (bsError st \<noteq> '''' \<longleftrightarrow> p = JobFailed))) \<or>
      rep \<in> set infra_replies \<or> (\<exists>msg. rep = ReplyJSON StatusBadRequest (error_body msg))"
    by blast
  have "phases (\<lambda>j. j) (mem_view mem_done) (NamespaceForTeam (bbTeamID demo_body), BackupJobName ''b7'') = JobSucceeded"
    using mem_done_phase by (simp add: b7_names)
  with d have "(\<exists>st. rep = ReplyJSON StatusOK (BackupStatus_json st) \<and> bsExists st \<and> bsError st = '''') \<or>
      rep \<in> set infra_replies \<or> (\<exists>msg. rep = ReplyJSON StatusBadRequest (error_body msg))"
    unfolding sum.inject by (auto simp: Let_def)
  with r show ?thesis by blast
qed

text \<open>A dispatch in memory never fails, and its answer can be told from any other.\<close>

lemma mem_Run_ok: "ns \<noteq> '''' \<Longrightarrow> jspCustomize spec = None \<Longrightarrow> fst (JobRunner_Run mem_client mem_objects ns spec s) = None"
  by (simp add: demo_run_defs mem_defs buildJobObject_def Let_def wrapped_sentinel_def case_prod_beta
      split: sum.split option.split)

lemma demo_send_accepted:
  assumes "send mem_engine rep c = send mem_engine (ReplyStatus st) c"
  shows "rep = ReplyStatus st"
  using assms
  by (cases rep; cases c) (auto simp: demo_engine_def lift_gin_def demo_gin_def split: if_splits
      dest: arg_cong [of _ _ dcBody] arg_cong [of _ _ dcStatus])

lemma put_b7_accepted: "\<exists>s1. answers mem_engine demo_cfg mem_routes [] put_b7 mem_init (ReplyStatus StatusAccepted) s1"
proof -
  obtain rq rep hlog s1 where rq: "rqParamID rq = ''b7''" "rqBody rq = enBody mem_engine put_b7"
    and h: "handle_take_backup demo_binders (job_backups (NewBase mem_client) mem_objects insertionSort (\<lambda>_. demo_job))
      rq mem_init = (rep, hlog, s1)"
    and put: "answers mem_engine demo_cfg mem_routes [] put_b7 mem_init rep s1"
    by (rule serve_take_backup [OF demo_http.gin_engine_axioms put_b7(1) mem_mounted mem_table put_b7(2,3) b7])
  have "bindBackup demo_binders (rqBody rq) = Inr demo_body" using b7_body(1) rq(2) by simp
  from h [unfolded handle_take_job [OF this]] have "rep = ReplyStatus StatusAccepted"
    using mem_Run_ok [of "NamespaceForTeam (bbTeamID demo_body)"]
    by (simp add: finish_def NamespaceForTeam_def split_beta)
  with put show ?thesis by blast
qed

theorem backup_settles_witness:
  "\<exists>s1 rep' s3. answers mem_engine demo_cfg mem_routes [] put_b7 mem_init (ReplyStatus StatusAccepted) s1 \<and>
    answers mem_engine demo_cfg mem_routes [] post_b7 (mem_controller (21600 * 10 ^ 9) (mem_controller 1 s1)) rep' s3 \<and>
    ((\<exists>st. rep' = ReplyJSON StatusOK (BackupStatus_json st) \<and> (bsExists st \<or> bsError st \<noteq> '''' \<or>
        cvJobs (mem_view (mem_controller (21600 * 10 ^ 9) (mem_controller 1 s1))) (''rg-7'', ''backup-b7'') = None)) \<or>
     rep' \<in> set infra_replies)"
proof -
  let ?k = "(''rg-7'', ''backup-b7'')"
  have k: "?k = (NamespaceForTeam (bbTeamID demo_body), BackupJobName ''b7'')" "cvJobs (mem_view mem_init) ?k = None"
    by (simp_all add: b7_names mem_view_def mem_init_def)
  from backup_settles [OF mem_limits.api_limits_kept_axioms demo_converter mem_controlled demo_http.gin_engine_axioms
      mem_mounted mem_table put_b7 post_b7 b7 b7_body refl k, where log = "[]" and log' = "[]"]
  obtain rep s1 where first: "answers mem_engine demo_cfg mem_routes [] put_b7 mem_init rep s1"
    and later: "rep = ReplyStatus StatusAccepted \<longrightarrow>
      (\<forall>s2. deadline_passes ?k mClock (job_step mem_client mem_objects insertionSort mem_world) 21600 s1 s2 \<longrightarrow>
       (\<exists>rep' s3. answers mem_engine demo_cfg mem_routes [] post_b7 s2 rep' s3 \<and>
        ((\<exists>st. rep' = ReplyJSON StatusOK (BackupStatus_json st) \<and>
            (bsExists st \<or> bsError st \<noteq> '''' \<or> cvJobs (mem_view s2) ?k = None)) \<or>
         rep' \<in> set infra_replies)))"
    by blast
  from put_b7_accepted first have acc: "rep = ReplyStatus StatusAccepted" by (auto intro: demo_send_accepted)
  have "deadline_passes ?k mClock (job_step mem_client mem_objects insertionSort mem_world) 21600 s1
      (mem_controller (21600 * 10 ^ 9) (mem_controller 1 s1))"
    by (rule mem_deadline_passes) simp
  from later [rule_format, OF acc this] first acc show ?thesis by blast
qed

end
