(* ===== verification/Spec2Isabelle.thy ===== *)
theory Spec2Isabelle
  imports JobBuild JobState JobDispatch JobCalls ServiceJob Base ServiceStatus Binding Routes Middleware
    Server Config Telemetry JobProtocol JobLifecycle JobIsolation JobDeadline ServiceObjects Serve BackupFlow
begin

text \<open>
  A model of managed-services-lib, the Go library that providers of managed services (databases and
  the like) are built on: it speaks the REST contract of the platform on one side and the
  Kubernetes API on the other.

  \<^bold>\<open>Parts and how they interact.\<close> A request passes the middleware of \<open>middleware/\<close> in the order that
  \<open>api/server.go\<close> installs it, and reaches a handler of \<open>provider/routes.go\<close>. The handler binds the
  body, calls the provider (an interface the user of the library implements) and answers; errors go
  through \<open>HandleError\<close>. Providers embed \<open>Base\<close> (\<open>provider/base.go\<close>), describe detached work as a
  \<open>ServiceJob\<close> (\<open>provider/servicejob.go\<close>, \<open>backupjob.go\<close>), and dispatch and poll it with the
  \<open>JobRunner\<close> (\<open>client/jobrunner.go\<close>), which uses the \<open>KubernetesClient\<close> (\<open>client/kubernetes.go\<close>).
  The data of both contracts is in \<open>model/\<close>; \<open>config/\<close> reads settings, \<open>telemetry/\<close> sets up tracing.

  \<^bold>\<open>Theories.\<close>
  \<^item> Prelude, GoErrors, GoStrconv, GoUtf8, GoTime: what the code uses of Go and its standard library:
    maps as association lists whose order stands for the open iteration order, \<open>errors.Is\<close> on
    trees of wrapped errors, \<open>strconv.Atoi\<close>, \<open>%d\<close>, conversions between strings and runes,
    durations with the rounding of \<open>Seconds()\<close> in float64, RFC 3339. An error is a value of
    \<open>go_error\<close>; a call returns a sum or an option, with the next state.
  \<^item> Model: \<open>model/common.go\<close> and \<open>model/kubernetes.go\<close>, with the JSON documents of the struct tags.
  \<^item> KubeTypes, KubeClient: the fields of Kubernetes objects that are used; \<open>KubernetesClient\<close> as a
    record of operations on a state \<open>'s\<close>; its implementation over the client libraries, which are
    the parameter \<open>client_libs\<close>; the locale \<open>kube_client\<close> (errors are classified) with its instance.
  \<^item> JobRunner: building a Job and its Secret, \<open>Run\<close>, \<open>State\<close>, \<open>Delete\<close>, \<open>Replace\<close>.
  \<^item> JobBuild: what the built Job says (environment, secrets, limits). JobState: what \<open>State\<close> reports,
    against the phase \<open>phase_of\<close> that the conditions of a Job document, and, in the locale \<open>quiet_reads\<close>,
    that it only reads.
  \<^item> Cluster: the documented behaviour of the API server, as the locale \<open>api_server\<close> over the client
    libraries and the locale \<open>job_store\<close> over a \<open>KubernetesClient\<close>; the first gives the second for
    \<open>kubernetesClientImpl\<close>. The abstract state is a \<open>cluster_view\<close>: Jobs and Secrets by name.
  \<^item> Formats: separators, JSON pointers and label selectors, as reference definitions.
  \<^item> MemCluster: an executable API server in memory, the instance on which witnesses run.
  \<^item> JobDispatch, JobCalls: what the dispatch does to the view, the order of its calls, the calls of a
    poll, the errors.
  \<^item> JobProtocol: \<open>Run\<close>, \<open>Delete\<close> and \<open>Replace\<close> one API call at a time (\<open>run_call\<close>, \<open>delete_call\<close>), several
    callers interleaved by the step relation \<open>sys_step\<close> with a world that may act between two calls,
    and the invariant \<open>sys_inv\<close> of concurrent dispatches. That a caller which runs alone does what the
    method of JobRunner does (\<open>thread_run_new\<close>) ties the two translations of the same code. The outcome
    of a dispatch against a deletion, for each order of their calls, comes from the simulation by
    \<open>race_next\<close>.
  \<^item> JobPhases: what each API call does to the phases of all Jobs; the locales \<open>job_reads\<close> and
    \<open>api_reads\<close> extend the contracts of Cluster by what a read returns. JobLifecycle: the abstract
    machine \<open>life_step\<close> over the phases of Jobs, the simulation of \<open>Run\<close>, \<open>State\<close>, \<open>Delete\<close> and \<open>Replace\<close>
    by it, and what follows for a history of polls. JobIsolation: the phases under interleaved callers of
    all kinds. JobDeadline: time, the limits of a stored Job (\<open>job_limits_kept\<close>, \<open>api_limits_kept\<close>), a
    controller that enforces them (\<open>job_round\<close>), and when a dispatched operation has ended.
  \<^item> ServiceJob, Base, ServiceStatus: naming and labels, reported status, helpers of a provider.
  \<^item> ServiceObjects: finding a service by its labels and keeping its replica count in an annotation,
    against the contract \<open>object_server\<close> of selectors, JSON patches and reads.
  \<^item> Binding, Routes, Http: the constraints of the \<open>binding\<close> tags, the handlers, error replies.
  \<^item> Middleware, Server: the middleware over an abstract gin context, the chain, the route table.
  \<^item> Serve: a request through the whole server: \<open>serve\<close> is the chain that \<open>NewServer\<close> builds around the
    handler gin finds in the route table, on the gin context paired with the state of the providers.
  \<^item> BackupFlow: the worked example of the README, a provider whose backups are Jobs, from the router
    to the cluster: taking a backup, asking for its status, and the one after the other in time.
  \<^item> Config, Telemetry: settings, setup of exporters, trace IDs in log records.

  \<^bold>\<open>What the properties show.\<close> A dispatch that returns nil leaves the Job in place, is idempotent and
  touches nothing else; a replacement always runs with the given credentials, while \<open>Run\<close> keeps
  those of an earlier dispatch; the calls are made in the order that keeps a pod from starting
  without its Secret, also when any number of dispatches is interleaved, but not against a \<open>Delete\<close> of
  the same name: in six of the ten orders of their calls the Job is left without its Secret, with nil
  from both; callers end after at most five calls and never wait for each other; of
  concurrent dispatches of one name the Secret holds the values of one, not always of the one whose
  Job it is; all calls refine a machine in which a Job goes from pending to finished and a finished
  Job stays as it is until it is removed, so that a report, once final, is never taken back; once the
  requested timeout has passed, a dispatched operation is no longer reported as pending or running, and
  a caller that polls more often than the TTL learns how it ended;
  secrets are never written into a Job, and its container sees the plain variables overridden by the
  secret ones; deadlines are the requested ones up to the stated rounding, and TTLs likewise, modulo
  \<open>2 ^ 32\<close> seconds; the status of an operation or a backup says what the Job says, and does not tell a
  Job that is gone from one that is pending; a service is found by its labels, and an ID with
  separators in it finds another service. A request that is not
  authenticated leaves every provider as it is; an admitted one runs exactly the handler its path
  names, with the ID of its path, or gets 404; a provider only sees bodies that satisfy the contract;
  every answer has one of three shapes, and the text of an infrastructure error is in none of them;
  a panic behind the middleware is answered with a fixed 500 and logged once, outside the request log.

  \<^bold>\<open>Parameters and hypotheses.\<close> Kubernetes client libraries, gin, the validator, OpenTelemetry and the
  provider are not in the repository and are parameters. \<open>api_server\<close>, \<open>api_reads\<close>, \<open>object_server\<close>,
  \<open>world_moves\<close> and \<open>controlled\<close> (what the Job controller does between two calls, the second with time,
  deadlines and TTLs), \<open>api_limits_kept\<close> (a created Job keeps its limits), \<open>json_binding\<close>,
  \<open>gin_context\<close>, \<open>gin_engine\<close>, \<open>middleware\<close> and \<open>state_middleware\<close> (for the OpenTelemetry middleware),
  \<open>slice_sort\<close> and \<open>converter_ok\<close> state what is used of their documentation; each is discharged on a
  concrete instance. \<open>well_mounted\<close> is what a server's map of providers has to satisfy (different names
  without slashes). The provider of the worked example, \<open>job_backups\<close>, is not code of the library: it is
  put together from the README and \<open>provider/servicejob_usage_test.go\<close>. The handlers of a route table
  cannot panic; panics are stated of an arbitrary end of the chain. No definition uses fuel: every loop of the code runs over a finite list, and
  \<open>thread_run\<close> ends by the number of calls left.

  \<^bold>\<open>Not modelled.\<close> The generated mock client; contexts, cancellation and the latency of calls; the
  interleaving of requests inside the HTTP server (a handler keeps no state of its own there);
  redirects that gin sends by itself; the TLS and transport setup of the client libraries beyond the
  choice of configuration; the text of validator messages; what the JSON encoder makes of strings that
  are not UTF-8 and of nil slices of patches.
\<close>

end
